(* ===== verification/Prelude.thy ===== *)
theory Prelude
  imports Main "HOL-Library.Word"
begin

text \<open>
  Shared vocabulary of the development.

  Go functions that call code outside the repository (the NATS client, the kernel, the clock,
  the mounted action) are modelled as \<^emph>\<open>programs\<close>: trees that either return a value or issue one
  external request and continue with its answer.  Nothing is assumed of the answers, so a statement
  about every trace of a program is a statement about every behaviour of the outside world.
  The theory holds the program type, sequencing, the replay of a trace, the run against a
  responder, and the generic list, option and machine-integer facts of the other theories.
\<close>

section \<open>Names for the Go types\<close>

type_synonym u8 = "8 word"
type_synonym u32 = "32 word"
type_synonym u64 = "64 word"

text \<open>Go strings and byte slices are sequences of bytes; durations and instants are nanoseconds.\<close>

type_synonym bytes = string
type_synonym duration = int
type_synonym instant = int

abbreviation Millisecond :: duration where "Millisecond \<equiv> 1000000"
abbreviation Second :: duration where "Second \<equiv> 1000000000"

abbreviation maxInt64 :: int where "maxInt64 \<equiv> 9223372036854775807"
abbreviation minInt64 :: int where "minInt64 \<equiv> -9223372036854775808"

definition in_int64 :: "int \<Rightarrow> bool" where
  "in_int64 x \<longleftrightarrow> minInt64 \<le> x \<and> x \<le> maxInt64"

definition wrap_int64 :: "int \<Rightarrow> int" where
  "wrap_int64 x = sint (word_of_int x :: u64)"

named_theorems trace_simps \<open>unfolding a replayed trace\<close>
named_theorems policy_defs \<open>numeric values of the policy constants\<close>
named_theorems binding_defs \<open>constructors and modifiers of bindings\<close>

lemma wrap_int64_id [simp]: "in_int64 x \<Longrightarrow> wrap_int64 x = x"
  unfolding wrap_int64_def in_int64_def
  by (simp add: int_word_sint)

text \<open>Decimal numerals, as \<open>%d\<close> prints an unsigned integer.\<close>

fun decimal :: "nat \<Rightarrow> string" where
  "decimal n = (if n < 10 then [char_of (48 + n)] else decimal (n div 10) @ [char_of (48 + n mod 10)])"

declare decimal.simps [simp del]

section \<open>Programs with external calls\<close>

datatype ('q, 'r, 'a) prog = Ret 'a | Call 'q "'r \<Rightarrow> ('q, 'r, 'a) prog"

type_synonym ('q, 'r) trace = "('q \<times> 'r) list"

primrec bind :: "('q, 'r, 'a) prog \<Rightarrow> ('a \<Rightarrow> ('q, 'r, 'b) prog) \<Rightarrow> ('q, 'r, 'b) prog" where
  "bind (Ret a) f = f a"
| "bind (Call q k) f = Call q (\<lambda>r. bind (k r) f)"

text \<open>What is left of a program after a partial trace; \<open>None\<close> if the trace is not one of its own.\<close>

fun after :: "('q, 'r, 'a) prog \<Rightarrow> ('q, 'r) trace \<Rightarrow> ('q, 'r, 'a) prog option" where
  "after p [] = Some p"
| "after (Ret a) (e # tr) = None"
| "after (Call q k) ((q', r) # tr) = (if q' = q then after (k r) tr else None)"

text \<open>The result of a program whose complete sequence of external calls and answers is \<open>tr\<close>.\<close>

fun replay :: "('q, 'r, 'a) prog \<Rightarrow> ('q, 'r) trace \<Rightarrow> 'a option" where
  "replay (Ret a) tr = (if tr = [] then Some a else None)"
| "replay (Call q k) [] = None"
| "replay (Call q k) ((q', r) # tr) = (if q' = q then replay (k r) tr else None)"

declare replay.simps [simp del]

lemma replay_Ret [trace_simps]: "replay (Ret a) tr = Some x \<longleftrightarrow> tr = [] \<and> x = a"
  by (auto simp: replay.simps)

lemma replay_Call [trace_simps]:
  "replay (Call q k) tr = Some x \<longleftrightarrow> (\<exists>r tr'. tr = (q, r) # tr' \<and> replay (k r) tr' = Some x)"
  by (cases "(Call q k, tr)" rule: replay.cases) (auto simp: replay.simps)

lemma replay_bind [trace_simps]:
  "replay (bind p f) tr = Some x \<longleftrightarrow>
     (\<exists>tr1 tr2 y. tr = tr1 @ tr2 \<and> replay p tr1 = Some y \<and> replay (f y) tr2 = Some x)"
proof (induction p arbitrary: tr)
  case (Ret a)
  then show ?case by (auto simp: trace_simps)
next
  case (Call q k)
  show ?case
    by (auto simp: replay_Call Call.IH Cons_eq_append_conv) blast+
qed

lemma replay_bind_append:
  "replay p tr1 = Some x \<Longrightarrow> replay (bind p f) (tr1 @ tr2) = replay (f x) tr2"
proof (induction p arbitrary: tr1)
  case (Ret a)
  then show ?case by (simp add: replay_Ret)
next
  case (Call q k)
  then show ?case by (auto simp: replay_Call replay.simps)
qed

text \<open>Branches of a program, in the form that leaves one existential case per branch.\<close>

lemma replay_case_sum [trace_simps]:
  "replay (case_sum f g x) tr = Some y \<longleftrightarrow>
     (\<exists>a. x = Inl a \<and> replay (f a) tr = Some y) \<or> (\<exists>b. x = Inr b \<and> replay (g b) tr = Some y)"
  by (cases x) auto

lemma replay_case_option [trace_simps]:
  "replay (case_option p g x) tr = Some y \<longleftrightarrow>
     (x = None \<and> replay p tr = Some y) \<or> (\<exists>b. x = Some b \<and> replay (g b) tr = Some y)"
  by (cases x) auto

lemma replay_case_prod [trace_simps]:
  "replay (case_prod f x) tr = Some y \<longleftrightarrow> (\<exists>a b. x = (a, b) \<and> replay (f a b) tr = Some y)"
  by (cases x) auto

lemma replay_if [trace_simps]:
  "replay (if b then p else q) tr = Some y \<longleftrightarrow>
     (b \<and> replay p tr = Some y) \<or> (\<not> b \<and> replay q tr = Some y)"
  by simp

lemma replay_Let [trace_simps]: "replay (Let x f) tr = Some y \<longleftrightarrow> replay (f x) tr = Some y"
  by simp

lemma replay_after: "replay p tr = Some x \<longleftrightarrow> after p tr = Some (Ret x)"
  by (induction p tr rule: after.induct) (auto simp: trace_simps replay.simps elim: replay.elims)

lemma after_append:
  "after p (tr1 @ tr2) = (case after p tr1 of None \<Rightarrow> None | Some p' \<Rightarrow> after p' tr2)"
  by (induction p tr1 rule: after.induct) auto

section \<open>Running a program against a responder\<close>

text \<open>
  A responder answers each request from its own state.  Every program returns against every
  responder (programs are finite trees), and the calls it makes form one of its traces.
\<close>

primrec drive :: "('s \<Rightarrow> 'q \<Rightarrow> 'r \<times> 's) \<Rightarrow> ('q, 'r, 'a) prog \<Rightarrow> 's \<Rightarrow> ('q, 'r) trace \<times> 'a \<times> 's" where
  "drive h (Ret a) s = ([], a, s)"
| "drive h (Call q k) s =
     (let (r, s') = h s q; (tr, a, s'') = drive h (k r) s' in ((q, r) # tr, a, s''))"

lemma drive_replay: "drive h p s = (tr, a, s') \<Longrightarrow> replay p tr = Some a"
proof (induction p arbitrary: s tr)
  case (Ret a)
  then show ?case by (simp add: trace_simps)
next
  case (Call q k)
  then show ?case by (auto simp: trace_simps split: prod.splits)
qed

lemma replay_total: "\<exists>tr a. replay p tr = Some a \<and> (\<forall>(q, r) \<in> set tr. r = answer q)"
proof (induction p)
  case (Ret a)
  then show ?case by (intro exI [of _ "[]"]) (simp add: trace_simps)
next
  case (Call q k)
  obtain tr a where "replay (k (answer q)) tr = Some a" "\<forall>(q, r) \<in> set tr. r = answer q"
    using Call.IH by blast
  then show ?case by (intro exI [of _ "(q, answer q) # tr"]) (auto simp: trace_simps)
qed

section \<open>Facts about the events of a trace\<close>

text \<open>The requests of a trace that satisfy a predicate, in order.\<close>

definition requests :: "('q \<Rightarrow> bool) \<Rightarrow> ('q, 'r) trace \<Rightarrow> 'q list" where
  "requests P tr = filter P (map fst tr)"

lemma requests_simps [simp]:
  "requests P [] = []"
  "requests P ((q, r) # tr) = (if P q then q # requests P tr else requests P tr)"
  "requests P (tr1 @ tr2) = requests P tr1 @ requests P tr2"
  by (simp_all add: requests_def)

text \<open>A program all of whose requests satisfy a predicate, whatever it is answered.\<close>

primrec only_calls :: "('q \<Rightarrow> bool) \<Rightarrow> ('q, 'r, 'a) prog \<Rightarrow> bool" where
  "only_calls P (Ret a) = True"
| "only_calls P (Call q k) = (P q \<and> (\<forall>r. only_calls P (k r)))"

lemma only_calls_bind [simp]:
  "only_calls P p \<Longrightarrow> (\<And>x. only_calls P (f x)) \<Longrightarrow> only_calls P (bind p f)"
  by (induction p) auto

lemma only_calls_replay:
  "only_calls P p \<Longrightarrow> replay p tr = Some x \<Longrightarrow> (q, r) \<in> set tr \<Longrightarrow> P q"
proof (induction p arbitrary: tr)
  case (Ret a)
  then show ?case by (auto simp: trace_simps)
next
  case (Call q' k)
  then show ?case by (fastforce simp: trace_simps)
qed

lemma only_calls_mono: "only_calls P p \<Longrightarrow> (\<And>q. P q \<Longrightarrow> Q q) \<Longrightarrow> only_calls Q p"
  by (induction p) auto

lemma only_calls_requests:
  "only_calls (\<lambda>q. \<not> P q) p \<Longrightarrow> replay p tr = Some x \<Longrightarrow> requests P tr = []"
  by (auto simp: requests_def filter_empty_conv dest: only_calls_replay)

text \<open>A trace whose last part is a complete run of a program with a given result.\<close>

definition ends_with :: "('q, 'r, 'a) prog \<Rightarrow> 'a \<Rightarrow> ('q, 'r) trace \<Rightarrow> bool" where
  "ends_with p x tr \<longleftrightarrow> (\<exists>pre seg. tr = pre @ seg \<and> replay p seg = Some x)"

lemma ends_withI: "replay p tr = Some x \<Longrightarrow> ends_with p x tr"
  unfolding ends_with_def by (metis append_Nil)

lemma ends_with_more [intro, simp]:
  "ends_with p x tr \<Longrightarrow> ends_with p x (e # tr)"
  "ends_with p x tr \<Longrightarrow> ends_with p x (tr' @ tr)"
  unfolding ends_with_def by (metis append_Cons, metis append_assoc)

text \<open>A trace whose first part makes only requests of one kind, before a part of another kind.\<close>

definition preceded :: "('q \<Rightarrow> bool) \<Rightarrow> (('q, 'r) trace \<Rightarrow> bool) \<Rightarrow> ('q, 'r) trace \<Rightarrow> bool" where
  "preceded P Q tr \<longleftrightarrow> (\<exists>tr1 tr2. tr = tr1 @ tr2 \<and> (\<forall>(q, a) \<in> set tr1. P q) \<and> Q tr2)"

lemma preceded_here: "Q tr \<Longrightarrow> preceded P Q tr"
  unfolding preceded_def by (intro exI [of _ "[]"] exI [of _ tr]) simp

lemma preceded_Cons: "P q \<Longrightarrow> preceded P Q tr \<Longrightarrow> preceded P Q ((q, a) # tr)"
  unfolding preceded_def by (metis (mono_tags, lifting) append_Cons case_prodI set_ConsD)

text \<open>
  A program each of whose requests is justified by the calls before it: \<open>W h q\<close> says that \<open>q\<close>
  may be issued after the history \<open>h\<close>.  This speaks of every call the program attempts, also in
  runs that are cut short.
\<close>

primrec guarded :: "(('q, 'r) trace \<Rightarrow> 'q \<Rightarrow> bool) \<Rightarrow> ('q, 'r, 'a) prog \<Rightarrow> ('q, 'r) trace \<Rightarrow> bool" where
  "guarded W (Ret a) h = True"
| "guarded W (Call q k) h = (W h q \<and> (\<forall>r. guarded W (k r) (h @ [(q, r)])))"

lemma guarded_bind:
  "guarded W p h \<Longrightarrow> (\<And>x tr. replay p tr = Some x \<Longrightarrow> guarded W (f x) (h @ tr)) \<Longrightarrow> guarded W (bind p f) h"
proof (induction p arbitrary: h)
  case (Ret a)
  then show ?case using Ret.prems(2) [of "[]" a] by (simp add: replay_Ret)
next
  case (Call q k)
  have "guarded W (bind (k r) f) (h @ [(q, r)])" for r
  proof (rule Call.IH)
    show "guarded W (k r) (h @ [(q, r)])" using Call.prems(1) by simp
    show "guarded W (f x) ((h @ [(q, r)]) @ tr)" if "replay (k r) tr = Some x" for x tr
      using Call.prems(2) [of "(q, r) # tr" x] that by (simp add: replay_Call)
  qed simp
  then show ?case using Call.prems(1) by simp
qed

lemma guarded_after:
  "guarded W p h \<Longrightarrow> after p (tr1 @ (q, a) # tr2) \<noteq> None \<Longrightarrow> W (h @ tr1) q"
proof (induction p tr1 arbitrary: h rule: after.induct)
  case (1 p)
  then show ?case by (cases p) (auto split: if_splits)
next
  case (3 q' k q'' r tr)
  then show ?case using "3.IH" [of "h @ [(q', r)]"] by (auto split: if_splits)
qed simp

lemma guarded_only:
  "only_calls P p \<Longrightarrow> (\<And>h' q. set h \<subseteq> set h' \<Longrightarrow> P q \<Longrightarrow> W h' q) \<Longrightarrow> guarded W p h"
proof (induction p arbitrary: h)
  case (Call q k)
  have "guarded W (k r) (h @ [(q, r)])" for r
    by (rule Call.IH) (use Call.prems in auto)
  then show ?case using Call.prems by simp
qed simp

end
