(* ===== verification/Errors.thy ===== *)
theory Errors
  imports Prelude
begin

text \<open>
  Error values and their classification: \<open>src/tnats/error.go\<close>.

  A Go error is a tree.  Its leaves are errors of other packages, described by what the transport
  can observe of them: the sentinel errors they match under \<open>errors.Is\<close> (by identity or by
  their own \<open>Is\<close> method), whether they implement the two \<open>JetStreamError\<close> interfaces and the
  status code of their \<open>APIError\<close> (which may be nil), and the delay of their
  \<open>RetryAfter\<close> method.  Inner nodes are application errors of the kernel (a kind, a message and
  the wrapped causes), \<open>fmt.Errorf\<close> with a wrapping verb, and \<open>errors.Join\<close>.
  \<open>None\<close> of type \<open>goerror option\<close> is Go's nil error.
\<close>

section \<open>Error values\<close>

datatype kind =
    KindBadRequest | KindUnauthorized | KindForbidden | KindNotFound | KindConflict
  | KindTooManyRequests | KindTimeout | KindCanceled | KindUnavailable | KindInternal

text \<open>The sentinel errors the source compares with, by package.\<close>

datatype sentinel =
    ContextErr string  \<comment> \<open>package \<open>context\<close>\<close>
  | IoErr string       \<comment> \<open>package \<open>io\<close>\<close>
  | NatsErr string     \<comment> \<open>package \<open>nats\<close>, the legacy client\<close>
  | JsErr string       \<comment> \<open>package \<open>jetstream\<close>, the current client\<close>

record lib_error =
  le_text :: string
  le_is :: "sentinel list"
  le_legacy_api :: "int option option"
  le_modern_api :: "int option option"
  le_retry_after :: "duration option"

datatype goerror =
    Lib lib_error
  | App kind string "duration option" "goerror list"
  | Wrapf string goerror
  | Join "goerror list"

definition sentinel_error :: "sentinel \<Rightarrow> goerror" where
  "sentinel_error s = Lib \<lparr>le_text = [], le_is = [s], le_legacy_api = None,
     le_modern_api = None, le_retry_after = None\<rparr>"

definition plain_error :: "string \<Rightarrow> goerror" where
  "plain_error txt = Lib \<lparr>le_text = txt, le_is = [], le_legacy_api = None,
     le_modern_api = None, le_retry_after = None\<rparr>"

text \<open>The constructors of the kernel's error package: a message and any number of causes.\<close>

abbreviation app :: "kind \<Rightarrow> string \<Rightarrow> goerror list \<Rightarrow> goerror" where
  "app k msg causes \<equiv> App k msg None causes"

section \<open>Standard library: \<open>errors.Is\<close>, \<open>errors.AsType\<close>\<close>

fun errors_Is :: "goerror \<Rightarrow> sentinel \<Rightarrow> bool" where
  "errors_Is (Lib l) s = (s \<in> set (le_is l))"
| "errors_Is (App k m r causes) s = list_ex (\<lambda>e. errors_Is e s) causes"
| "errors_Is (Wrapf m e) s = errors_Is e s"
| "errors_Is (Join es) s = list_ex (\<lambda>e. errors_Is e s) es"

text \<open>The first node, depth first, on which a partial reading is defined (\<open>errors.As\<close>).\<close>

fun errors_As :: "(goerror \<Rightarrow> 'a option) \<Rightarrow> goerror \<Rightarrow> 'a option"
  and errors_As_list :: "(goerror \<Rightarrow> 'a option) \<Rightarrow> goerror list \<Rightarrow> 'a option" where
  "errors_As f e =
     (case f e of Some x \<Rightarrow> Some x
      | None \<Rightarrow> (case e of Lib l \<Rightarrow> None
          | App k m r causes \<Rightarrow> errors_As_list f causes
          | Wrapf m e' \<Rightarrow> errors_As f e'
          | Join es \<Rightarrow> errors_As_list f es))"
| "errors_As_list f [] = None"
| "errors_As_list f (e # es) =
     (case errors_As f e of Some x \<Rightarrow> Some x | None \<Rightarrow> errors_As_list f es)"

fun as_AppError :: "goerror \<Rightarrow> goerror option" where
  "as_AppError (App k m r causes) = Some (App k m r causes)"
| "as_AppError _ = None"

fun as_legacy_api :: "goerror \<Rightarrow> int option option" where
  "as_legacy_api (Lib l) = le_legacy_api l"
| "as_legacy_api _ = None"

fun as_modern_api :: "goerror \<Rightarrow> int option option" where
  "as_modern_api (Lib l) = le_modern_api l"
| "as_modern_api _ = None"

fun as_RetryAfter :: "goerror \<Rightarrow> duration option" where
  "as_RetryAfter (Lib l) = le_retry_after l"
| "as_RetryAfter (App k m r causes) = r"
| "as_RetryAfter _ = None"

section \<open>\<open>MapError\<close>\<close>

text \<open>The cases of the switch of \<open>MapError\<close>, in order, with the error each one builds.\<close>

definition mapErrorCases :: "(sentinel list \<times> kind \<times> string) list" where
  "mapErrorCases = [
    ([ContextErr ''Canceled''],
      KindCanceled, ''nats: operation canceled''),
    ([ContextErr ''DeadlineExceeded'', NatsErr ''ErrTimeout'', NatsErr ''ErrDrainTimeout'',
      NatsErr ''ErrAsyncPublishTimeout'', NatsErr ''ErrNoHeartbeat''],
      KindTimeout, ''nats: operation timed out''),
    ([NatsErr ''ErrNoResponders''],
      KindUnavailable, ''nats: no responder is subscribed to the request subject''),
    ([NatsErr ''ErrNoStreamResponse'', NatsErr ''ErrFetchDisconnected'',
      NatsErr ''ErrConnectionClosed'', NatsErr ''ErrConnectionDraining'',
      NatsErr ''ErrConnectionReconnecting'', NatsErr ''ErrDisconnected'',
      NatsErr ''ErrStaleConnection'', NatsErr ''ErrNoServers'',
      NatsErr ''ErrReconnectBufExceeded'', NatsErr ''ErrHeadersNotSupported'',
      NatsErr ''ErrConsumerDeleted'', NatsErr ''ErrConsumerLeadershipChanged'',
      NatsErr ''ErrSubscriptionClosed'', NatsErr ''ErrJetStreamPublisherClosed'',
      NatsErr ''ErrConsumerMultipleFilterSubjectsNotSupported'',
      JsErr ''ErrJetStreamNotEnabled'', JsErr ''ErrJetStreamNotEnabledForAccount'',
      JsErr ''ErrConsumerMultipleFilterSubjectsNotSupported''],
      KindUnavailable, ''nats: service or required server capability is unavailable''),
    ([NatsErr ''ErrAuthorization'', NatsErr ''ErrAuthExpired'',
      NatsErr ''ErrAuthRevoked'', NatsErr ''ErrAccountAuthExpired''],
      KindUnauthorized, ''nats: authentication failed''),
    ([NatsErr ''ErrPermissionViolation''],
      KindForbidden, ''nats: permission denied''),
    ([NatsErr ''ErrMaxConnectionsExceeded'', NatsErr ''ErrMaxAccountConnectionsExceeded'',
      NatsErr ''ErrMaxSubscriptionsExceeded'', NatsErr ''ErrSlowConsumer'',
      JsErr ''ErrTooManyStalledMsgs''],
      KindTooManyRequests, ''nats: server or client resource limit reached''),
    ([NatsErr ''ErrStreamNotFound'', NatsErr ''ErrConsumerNotFound'',
      NatsErr ''ErrMsgNotFound'', NatsErr ''ErrNoMatchingStream'',
      NatsErr ''ErrBucketNotFound'', NatsErr ''ErrKeyNotFound'',
      NatsErr ''ErrObjectNotFound'', JsErr ''ErrStreamNotFound'',
      JsErr ''ErrConsumerNotFound'', JsErr ''ErrMsgNotFound'',
      JsErr ''ErrBucketNotFound'', JsErr ''ErrKeyNotFound'',
      JsErr ''ErrKeyDeleted'', JsErr ''ErrNoKeysFound'',
      JsErr ''ErrObjectNotFound'', JsErr ''ErrNoObjectsFound''],
      KindNotFound, ''nats: requested stream, consumer, key, or object was not found''),
    ([NatsErr ''ErrStreamNameAlreadyInUse'', NatsErr ''ErrConsumerNameAlreadyInUse'',
      NatsErr ''ErrMsgAlreadyAckd'', NatsErr ''ErrKeyExists'',
      NatsErr ''ErrKeyRevisionMismatch'', JsErr ''ErrStreamNameAlreadyInUse'',
      JsErr ''ErrConsumerExists'', JsErr ''ErrKeyExists'',
      JsErr ''ErrKeyRevisionMismatch'', JsErr ''ErrBucketExists''],
      KindConflict, ''nats: resource already exists or its revision changed''),
    ([NatsErr ''ErrMaxPayload'', NatsErr ''ErrBadSubject'',
      NatsErr ''ErrBadQueueName'', NatsErr ''ErrInvalidArg'',
      NatsErr ''ErrInvalidMsg'', NatsErr ''ErrBadTimeout'',
      NatsErr ''ErrInvalidContext'', NatsErr ''ErrNoDeadlineContext'',
      NatsErr ''ErrBadHeaderMsg'', NatsErr ''ErrMsgNoReply'',
      NatsErr ''ErrMsgNotBound'', NatsErr ''ErrContextAndTimeout'',
      NatsErr ''ErrInvalidStreamName'', NatsErr ''ErrInvalidConsumerName'',
      NatsErr ''ErrInvalidFilterSubject'', NatsErr ''ErrSubjectMismatch'',
      NatsErr ''ErrStreamConfigRequired'', NatsErr ''ErrStreamNameRequired'',
      NatsErr ''ErrConsumerNameRequired'', NatsErr ''ErrConsumerConfigRequired'',
      JsErr ''ErrInvalidBucketName'', JsErr ''ErrInvalidKey'',
      JsErr ''ErrBadBucket'', JsErr ''ErrBadObjectMeta'',
      JsErr ''ErrInvalidStoreName'', JsErr ''ErrObjectConfigRequired''],
      KindBadRequest, ''nats: invalid request or resource configuration'')]"

definition mapAPIStatus :: "goerror \<Rightarrow> int \<Rightarrow> goerror option" where
  "mapAPIStatus err status =
    (if status = 400 then Some (app KindBadRequest ''nats: JetStream rejected the request'' [err])
     else if status = 401 then Some (app KindUnauthorized ''nats: JetStream authentication failed'' [err])
     else if status = 403 then Some (app KindForbidden ''nats: JetStream permission denied'' [err])
     else if status = 404 then Some (app KindNotFound ''nats: JetStream resource was not found'' [err])
     else if status = 408 \<or> status = 504 then Some (app KindTimeout ''nats: JetStream request timed out'' [err])
     else if status = 409 then Some (app KindConflict ''nats: JetStream resource conflict'' [err])
     else if status = 429 then Some (app KindTooManyRequests ''nats: JetStream resource limit reached'' [err])
     else if status = 503 then Some (app KindUnavailable ''nats: JetStream is unavailable'' [err])
     else None)"

definition mapJetStreamAPIError :: "goerror \<Rightarrow> goerror option" where
  "mapJetStreamAPIError err =
    (case errors_As as_legacy_api err of
       Some (Some code) \<Rightarrow> mapAPIStatus err code
     | _ \<Rightarrow> (case errors_As as_modern_api err of
           Some (Some code) \<Rightarrow> mapAPIStatus err code
         | _ \<Rightarrow> None))"

definition classify :: "goerror \<Rightarrow> (sentinel list \<times> kind \<times> string) option" where
  "classify err = find (\<lambda>(ss, _). list_ex (errors_Is err) ss) mapErrorCases"

text \<open>\<open>MapErr\<close> is \<open>MapError\<close> on an error that is not nil.\<close>

definition MapErr :: "goerror \<Rightarrow> goerror" where
  "MapErr err =
    (case errors_As as_AppError err of
       Some appErr \<Rightarrow> appErr
     | None \<Rightarrow> (case classify err of
         Some (_, k, msg) \<Rightarrow> app k msg [err]
       | None \<Rightarrow> (case mapJetStreamAPIError err of
           Some mapped \<Rightarrow> mapped
         | None \<Rightarrow> app KindInternal ''nats: transport error'' [err])))"

definition MapError :: "goerror option \<Rightarrow> goerror option" where
  "MapError err = map_option MapErr err"

definition retryAfter :: "goerror \<Rightarrow> duration" where
  "retryAfter err = (case errors_As as_RetryAfter err of Some d \<Rightarrow> d | None \<Rightarrow> 0)"

section \<open>Properties\<close>

declare errors_As.simps [simp del]

lemma errors_As_hit: "f e = Some x \<Longrightarrow> errors_As f e = Some x"
  by (simp add: errors_As.simps)

lemma errors_As_Some:
  "errors_As f e = Some x \<Longrightarrow> \<exists>e'. f e' = Some x"
  "errors_As_list f es = Some x \<Longrightarrow> \<exists>e'. f e' = Some x"
proof (induction f e and f es rule: errors_As_errors_As_list.induct)
  case (1 f e)
  then show ?case
    by (cases e) (auto simp: errors_As.simps split: option.splits)
next
  case (2 f)
  then show ?case by simp
next
  case (3 f e es)
  then show ?case by (auto split: option.splits)
qed

lemma errors_As_AppError_is_App:
  "errors_As as_AppError e = Some a \<Longrightarrow> \<exists>k m r cs. a = App k m r cs"
  by (auto dest!: errors_As_Some(1) elim: as_AppError.elims)

lemma mapAPIStatus_app: "mapAPIStatus e c = Some a \<Longrightarrow> \<exists>k m. a = app k m [e]"
  by (auto simp: mapAPIStatus_def split: if_splits)

lemma mapJetStreamAPIError_app: "mapJetStreamAPIError e = Some a \<Longrightarrow> \<exists>k m. a = app k m [e]"
  by (auto simp: mapJetStreamAPIError_def dest: mapAPIStatus_app split: option.splits)

text \<open>An error with no application error in its tree is wrapped whole; any other yields the first one.\<close>

lemma MapErr_wrapped: "errors_As as_AppError e = None \<Longrightarrow> \<exists>k m. MapErr e = app k m [e]"
  by (auto simp: MapErr_def dest!: mapJetStreamAPIError_app split: option.split prod.split)

lemma MapErr_cases:
  obtains (Kept) a where "errors_As as_AppError e = Some a" "MapErr e = a"
  | (Wrapped) k m where "errors_As as_AppError e = None" "MapErr e = app k m [e]"
  using MapErr_wrapped [of e] by (cases "errors_As as_AppError e") (auto simp: MapErr_def)

lemma MapErr_is_App: "\<exists>k m r cs. MapErr e = App k m r cs"
  by (cases e rule: MapErr_cases) (auto dest: errors_As_AppError_is_App)

lemma errors_As_wrapped:
  "f (App k m r [e]) = None \<Longrightarrow> errors_As f (App k m r [e]) = errors_As f e"
  by (simp add: errors_As.simps [of f "App k m r [e]"] split: option.splits)

definition error_kind :: "goerror \<Rightarrow> kind" where
  "error_kind e = (case e of App k m r cs \<Rightarrow> k | _ \<Rightarrow> KindInternal)"

text \<open>What is found in the first application error of a tree is found in the tree.\<close>

lemma errors_Is_first:
  "(f :: goerror \<Rightarrow> goerror option) = as_AppError \<Longrightarrow> errors_As f e = Some a \<Longrightarrow>
     errors_Is a s \<Longrightarrow> errors_Is e s"
  "(f :: goerror \<Rightarrow> goerror option) = as_AppError \<Longrightarrow> errors_As_list f es = Some a \<Longrightarrow>
     errors_Is a s \<Longrightarrow> list_ex (\<lambda>e. errors_Is e s) es"
proof (induction f e and f es rule: errors_As_errors_As_list.induct)
  case (1 f e)
  then show ?case by (cases e) (auto simp: errors_As.simps)
next
  case (2 f)
  then show ?case by simp
next
  case (3 f e es)
  then show ?case by (auto split: option.splits)
qed

lemma MapErr_App [simp]: "MapErr (App k m r cs) = App k m r cs"
  by (simp add: MapErr_def errors_As_hit)

lemma MapErr_classified:
  "errors_As as_AppError e = None \<Longrightarrow> classify e = Some (ss, k, m) \<Longrightarrow> MapErr e = app k m [e]"
  by (simp add: MapErr_def)

text \<open>The end of a context is recognised before every other cause.\<close>

lemma classify_context:
  "errors_Is e (ContextErr ''Canceled'') \<Longrightarrow> \<exists>ss m. classify e = Some (ss, KindCanceled, m)"
  "\<not> errors_Is e (ContextErr ''Canceled'') \<Longrightarrow> errors_Is e (ContextErr ''DeadlineExceeded'') \<Longrightarrow>
     \<exists>ss m. classify e = Some (ss, KindTimeout, m)"
  by (simp_all add: classify_def mapErrorCases_def)

lemma MapErr_context:
  assumes "errors_As as_AppError e = None"
  shows "errors_Is e (ContextErr ''Canceled'') \<Longrightarrow> error_kind (MapErr e) = KindCanceled"
    and "\<not> errors_Is e (ContextErr ''Canceled'') \<Longrightarrow> errors_Is e (ContextErr ''DeadlineExceeded'') \<Longrightarrow>
      error_kind (MapErr e) = KindTimeout"
  using classify_context [of e] MapErr_classified [OF assms] by (auto simp: error_kind_def)

lemma MapErr_keeps_cause:
  assumes "errors_As as_AppError e = None"
  shows "errors_Is (MapErr e) s \<longleftrightarrow> errors_Is e s" and "retryAfter (MapErr e) = retryAfter e"
  using MapErr_wrapped [OF assms] by (auto simp: retryAfter_def errors_As_wrapped)


definition sampleLateError :: goerror where
  "sampleLateError = Join [sentinel_error (NatsErr ''ErrPermissionViolation''),
     Wrapf ''upstream'' (Lib \<lparr>le_text = [], le_is = [ContextErr ''DeadlineExceeded''],
       le_legacy_api = Some (Some 404), le_modern_api = None, le_retry_after = Some 5\<rparr>)]"


end
