(* ===== verification/Subjects.thy ===== *)
theory Subjects
  imports Prelude
begin

text \<open>
  Wildcard matching of subjects and object names: \<open>subjectPatternCovers\<close> of
  \<open>src/tnats/tnats_stream.go\<close> and \<open>objectNameMatches\<close> of \<open>src/tnats/objectstore.go\<close>.
  Both walk two strings by index, one dot-separated token at a time.  They are modelled with the
  same indices, and proved equal to a matcher on token lists; the token matcher of subject
  patterns is compared with the set of subjects a pattern stands for.
\<close>

section \<open>The index loops of the source\<close>

abbreviation dot :: char where "dot \<equiv> CHR ''.''"

text \<open>The inner loops: advance to the next dot or to the end.\<close>

function scanDot :: "string \<Rightarrow> nat \<Rightarrow> nat" where
  "scanDot s i = (if i < length s \<and> s ! i \<noteq> dot then scanDot s (Suc i) else i)"
  by pat_completeness auto
termination by (relation "measure (\<lambda>(s, i). length s - i)") auto

declare scanDot.simps [simp del]

definition slice :: "string \<Rightarrow> nat \<Rightarrow> nat \<Rightarrow> string" where
  "slice s i j = take (j - i) (drop i s)"

lemma scanDot_ge: "i \<le> scanDot s i"
  by (induction s i rule: scanDot.induct) (subst scanDot.simps, force)

lemma scanDot_le: "i \<le> length s \<Longrightarrow> scanDot s i \<le> length s"
  by (induction s i rule: scanDot.induct) (subst scanDot.simps, force)

text \<open>
  The outer loop of \<open>subjectPatternCovers\<close>.  An end index never exceeds the length of its string
  (\<open>scanDot_le\<close>), so the comparisons of the source with the length are written with \<open>\<le>\<close>.
\<close>

function coversFrom :: "string \<Rightarrow> string \<Rightarrow> nat \<Rightarrow> nat \<Rightarrow> bool" where
  "coversFrom pattern subject patternStart subjectStart =
    (let patternEnd = scanDot pattern patternStart;
         subjectEnd = scanDot subject subjectStart;
         patternToken = slice pattern patternStart patternEnd
     in if patternToken = ''>'' then subjectStart < length subject
        else if subjectStart \<ge> length subject \<or>
                (patternToken \<noteq> ''*'' \<and> patternToken \<noteq> slice subject subjectStart subjectEnd)
        then False
        else if length pattern \<le> patternEnd \<or> length subject \<le> subjectEnd
        then length pattern \<le> patternEnd \<and> length subject \<le> subjectEnd
        else coversFrom pattern subject (patternEnd + 1) (subjectEnd + 1))"
  by pat_completeness auto
termination
proof (relation "measure (\<lambda>(p, s, i, j). length s - j)", simp)
  fix pattern subject :: string and i j :: nat and x xa xb
  assume "\<not> (length subject \<le> j \<or> xb \<noteq> ''*'' \<and> xb \<noteq> slice subject j xa)" and "xa = scanDot subject j"
  then show "((pattern, subject, x + 1, xa + 1), pattern, subject, i, j)
      \<in> measure (\<lambda>(p, s, i, j). length s - j)"
    using scanDot_ge [of j subject] by auto
qed

definition subjectPatternCovers :: "string \<Rightarrow> string \<Rightarrow> bool" where
  "subjectPatternCovers pattern subject =
     (if pattern = subject then True else coversFrom pattern subject 0 0)"

text \<open>The outer loop of \<open>objectNameMatches\<close>.\<close>

function nameMatchesFrom :: "string \<Rightarrow> string \<Rightarrow> nat \<Rightarrow> nat \<Rightarrow> bool" where
  "nameMatchesFrom name pattern nIdx pIdx =
    (if pIdx < length pattern then
       (let pEnd = scanDot pattern pIdx;
            pToken = slice pattern pIdx pEnd
        in if pToken = ''>'' then nIdx < length name
           else if nIdx \<ge> length name then False
           else
             (let nEnd = scanDot name nIdx;
                  nToken = slice name nIdx nEnd
              in if pToken \<noteq> ''*'' \<and> pToken \<noteq> nToken then False
                 else nameMatchesFrom name pattern
                   (if nEnd < length name then nEnd + 1 else length name)
                   (if pEnd < length pattern then pEnd + 1 else length pattern)))
     else nIdx = length name \<and> pIdx = length pattern)"
  by pat_completeness auto
termination
proof (relation "measure (\<lambda>(n, p, i, j). length p - j)", simp)
  fix name pattern :: string and i j :: nat and x xa xb xc
  assume "j < length pattern" and "x = scanDot pattern j"
  then show "((name, pattern, if xb < length name then xb + 1 else length name,
        if x < length pattern then x + 1 else length pattern), name, pattern, i, j)
      \<in> measure (\<lambda>(n, p, i, j). length p - j)"
    using scanDot_ge [of j pattern] by auto
qed

declare coversFrom.simps [simp del] nameMatchesFrom.simps [simp del]

definition objectNameMatches :: "string \<Rightarrow> string \<Rightarrow> bool" where
  "objectNameMatches name pattern =
     (if pattern = '''' \<or> pattern = ''>'' then True else nameMatchesFrom name pattern 0 0)"

section \<open>Tokens\<close>

abbreviation undotted :: "char \<Rightarrow> bool" where "undotted c \<equiv> c \<noteq> dot"

lemma dropWhile_rest_shorter: "dropWhile P s = c # rest \<Longrightarrow> length rest < length s"
  by (metis Suc_le_lessD length_Cons length_dropWhile_le)

text \<open>\<open>strings.Split(s, ".")\<close>, and the variant that ends with the last character.\<close>

function toks :: "string \<Rightarrow> string list" where
  "toks s = takeWhile undotted s #
     (case dropWhile undotted s of [] \<Rightarrow> [] | c # rest \<Rightarrow> toks rest)"
  by pat_completeness auto
termination
  by (relation "measure length") (auto dest: dropWhile_rest_shorter)

function segs :: "string \<Rightarrow> string list" where
  "segs s = (if s = [] then [] else takeWhile undotted s #
     (case dropWhile undotted s of [] \<Rightarrow> [] | c # rest \<Rightarrow> segs rest))"
  by pat_completeness auto
termination
  by (relation "measure length") (auto dest: dropWhile_rest_shorter)

declare toks.simps [simp del] segs.simps [simp del]

lemma scanDot_takeWhile:
  "i \<le> length s \<Longrightarrow> scanDot s i = i + length (takeWhile undotted (drop i s))"
proof (induction s i rule: scanDot.induct)
  case (1 s i)
  show ?case
  proof (cases "i < length s")
    case True
    then have "drop i s = s ! i # drop (Suc i) s" by (simp add: Cons_nth_drop_Suc)
    with True 1 show ?thesis by (subst scanDot.simps) auto
  next
    case False
    with 1 show ?thesis by (subst scanDot.simps) auto
  qed
qed

lemma slice_scanDot: "i \<le> length s \<Longrightarrow> slice s i (scanDot s i) = takeWhile undotted (drop i s)"
  by (simp add: slice_def scanDot_takeWhile takeWhile_eq_take [symmetric])

lemma drop_scanDot: "i \<le> length s \<Longrightarrow> drop (scanDot s i) s = dropWhile undotted (drop i s)"
  by (simp add: scanDot_takeWhile dropWhile_eq_drop add.commute)

lemma scanDot_end_iff:
  "i \<le> length s \<Longrightarrow> length s \<le> scanDot s i \<longleftrightarrow> dropWhile undotted (drop i s) = []"
  by (metis drop_eq_Nil drop_scanDot)

lemma drop_past_scanDot:
  "i \<le> length s \<Longrightarrow> drop (scanDot s i + 1) s = tl (dropWhile undotted (drop i s))"
  by (metis Suc_eq_plus1 drop_Suc drop_scanDot tl_drop)

section \<open>Reference matchers\<close>

text \<open>The walk of \<open>subjectPatternCovers\<close> on token lists.\<close>

fun covers_toks :: "string list \<Rightarrow> string list \<Rightarrow> bool" where
  "covers_toks (p # ps) (t # ts) =
    (if p = ''>'' then \<not> (t = [] \<and> ts = [])
     else if t = [] \<and> ts = [] \<or> p \<noteq> ''*'' \<and> p \<noteq> t then False
     else if ps = [] \<or> ts = [] then ps = [] \<and> ts = []
     else covers_toks ps ts)"
| "covers_toks _ _ = False"

text \<open>
  NATS wildcard matching on tokens: \<open>*\<close> stands for one token, \<open>>\<close> for one or more.
\<close>

fun wild_match :: "string list \<Rightarrow> string list \<Rightarrow> bool" where
  "wild_match [] ts = (ts = [])"
| "wild_match (p # ps) ts =
    (if p = ''>'' then ts \<noteq> []
     else (case ts of [] \<Rightarrow> False | t # ts' \<Rightarrow> (p = ''*'' \<or> p = t) \<and> wild_match ps ts'))"

lemma toks_neq_Nil [simp]: "toks s \<noteq> []"
  by (subst toks.simps) simp

text \<open>One token, read off by index.\<close>

lemma toks_step:
  assumes "i \<le> length s"
  shows "toks (drop i s) = slice s i (scanDot s i) #
     (if length s \<le> scanDot s i then [] else toks (drop (scanDot s i + 1) s))"
proof (cases "dropWhile undotted (drop i s)")
  case Nil
  with assms show ?thesis
    by (subst toks.simps) (simp add: slice_scanDot scanDot_end_iff del: dropWhile_eq_Nil_conv)
next
  case (Cons c rest)
  with assms have "\<not> length s \<le> scanDot s i" by (simp add: scanDot_end_iff)
  moreover from Cons assms have "drop (scanDot s i + 1) s = rest"
    by (simp only: drop_past_scanDot) simp
  ultimately show ?thesis
    using Cons assms by (subst toks.simps) (simp add: slice_scanDot)
qed

lemma token_empty_end:
  "j \<le> length s \<Longrightarrow> slice s j (scanDot s j) = [] \<and> length s \<le> scanDot s j \<longleftrightarrow> length s \<le> j"
  using scanDot_ge [of j s] scanDot_takeWhile [of j s] by (auto simp: slice_def)

lemma scanDot_next: "\<not> length s \<le> scanDot s i \<Longrightarrow> scanDot s i + 1 \<le> length s"
  by simp

lemma coversFrom_toks:
  "i \<le> length p \<Longrightarrow> j \<le> length s \<Longrightarrow>
     coversFrom p s i j = covers_toks (toks (drop i p)) (toks (drop j s))"
proof (induction p s i j rule: coversFrom.induct)
  case (1 p s i j)
  note IH = "1.IH" [OF refl refl refl]
  show ?case
    unfolding coversFrom.simps [of p s i j] Let_def toks_step [OF "1.prems"(1)] toks_step [OF "1.prems"(2)]
    using token_empty_end [OF "1.prems"(2)] IH scanDot_next
    by (simp only: covers_toks.simps) (auto simp del: One_nat_def)
qed

lemma segs_empty [simp]: "segs [] = []"
  by (subst segs.simps) simp

lemma segs_step:
  assumes "i < length s"
  shows "segs (drop i s) = slice s i (scanDot s i) #
     segs (drop (if scanDot s i < length s then scanDot s i + 1 else length s) s)"
proof (cases "dropWhile undotted (drop i s)")
  case Nil
  with assms have "length s \<le> scanDot s i" by (simp add: scanDot_end_iff)
  with Nil assms show ?thesis
    by (subst segs.simps) (simp add: slice_scanDot del: dropWhile_eq_Nil_conv)
next
  case (Cons c rest)
  with assms have "\<not> length s \<le> scanDot s i" by (simp add: scanDot_end_iff)
  moreover from Cons assms have "drop (scanDot s i + 1) s = rest"
    by (simp only: drop_past_scanDot less_imp_le) simp
  ultimately show ?thesis
    using Cons assms by (subst segs.simps) (simp add: slice_scanDot)
qed

lemma segs_Nil_iff [simp]: "segs s = [] \<longleftrightarrow> s = []"
  by (subst segs.simps) simp

lemma nameMatchesFrom_segs:
  "i \<le> length n \<Longrightarrow> j \<le> length p \<Longrightarrow>
     nameMatchesFrom n p i j = wild_match (segs (drop j p)) (segs (drop i n))"
proof (induction n p i j rule: nameMatchesFrom.induct)
  case (1 n p i j)
  show ?case
  proof (cases "j < length p")
    case False
    with 1 show ?thesis by (subst nameMatchesFrom.simps) auto
  next
    case inp: True
    show ?thesis
    proof (cases "i < length n")
      case False
      with 1 inp show ?thesis
        by (subst nameMatchesFrom.simps) (simp add: Let_def segs_step)
    next
      case inn: True
      note IH = "1.IH" [OF inp refl refl _ _ refl refl]
      show ?thesis
        unfolding nameMatchesFrom.simps [of n p i j] Let_def segs_step [OF inp] segs_step [OF inn]
        using inp inn IH by auto
    qed
  qed
qed

lemma covers_toks_wild_match:
  "ps \<noteq> [] \<Longrightarrow> ts \<noteq> [] \<Longrightarrow> \<forall>t \<in> set ts. t \<noteq> [] \<Longrightarrow> covers_toks ps ts = wild_match ps ts"
proof (induction ps ts rule: covers_toks.induct)
  case (1 p ps t ts)
  then show ?case by (cases ps; cases ts) auto
qed auto

section \<open>What a pattern stands for\<close>

text \<open>A pattern NATS accepts, and a subject a message can be published on.\<close>

definition wf_pattern :: "string list \<Rightarrow> bool" where
  "wf_pattern ts \<longleftrightarrow> ts \<noteq> [] \<and> (\<forall>t \<in> set ts. t \<noteq> []) \<and> ''>'' \<notin> set (butlast ts)"

definition literal_subject :: "string list \<Rightarrow> bool" where
  "literal_subject xs \<longleftrightarrow> xs \<noteq> [] \<and> (\<forall>x \<in> set xs. x \<noteq> [] \<and> x \<noteq> ''*'' \<and> x \<noteq> ''>'')"

definition included :: "string list \<Rightarrow> string list \<Rightarrow> bool" where
  "included ts ps \<longleftrightarrow> (\<forall>xs. literal_subject xs \<longrightarrow> wild_match ts xs \<longrightarrow> wild_match ps xs)"

lemma wild_match_trans:
  "wild_match ps ts \<Longrightarrow> wild_match ts xs \<Longrightarrow> ''>'' \<notin> set (butlast ts) \<Longrightarrow>
     (''>'' \<in> set ts \<longrightarrow> ''>'' \<in> set ps) \<Longrightarrow> wild_match ps xs"
proof (induction ps arbitrary: ts xs)
  case Nil
  then show ?case by simp
next
  case (Cons p ps)
  then obtain t ts' where ts: "ts = t # ts'" by (cases ts) (auto split: if_splits)
  show ?case
  proof (cases "t = ''>''")
    case True
    with Cons.prems ts show ?thesis by (cases ts'; cases ps) (auto split: if_splits)
  next
    case False
    with Cons.prems(2) ts obtain x xs' where "xs = x # xs'" by (cases xs) auto
    with False Cons ts show ?thesis by (auto split: if_splits)
  qed
qed

definition instantiate :: "string \<Rightarrow> string list \<Rightarrow> string list" where
  "instantiate f ts = map (\<lambda>t. if t = ''*'' \<or> t = ''>'' then f else t) ts"

lemma wild_match_instantiate: "''>'' \<notin> set (butlast ts) \<Longrightarrow> wild_match ts (instantiate f ts)"
  by (induction ts) (auto simp: instantiate_def split: if_splits)

lemma wild_match_uninstantiate:
  "wild_match ps (instantiate f ts) \<Longrightarrow> f \<notin> set ps \<Longrightarrow> wild_match ps ts"
proof (induction ps arbitrary: ts)
  case Nil
  then show ?case by (simp add: instantiate_def)
next
  case (Cons p ps)
  then show ?case by (cases ts) (auto simp: instantiate_def split: if_splits)
qed

lemma literal_instantiate:
  "wf_pattern ts \<Longrightarrow> f \<noteq> [] \<Longrightarrow> f \<noteq> ''*'' \<Longrightarrow> f \<noteq> ''>'' \<Longrightarrow> literal_subject (instantiate f ts)"
  by (auto simp: literal_subject_def instantiate_def wf_pattern_def)

lemma fresh_token: "\<exists>f. f \<noteq> [] \<and> f \<noteq> ''*'' \<and> f \<noteq> ''>'' \<and> f \<notin> set (ps :: string list)"
proof -
  let ?f = "replicate (Suc (Suc (sum_list (map length ps)))) CHR ''x''"
  have "length p \<le> sum_list (map length ps)" if "p \<in> set ps" for p
    using that by (simp add: member_le_sum_list)
  then have "?f \<notin> set ps" by (metis Suc_n_not_le_n le_SucI length_replicate)
  then show ?thesis by (intro exI [of _ ?f]) auto
qed

lemma wild_match_iff_included:
  assumes "wf_pattern ts" and "''>'' \<in> set ts \<longrightarrow> ''>'' \<in> set ps"
  shows "wild_match ps ts \<longleftrightarrow> included ts ps"
proof
  show "wild_match ps ts \<Longrightarrow> included ts ps"
    using assms by (auto simp: included_def wf_pattern_def intro: wild_match_trans)
next
  assume inc: "included ts ps"
  obtain f where f: "f \<noteq> []" "f \<noteq> ''*''" "f \<noteq> ''>''" "f \<notin> set ps" using fresh_token by blast
  have "wild_match ts (instantiate f ts)"
    using assms(1) by (simp add: wf_pattern_def wild_match_instantiate)
  moreover have "literal_subject (instantiate f ts)"
    by (rule literal_instantiate [OF assms(1) f(1-3)])
  ultimately have "wild_match ps (instantiate f ts)"
    using inc unfolding included_def by blast
  then show "wild_match ps ts" using f(4) by (rule wild_match_uninstantiate)
qed

lemma wild_match_length: "''>'' \<notin> set ps \<Longrightarrow> wild_match ps xs \<Longrightarrow> length xs = length ps"
  by (induction ps arbitrary: xs) (auto split: list.splits)

lemma wild_match_longer:
  "''>'' \<in> set ts \<Longrightarrow> ''>'' \<notin> set (butlast ts) \<Longrightarrow> wild_match ts (instantiate f ts @ ys)"
  by (induction ts) (auto simp: instantiate_def split: if_splits)

lemma not_included_full:
  assumes "wf_pattern ts" and "''>'' \<in> set ts" and "''>'' \<notin> set ps"
  shows "\<not> included ts ps"
proof -
  let ?xs = "instantiate ''x'' ts @ replicate (length ps) ''x''"
  have "wild_match ts ?xs"
    using assms by (intro wild_match_longer) (auto simp: wf_pattern_def)
  moreover have "literal_subject ?xs"
    using literal_instantiate [OF assms(1), of "''x''"] by (simp add: literal_subject_def ball_Un)
  moreover have "ts \<noteq> []" using assms(1) by (simp add: wf_pattern_def)
  then have "\<not> wild_match ps ?xs"
    using wild_match_length [OF assms(3), of ?xs] by (auto simp: instantiate_def)
  ultimately show ?thesis unfolding included_def by blast
qed

lemma toks_append_dot: "toks (a @ dot # b) = toks a @ toks b"
proof (induction a rule: toks.induct)
  case (1 a)
  show ?case
  proof (cases "dropWhile undotted a")
    case Nil
    then have all: "\<forall>c \<in> set a. undotted c" by simp
    then have "toks (a @ dot # b) = a # toks b"
      by (subst toks.simps) (simp add: takeWhile_append2 dropWhile_append2)
    moreover have "toks a = [a]"
      using all Nil by (subst toks.simps) (simp add: takeWhile_eq_all_conv del: dropWhile_eq_Nil_conv)
    ultimately show ?thesis by simp
  next
    case (Cons c rest)
    have "c \<in> set a" using set_dropWhileD [of c undotted a] Cons by simp
    moreover have "c = dot" using hd_dropWhile [of undotted a] Cons by simp
    ultimately have "takeWhile undotted (a @ dot # b) = takeWhile undotted a"
      and "dropWhile undotted (a @ dot # b) = c # (rest @ dot # b)"
      using Cons by (simp_all add: takeWhile_append1 dropWhile_append1)
    then have "toks (a @ dot # b) = takeWhile undotted a # toks (rest @ dot # b)"
      by (subst toks.simps) simp
    moreover have "toks a = takeWhile undotted a # toks rest"
      using Cons by (subst toks.simps) simp
    ultimately show ?thesis using "1.IH" [OF Cons] by simp
  qed
qed

lemma covers_toks_star_full: "covers_toks (xs @ [''*'']) (xs @ [''>''])"
  by (induction xs) auto

text \<open>On well-formed subjects the walk is matching of the patterns' tokens, and with the proviso inclusion.\<close>

lemma covers_wild_match:
  "wf_pattern (toks subject) \<Longrightarrow> subjectPatternCovers pattern subject \<longleftrightarrow>
     pattern = subject \<or> wild_match (toks pattern) (toks subject)"
  by (simp add: subjectPatternCovers_def coversFrom_toks covers_toks_wild_match wf_pattern_def)

lemma covers_included:
  assumes "wf_pattern (toks subject)" and "''>'' \<in> set (toks subject) \<longrightarrow> ''>'' \<in> set (toks pattern)"
  shows "subjectPatternCovers pattern subject \<longleftrightarrow> included (toks subject) (toks pattern)"
  using covers_wild_match [OF assms(1)] wild_match_iff_included [OF assms] by (auto simp: included_def)

text \<open>The subjects a stream takes: every message published on the subject matches one of the stream's subjects.\<close>

definition stream_takes :: "string list \<Rightarrow> string \<Rightarrow> bool" where
  "stream_takes configured subject \<longleftrightarrow> (\<forall>xs. literal_subject xs \<and> wild_match (toks subject) xs \<longrightarrow>
     (\<exists>c \<in> set configured. wild_match (toks c) xs))"

text \<open>The exception: a full wildcard that one of the stream's subjects meets with a single-token one.\<close>

definition full_wildcard_gap :: "string list \<Rightarrow> string \<Rightarrow> bool" where
  "full_wildcard_gap configured subject \<longleftrightarrow> ''>'' \<in> set (toks subject) \<and>
     (\<exists>c \<in> set configured. ''>'' \<notin> set (toks c) \<and> wild_match (toks c) (toks subject))"

lemma stream_takes_listed: "subject \<in> set configured \<Longrightarrow> stream_takes configured subject"
  unfolding stream_takes_def by blast

lemma stream_takes_covered:
  assumes "c \<in> set configured" "subjectPatternCovers c subject" "wf_pattern (toks subject)"
  shows "stream_takes configured subject \<or> full_wildcard_gap configured subject"
proof (cases "''>'' \<in> set (toks subject) \<longrightarrow> ''>'' \<in> set (toks c)")
  case True
  then have "included (toks subject) (toks c)" using assms(2) covers_included [OF assms(3)] by blast
  then show ?thesis using assms(1) by (auto simp: stream_takes_def included_def)
next
  case False
  then have "c \<noteq> subject" by auto
  then show ?thesis using False assms(1,2) covers_wild_match [OF assms(3)] by (auto simp: full_wildcard_gap_def)
qed

section \<open>Properties\<close>

text \<open>
  C35: The allocation-free walk of \<open>subjectPatternCovers\<close> is the token walk over
  \<open>strings.Split\<close> of both arguments, for every pattern and subject.
\<close>

theorem subjectPatternCovers_toks:
  "subjectPatternCovers pattern subject \<longleftrightarrow>
     pattern = subject \<or> covers_toks (toks pattern) (toks subject)"
  by (simp add: subjectPatternCovers_def coversFrom_toks)

text \<open>
  C34: For well-formed patterns, where a full wildcard on the right is met by one on the left,
  \<open>subjectPatternCovers\<close> decides inclusion: it holds exactly when every publishable subject
  that matches the second argument matches the first.  So a stream whose configured subjects cover
  a binding's subject receives every message of that binding.
\<close>

theorem subjectPatternCovers_inclusion:
  assumes "wf_pattern (toks pattern)" and "wf_pattern (toks subject)"
    and "''>'' \<in> set (toks subject) \<longrightarrow> ''>'' \<in> set (toks pattern)"
  shows "subjectPatternCovers pattern subject \<longleftrightarrow> included (toks subject) (toks pattern)"
  using assms(2,3) by (rule covers_included)

theorem subjectPatternCovers_inclusion_witness:
  "included (toks ''events.created.*'') (toks ''events.>'') \<and>
   \<not> included (toks ''events.*'') (toks ''events.created'')"
  using subjectPatternCovers_inclusion [of "''events.>''" "''events.created.*''"]
    subjectPatternCovers_inclusion [of "''events.created''" "''events.*''"]
  by (simp add: wf_pattern_def toks.simps subjectPatternCovers_def coversFrom_toks)

text \<open>
  Without that proviso the test is unsound: whatever the prefix, a single-token wildcard is
  taken to cover the full wildcard, although subjects with more tokens match only the latter.
  \<open>ensureStream\<close> then leaves the stream's subjects unchanged.
\<close>

theorem subjectPatternCovers_full_wildcard:
  assumes "wf_pattern (toks (prefix @ ''.*''))"
  shows "subjectPatternCovers (prefix @ ''.*'') (prefix @ ''.>'') \<and>
    \<not> included (toks (prefix @ ''.>'')) (toks (prefix @ ''.*''))"
proof
  have toks: "toks (prefix @ ''.*'') = toks prefix @ [''*'']" "toks (prefix @ ''.>'') = toks prefix @ [''>'']"
    by (simp_all add: toks_append_dot toks.simps [of "''*''"] toks.simps [of "''>''"])
  then show "subjectPatternCovers (prefix @ ''.*'') (prefix @ ''.>'')"
    by (simp add: subjectPatternCovers_def coversFrom_toks covers_toks_star_full)
  show "\<not> included (toks (prefix @ ''.>'')) (toks (prefix @ ''.*''))"
    using assms unfolding toks
    by (intro not_included_full) (auto simp: wf_pattern_def butlast_append)
qed

theorem subjectPatternCovers_full_wildcard_witness:
  "subjectPatternCovers ''events.*'' ''events.>'' \<and> \<not> included (toks ''events.>'') (toks ''events.*'')"
  using subjectPatternCovers_full_wildcard [of "''events''"] by (simp add: wf_pattern_def toks.simps)

text \<open>
  \<open>objectNameMatches\<close> is NATS wildcard matching of the dot-separated segments, where a
  trailing dot adds no segment; an empty pattern and \<open>>\<close> match every name.
\<close>

theorem objectNameMatches_segments:
  "objectNameMatches name pattern \<longleftrightarrow>
     pattern = [] \<or> pattern = ''>'' \<or> wild_match (segs pattern) (segs name)"
  by (simp add: objectNameMatches_def nameMatchesFrom_segs)

end
