(* ===== verification/Effects.thy ===== *)
theory Effects
  imports Errors
begin

text \<open>
  The boundary of the transport: the values that cross it and the calls it makes.

  Each call into the NATS client, the kernel, the clock or the source of randomness is a
  \<open>request\<close>; its answer is read from the field of \<open>answer\<close> that has the call's Go result type, so
  the world may answer anything of that type.  Logging calls are left out: they affect neither
  results nor broker state.
\<close>

section \<open>JSON documents\<close>

text \<open>
  Stored documents are represented by what \<open>encoding/json\<close> parses them to; \<open>Raw\<close> holds bytes
  that are not a JSON text.  Numbers that are not integer literals are \<open>JReal\<close>, and \<open>JOpaque\<close> is
  a Go value with no JSON form.
\<close>

datatype json =
    JNull | JBool bool | JNum int | JReal string | JStr string
  | JArr "json list" | JObj "(string \<times> json) list" | JOpaque nat

datatype data = Doc json | Raw bytes

section \<open>Contexts, messages and server-side values\<close>

text \<open>
  A context by how it was made; \<open>Scoped\<close> is one with a new request scope, \<open>WithID\<close> one that
  carries an identifier, \<open>WithTrace\<close> one with the trace context of the kernel.
\<close>

datatype id_kind = RequestID | ExecutionID | TraceID | SpanID

datatype ctx =
    NilCtx | Background | Caller nat
  | WithTimeout ctx duration | WithCancel ctx | WithoutCancel ctx
  | Scoped ctx | WithID ctx id_kind string | WithTrace ctx string string

type_synonym header = "(string \<times> string list) list"

text \<open>A message: \<open>None\<close> is the nil header map.\<close>

record msg =
  m_Subject :: string
  m_Reply :: string
  m_Data :: bytes
  m_Header :: "header option"

definition header_Get :: "header option \<Rightarrow> string \<Rightarrow> string" where
  "header_Get h k = (case h of None \<Rightarrow> [] | Some m \<Rightarrow>
     (case map_of m k of Some (v # _) \<Rightarrow> v | _ \<Rightarrow> []))"

record msg_metadata =
  md_NumDelivered :: u64
  md_Stream :: string
  md_StreamSeq :: u64

record kv_item =
  it_Key :: string
  it_Value :: data
  it_Revision :: u64
  it_Created :: instant

text \<open>Configurations carry the fields the transport reads or writes; the remaining ones as one value.\<close>

datatype StorageType = FileStorage | MemoryStorage
datatype RetentionPolicy = LimitsPolicy | InterestPolicy | WorkQueuePolicy
datatype DiscardPolicy = DiscardOld | DiscardNew

record StreamConfig =
  sc_Name :: string
  sc_Subjects :: "string list"
  sc_Storage :: StorageType
  sc_Retention :: RetentionPolicy
  sc_Discard :: DiscardPolicy
  sc_MaxAge :: duration
  sc_Rest :: nat

record ConsumerConfig =
  cc_MaxDeliver :: int
  cc_Rest :: nat

record KeyValueConfig =
  kc_Bucket :: string
  kc_Description :: string
  kc_History :: u8
  kc_TTL :: duration
  kc_Storage :: StorageType

datatype subopt =
    BindStream string | OptAckWait duration | OptMaxDeliver int | OptMaxAckPending int
  | ConsumerFilterSubjects "string list"
  | OptAckNone | OptAckAll | OptAckExplicit
  | OptDeliverLast | OptDeliverNew | OptStartSequence u64 | OptStartTime "instant option"
  | OptDeliverLastPerSubject | OptDeliverAll
  | OptReplayOriginal | OptReplayInstant
  | OptBackOff "duration list" | OptRateLimit u64 | OptHeadersOnly

text \<open>
  \<open>DeadLetter\<close> of \<open>src/tnats/tnats.go\<close>; \<open>dl_Error\<close> holds the error whose text the source
  stores.
\<close>

record DeadLetter =
  dl_Stream :: string
  dl_Subject :: string
  dl_Durable :: string
  dl_Deliveries :: u64
  dl_FailedAt :: instant
  dl_Error :: goerror
  dl_Payload :: bytes
  dl_Headers :: "(string \<times> string) list"

text \<open>A snapshot of a bucket's value, and the operations of the newer bucket interface.\<close>

record KVEntry =
  ke_Bucket :: string
  ke_Key :: string
  ke_Value :: bytes
  ke_Revision :: u64
  ke_Created :: instant

datatype kv_op =
    OpGet | OpPut bytes | OpCreate bytes "duration option" | OpUpdate bytes u64 | OpDelete "u64 option"

text \<open>Objects: what the server tells of one, and the event the transport makes of it.\<close>

record ObjectInfo =
  oi_Name :: string
  oi_Size :: u64
  oi_Chunks :: u32
  oi_Digest :: string
  oi_ModTime :: instant
  oi_Deleted :: bool

type_synonym ObjectEventType = u8

definition ObjectPut :: ObjectEventType where "ObjectPut = 0"
definition ObjectDelete :: ObjectEventType where "ObjectDelete = 1"

record ObjectEvent =
  oe_Bucket :: string
  oe_Name :: string
  oe_Type :: ObjectEventType
  oe_Size :: u64
  oe_Chunks :: u32
  oe_Timestamp :: instant
  oe_Data :: bytes

text \<open>Services and endpoints of the micro framework.\<close>

record micro_Config =
  mc_Name :: string
  mc_Version :: string
  mc_Description :: string
  mc_Metadata :: "(string \<times> string) list"

datatype endpoint_opt = EndpointSubject string | EndpointQueueGroup string | EndpointMetadata "(string \<times> string) list"

text \<open>Options of the embedded server, with the remaining ones as one value.\<close>

record server_Options =
  so_Host :: string
  so_Port :: int
  so_ServerName :: string
  so_JetStream :: bool
  so_StoreDir :: string
  so_MaxPayload :: int
  so_MaxConn :: int
  so_Username :: string
  so_Password :: string
  so_Authorization :: string
  so_Debug :: bool
  so_Trace :: bool
  so_NoLog :: bool
  so_NoSigs :: bool
  so_Rest :: nat

text \<open>
  What an action is given to decode its input from: nothing when the message is empty (the target
  keeps its zero value), the bytes for the codec, or an object event.
\<close>

datatype decoder = KeepZero | Unmarshal bytes | FromEvent ObjectEvent

text \<open>How the execution of an action ends.\<close>

datatype 'a outcome = Returned 'a | Panicked

section \<open>Requests and answers\<close>

text \<open>Calls on the connection, on buckets and object stores, on watchers, on services, and of the runner.\<close>

datatype conn_request =
    EnsureConnection ctx
  | EnsureJetStream
  | JetStreamNew
  | NcPublishMsg msg
  | NcRequest ctx msg
  | NcSubscribe string "string option"
  | NcFlush ctx
  | NcLastError
  | AwaitEnd ctx

datatype store_request =
    JsKeyValueCtx ctx string
  | KvOp ctx string string kv_op
  | JsObjectStore string
  | JsObjectStoreCtx ctx string
  | ObsGet ctx string
  | ObjCopyN int
  | ObjClose
  | ObsPutBytes ctx string bytes
  | ObsDelete ctx string

datatype watch_request = KvWatchAll | KvWatch string | ObsWatch | WatcherNext | WatcherStop

text \<open>An endpoint is added to the service of the given name, with the action it runs.\<close>

datatype micro_request =
    MicroAddService micro_Config
  | MicroAddEndpoint string string nat "endpoint_opt list"
  | MicroStop string
  | ReqRespond bytes
  | ReqError string string

datatype run_request =
    OsMkdirAll string
  | NewServer server_Options
  | SrvStart
  | SrvReadyForConnections duration
  | SrvShutdown
  | SrvWaitForShutdown
  | SrvClientURL
  | WorkersWait
  | CloseTransport

text \<open>Files, and the validation a caller configures.\<close>

datatype file_request = OsStat string | OsReadFile string | AppendCertsFromPEM bytes | ProductionValidator

datatype request =
    TimeNow
  | CtxErr ctx
  | RandRead nat
  | KvGet string
  | KvPut string data
  | KvCreate string data
  | KvUpdate string data u64
  | KvDelete string "u64 option"
  | KvStatusTTL
  | JsKeyValue string
  | JsCreateKeyValue KeyValueConfig
  | JsStreamInfo string
  | JsAddStream StreamConfig
  | JsUpdateStream StreamConfig
  | JsPullSubscribe string string "subopt list"
  | JsConsumerInfo string string
  | JsUpdateConsumer string ConsumerConfig
  | SubUnsubscribe
  | SubFetch ctx nat
  | ConnIsClosed
  | AwaitRetry ctx duration
  | MarshalDeadLetter DeadLetter
  | JsPublishMsg ctx msg "string option"
  | MsgMetadata msg
  | MsgAckSync ctx msg
  | MsgNakWithDelay ctx msg duration
  | MsgTerm ctx msg
  | ExecuteDecoded ctx decoder
  | ExecuteFinish
  | CodecMarshal json
  | CodecMarshalPublic goerror
  | JsonMarshalPublic goerror
  | CodecUnmarshal bytes
  | JsonMarshal json
  | JsonUnmarshal bytes
  | CodecUnmarshalError bytes
  | Conn conn_request
  | Store store_request
  | Watch watch_request
  | Micro micro_request
  | Run run_request
  | File file_request

record answer =
  a_err :: "goerror option"
  a_now :: instant
  a_bytes :: "goerror + bytes"
  a_item :: "goerror + kv_item"
  a_rev :: "goerror + u64"
  a_ttl :: "goerror + duration"
  a_stream :: "goerror + StreamConfig"
  a_consumer :: "goerror + ConsumerConfig"
  a_meta :: "goerror + msg_metadata"
  a_exec :: "(goerror + json) outcome"
  a_ticks :: nat
  a_msgs :: "goerror + msg list"
  a_flag :: bool
  a_entry :: "goerror + KVEntry"
  a_update :: "(string \<times> bytes) option option"
  a_object :: "ObjectInfo option option"
  a_info :: "goerror + ObjectInfo"
  a_copied :: "bytes \<times> goerror option"
  a_msg :: "goerror + msg"
  a_public :: "goerror + (bool \<times> goerror option)"
  a_value :: "goerror + json"

type_synonym event = "request \<times> answer"
type_synonym 'a io = "(request, answer, 'a) prog"

text \<open>The calls by name, each with the result type of the Go function it stands for.\<close>

abbreviation time_Now :: "(instant \<Rightarrow> 'a io) \<Rightarrow> 'a io" where
  "time_Now k \<equiv> Call TimeNow (\<lambda>a. k (a_now a))"
abbreviation rand_Read :: "nat \<Rightarrow> (goerror + bytes \<Rightarrow> 'a io) \<Rightarrow> 'a io" where
  "rand_Read n k \<equiv> Call (RandRead n) (\<lambda>a. k (a_bytes a))"
abbreviation kv_Get :: "string \<Rightarrow> (goerror + kv_item \<Rightarrow> 'a io) \<Rightarrow> 'a io" where
  "kv_Get key k \<equiv> Call (KvGet key) (\<lambda>a. k (a_item a))"
abbreviation kv_Put :: "string \<Rightarrow> data \<Rightarrow> (goerror + u64 \<Rightarrow> 'a io) \<Rightarrow> 'a io" where
  "kv_Put key d k \<equiv> Call (KvPut key d) (\<lambda>a. k (a_rev a))"
abbreviation kv_Create :: "string \<Rightarrow> data \<Rightarrow> (goerror + u64 \<Rightarrow> 'a io) \<Rightarrow> 'a io" where
  "kv_Create key d k \<equiv> Call (KvCreate key d) (\<lambda>a. k (a_rev a))"
abbreviation kv_Update :: "string \<Rightarrow> data \<Rightarrow> u64 \<Rightarrow> (goerror + u64 \<Rightarrow> 'a io) \<Rightarrow> 'a io" where
  "kv_Update key d rv k \<equiv> Call (KvUpdate key d rv) (\<lambda>a. k (a_rev a))"
abbreviation kv_Delete :: "string \<Rightarrow> u64 option \<Rightarrow> (goerror option \<Rightarrow> 'a io) \<Rightarrow> 'a io" where
  "kv_Delete key rv k \<equiv> Call (KvDelete key rv) (\<lambda>a. k (a_err a))"
abbreviation kv_Status :: "(goerror + duration \<Rightarrow> 'a io) \<Rightarrow> 'a io" where
  "kv_Status k \<equiv> Call KvStatusTTL (\<lambda>a. k (a_ttl a))"
abbreviation js_KeyValue :: "string \<Rightarrow> (goerror option \<Rightarrow> 'a io) \<Rightarrow> 'a io" where
  "js_KeyValue name k \<equiv> Call (JsKeyValue name) (\<lambda>a. k (a_err a))"
abbreviation js_CreateKeyValue :: "KeyValueConfig \<Rightarrow> (goerror option \<Rightarrow> 'a io) \<Rightarrow> 'a io" where
  "js_CreateKeyValue cfg k \<equiv> Call (JsCreateKeyValue cfg) (\<lambda>a. k (a_err a))"
abbreviation js_StreamInfo :: "string \<Rightarrow> (goerror + StreamConfig \<Rightarrow> 'a io) \<Rightarrow> 'a io" where
  "js_StreamInfo name k \<equiv> Call (JsStreamInfo name) (\<lambda>a. k (a_stream a))"
abbreviation js_AddStream :: "StreamConfig \<Rightarrow> (goerror option \<Rightarrow> 'a io) \<Rightarrow> 'a io" where
  "js_AddStream cfg k \<equiv> Call (JsAddStream cfg) (\<lambda>a. k (a_err a))"
abbreviation js_UpdateStream :: "StreamConfig \<Rightarrow> (goerror option \<Rightarrow> 'a io) \<Rightarrow> 'a io" where
  "js_UpdateStream cfg k \<equiv> Call (JsUpdateStream cfg) (\<lambda>a. k (a_err a))"
abbreviation js_PullSubscribe :: "string \<Rightarrow> string \<Rightarrow> subopt list \<Rightarrow> (goerror option \<Rightarrow> 'a io) \<Rightarrow> 'a io" where
  "js_PullSubscribe subj durable opts k \<equiv> Call (JsPullSubscribe subj durable opts) (\<lambda>a. k (a_err a))"
abbreviation js_ConsumerInfo :: "string \<Rightarrow> string \<Rightarrow> (goerror + ConsumerConfig \<Rightarrow> 'a io) \<Rightarrow> 'a io" where
  "js_ConsumerInfo stream durable k \<equiv> Call (JsConsumerInfo stream durable) (\<lambda>a. k (a_consumer a))"
abbreviation js_UpdateConsumer :: "string \<Rightarrow> ConsumerConfig \<Rightarrow> (goerror option \<Rightarrow> 'a io) \<Rightarrow> 'a io" where
  "js_UpdateConsumer stream cfg k \<equiv> Call (JsUpdateConsumer stream cfg) (\<lambda>a. k (a_err a))"
abbreviation sub_Unsubscribe :: "(goerror option \<Rightarrow> 'a io) \<Rightarrow> 'a io" where
  "sub_Unsubscribe k \<equiv> Call SubUnsubscribe (\<lambda>a. k (a_err a))"
abbreviation sub_Fetch :: "ctx \<Rightarrow> nat \<Rightarrow> (goerror + msg list \<Rightarrow> 'a io) \<Rightarrow> 'a io" where
  "sub_Fetch c n k \<equiv> Call (SubFetch c n) (\<lambda>a. k (a_msgs a))"
abbreviation nc_IsClosed :: "(bool \<Rightarrow> 'a io) \<Rightarrow> 'a io" where
  "nc_IsClosed k \<equiv> Call ConnIsClosed (\<lambda>a. k (a_flag a))"
text \<open>Waiting for a timer or the end of the context; the answer tells whether the context ended first.\<close>
abbreviation await_Retry :: "ctx \<Rightarrow> duration \<Rightarrow> (bool \<Rightarrow> 'a io) \<Rightarrow> 'a io" where
  "await_Retry c d k \<equiv> Call (AwaitRetry c d) (\<lambda>a. k (a_flag a))"
abbreviation json_Marshal_dead :: "DeadLetter \<Rightarrow> (goerror + bytes \<Rightarrow> 'a io) \<Rightarrow> 'a io" where
  "json_Marshal_dead dead k \<equiv> Call (MarshalDeadLetter dead) (\<lambda>a. k (a_bytes a))"
abbreviation js_PublishMsg :: "ctx \<Rightarrow> msg \<Rightarrow> string option \<Rightarrow> (goerror option \<Rightarrow> 'a io) \<Rightarrow> 'a io" where
  "js_PublishMsg c m ident k \<equiv> Call (JsPublishMsg c m ident) (\<lambda>a. k (a_err a))"
abbreviation msg_Metadata :: "msg \<Rightarrow> (goerror + msg_metadata \<Rightarrow> 'a io) \<Rightarrow> 'a io" where
  "msg_Metadata m k \<equiv> Call (MsgMetadata m) (\<lambda>a. k (a_meta a))"
abbreviation msg_AckSync :: "ctx \<Rightarrow> msg \<Rightarrow> (goerror option \<Rightarrow> 'a io) \<Rightarrow> 'a io" where
  "msg_AckSync c m k \<equiv> Call (MsgAckSync c m) (\<lambda>a. k (a_err a))"
abbreviation msg_NakWithDelay :: "ctx \<Rightarrow> msg \<Rightarrow> duration \<Rightarrow> (goerror option \<Rightarrow> 'a io) \<Rightarrow> 'a io" where
  "msg_NakWithDelay c m d k \<equiv> Call (MsgNakWithDelay c m d) (\<lambda>a. k (a_err a))"
abbreviation msg_Term :: "ctx \<Rightarrow> msg \<Rightarrow> (goerror option \<Rightarrow> 'a io) \<Rightarrow> 'a io" where
  "msg_Term c m k \<equiv> Call (MsgTerm c m) (\<lambda>a. k (a_err a))"
abbreviation codec_Marshal :: "json \<Rightarrow> (goerror + bytes \<Rightarrow> 'a io) \<Rightarrow> 'a io" where
  "codec_Marshal v k \<equiv> Call (CodecMarshal v) (\<lambda>a. k (a_bytes a))"

text \<open>Encodings of the public form of an error, by the transport's codec and by \<open>encoding/json\<close>.\<close>

abbreviation codec_Marshal_Public :: "goerror \<Rightarrow> (goerror + bytes \<Rightarrow> 'a io) \<Rightarrow> 'a io" where
  "codec_Marshal_Public e k \<equiv> Call (CodecMarshalPublic e) (\<lambda>a. k (a_bytes a))"
abbreviation json_Marshal_Public :: "goerror \<Rightarrow> (goerror + bytes \<Rightarrow> 'a io) \<Rightarrow> 'a io" where
  "json_Marshal_Public e k \<equiv> Call (JsonMarshalPublic e) (\<lambda>a. k (a_bytes a))"

abbreviation ensure_Conn :: "ctx \<Rightarrow> (goerror option \<Rightarrow> 'a io) \<Rightarrow> 'a io" where
  "ensure_Conn c k \<equiv> Call (Conn (EnsureConnection c)) (\<lambda>a. k (a_err a))"
abbreviation ensure_JetStream :: "(goerror option \<Rightarrow> 'a io) \<Rightarrow> 'a io" where
  "ensure_JetStream k \<equiv> Call (Conn EnsureJetStream) (\<lambda>a. k (a_err a))"
abbreviation jetstream_New :: "(goerror option \<Rightarrow> 'a io) \<Rightarrow> 'a io" where
  "jetstream_New k \<equiv> Call (Conn JetStreamNew) (\<lambda>a. k (a_err a))"
abbreviation js_KeyValue_ctx :: "ctx \<Rightarrow> string \<Rightarrow> (goerror option \<Rightarrow> 'a io) \<Rightarrow> 'a io" where
  "js_KeyValue_ctx c b k \<equiv> Call (Store (JsKeyValueCtx c b)) (\<lambda>a. k (a_err a))"
abbreviation kv_op_Get :: "ctx \<Rightarrow> string \<Rightarrow> string \<Rightarrow> (goerror + KVEntry \<Rightarrow> 'a io) \<Rightarrow> 'a io" where
  "kv_op_Get c b key k \<equiv> Call (Store (KvOp c b key OpGet)) (\<lambda>a. k (a_entry a))"
abbreviation kv_op_write :: "ctx \<Rightarrow> string \<Rightarrow> string \<Rightarrow> kv_op \<Rightarrow> (goerror + u64 \<Rightarrow> 'a io) \<Rightarrow> 'a io" where
  "kv_op_write c b key w k \<equiv> Call (Store (KvOp c b key w)) (\<lambda>a. k (a_rev a))"
abbreviation kv_op_Delete :: "ctx \<Rightarrow> string \<Rightarrow> string \<Rightarrow> u64 option \<Rightarrow> (goerror option \<Rightarrow> 'a io) \<Rightarrow> 'a io" where
  "kv_op_Delete c b key rv k \<equiv> Call (Store (KvOp c b key (OpDelete rv))) (\<lambda>a. k (a_err a))"
abbreviation watcher_Stop :: "(goerror option \<Rightarrow> 'a io) \<Rightarrow> 'a io" where
  "watcher_Stop k \<equiv> Call (Watch WatcherStop) (\<lambda>a. k (a_err a))"
abbreviation obs_Watch :: "(goerror option \<Rightarrow> 'a io) \<Rightarrow> 'a io" where
  "obs_Watch k \<equiv> Call (Watch ObsWatch) (\<lambda>a. k (a_err a))"
abbreviation js_ObjectStore :: "string \<Rightarrow> (goerror option \<Rightarrow> 'a io) \<Rightarrow> 'a io" where
  "js_ObjectStore b k \<equiv> Call (Store (JsObjectStore b)) (\<lambda>a. k (a_err a))"
abbreviation js_ObjectStore_ctx :: "ctx \<Rightarrow> string \<Rightarrow> (goerror option \<Rightarrow> 'a io) \<Rightarrow> 'a io" where
  "js_ObjectStore_ctx c b k \<equiv> Call (Store (JsObjectStoreCtx c b)) (\<lambda>a. k (a_err a))"
abbreviation obs_Get :: "ctx \<Rightarrow> string \<Rightarrow> (goerror option \<Rightarrow> 'a io) \<Rightarrow> 'a io" where
  "obs_Get c n k \<equiv> Call (Store (ObsGet c n)) (\<lambda>a. k (a_err a))"
abbreviation obs_PutBytes :: "ctx \<Rightarrow> string \<Rightarrow> bytes \<Rightarrow> (goerror + ObjectInfo \<Rightarrow> 'a io) \<Rightarrow> 'a io" where
  "obs_PutBytes c n d k \<equiv> Call (Store (ObsPutBytes c n d)) (\<lambda>a. k (a_info a))"
abbreviation obs_Delete :: "ctx \<Rightarrow> string \<Rightarrow> (goerror option \<Rightarrow> 'a io) \<Rightarrow> 'a io" where
  "obs_Delete c n k \<equiv> Call (Store (ObsDelete c n)) (\<lambda>a. k (a_err a))"
abbreviation nc_PublishMsg :: "msg \<Rightarrow> (goerror option \<Rightarrow> 'a io) \<Rightarrow> 'a io" where
  "nc_PublishMsg m k \<equiv> Call (Conn (NcPublishMsg m)) (\<lambda>a. k (a_err a))"
abbreviation nc_Request :: "ctx \<Rightarrow> msg \<Rightarrow> (goerror + msg \<Rightarrow> 'a io) \<Rightarrow> 'a io" where
  "nc_Request c m k \<equiv> Call (Conn (NcRequest c m)) (\<lambda>a. k (a_msg a))"
abbreviation codec_Unmarshal :: "bytes \<Rightarrow> (goerror + json \<Rightarrow> 'a io) \<Rightarrow> 'a io" where
  "codec_Unmarshal d k \<equiv> Call (CodecUnmarshal d) (\<lambda>a. k (a_value a))"
abbreviation json_Marshal :: "json \<Rightarrow> (goerror + bytes \<Rightarrow> 'a io) \<Rightarrow> 'a io" where
  "json_Marshal v k \<equiv> Call (JsonMarshal v) (\<lambda>a. k (a_bytes a))"
abbreviation json_Unmarshal :: "bytes \<Rightarrow> (goerror + json \<Rightarrow> 'a io) \<Rightarrow> 'a io" where
  "json_Unmarshal d k \<equiv> Call (JsonUnmarshal d) (\<lambda>a. k (a_value a))"

abbreviation nc_Flush :: "ctx \<Rightarrow> (goerror option \<Rightarrow> 'a io) \<Rightarrow> 'a io" where
  "nc_Flush c k \<equiv> Call (Conn (NcFlush c)) (\<lambda>a. k (a_err a))"
abbreviation nc_LastError :: "(goerror option \<Rightarrow> 'a io) \<Rightarrow> 'a io" where
  "nc_LastError k \<equiv> Call (Conn NcLastError) (\<lambda>a. k (a_err a))"

text \<open>Waiting for the end of a run: whether the connection was closed first.\<close>

abbreviation await_End :: "ctx \<Rightarrow> (bool \<Rightarrow> 'a io) \<Rightarrow> 'a io" where
  "await_End c k \<equiv> Call (Conn (AwaitEnd c)) (\<lambda>a. k (a_flag a))"
abbreviation micro_AddService :: "micro_Config \<Rightarrow> (goerror option \<Rightarrow> 'a io) \<Rightarrow> 'a io" where
  "micro_AddService cfg k \<equiv> Call (Micro (MicroAddService cfg)) (\<lambda>a. k (a_err a))"
abbreviation svc_AddEndpoint :: "string \<Rightarrow> string \<Rightarrow> nat \<Rightarrow> endpoint_opt list \<Rightarrow> (goerror option \<Rightarrow> 'a io) \<Rightarrow> 'a io" where
  "svc_AddEndpoint svc name ex opts k \<equiv> Call (Micro (MicroAddEndpoint svc name ex opts)) (\<lambda>a. k (a_err a))"
abbreviation svc_Stop :: "string \<Rightarrow> (goerror option \<Rightarrow> 'a io) \<Rightarrow> 'a io" where
  "svc_Stop svc k \<equiv> Call (Micro (MicroStop svc)) (\<lambda>a. k (a_err a))"

text \<open>
  Receiving from a watcher: \<open>None\<close> is a closed channel, \<open>Some None\<close> the nil marker that ends the
  initial values.
\<close>

abbreviation watcher_Next :: "((string \<times> bytes) option option \<Rightarrow> 'a io) \<Rightarrow> 'a io" where
  "watcher_Next k \<equiv> Call (Watch WatcherNext) (\<lambda>a. k (a_update a))"
abbreviation watcher_NextObject :: "(ObjectInfo option option \<Rightarrow> 'a io) \<Rightarrow> 'a io" where
  "watcher_NextObject k \<equiv> Call (Watch WatcherNext) (\<lambda>a. k (a_object a))"

text \<open>
  \<open>io.CopyN\<close> of at most \<open>n\<close> bytes: what arrived in the buffer and the error, which is \<open>io.EOF\<close> if
  the object ended before.
\<close>

abbreviation obj_CopyN :: "int \<Rightarrow> (bytes \<times> goerror option \<Rightarrow> 'a io) \<Rightarrow> 'a io" where
  "obj_CopyN n k \<equiv> Call (Store (ObjCopyN n)) (\<lambda>a. k (a_copied a))"
abbreviation obj_Close :: "(goerror option \<Rightarrow> 'a io) \<Rightarrow> 'a io" where
  "obj_Close k \<equiv> Call (Store ObjClose) (\<lambda>a. k (a_err a))"

text \<open>
  Decoding a reply as the public form of an error: whether it names an error kind, and the
  application error the kernel rebuilds from it, if any.
\<close>

abbreviation codec_Unmarshal_Error :: "bytes \<Rightarrow> (goerror + (bool \<times> goerror option) \<Rightarrow> 'a io) \<Rightarrow> 'a io" where
  "codec_Unmarshal_Error d k \<equiv> Call (CodecUnmarshalError d) (\<lambda>a. k (a_public a))"

text \<open>\<open>ctx.Err()\<close>: the background context is never done.\<close>

definition ctx_Err :: "ctx \<Rightarrow> (goerror option \<Rightarrow> 'a io) \<Rightarrow> 'a io" where
  "ctx_Err c k = (if c = Background then k None else Call (CtxErr c) (\<lambda>a. k (a_err a)))"

text \<open>
  An action runs from its start to its return; \<open>a_ticks\<close> of the first answer is the number of
  times a ticker started beside it fires meanwhile.
\<close>

abbreviation ex_Start :: "ctx \<Rightarrow> decoder \<Rightarrow> (nat \<Rightarrow> 'a io) \<Rightarrow> 'a io" where
  "ex_Start c dec k \<equiv> Call (ExecuteDecoded c dec) (\<lambda>a. k (a_ticks a))"
abbreviation ex_Finish :: "((goerror + json) outcome \<Rightarrow> nat \<Rightarrow> 'a io) \<Rightarrow> 'a io" where
  "ex_Finish k \<equiv> Call ExecuteFinish (\<lambda>a. k (a_exec a) (a_ticks a))"

definition executeDecoded :: "ctx \<Rightarrow> decoder \<Rightarrow> (goerror + json) outcome io" where
  "executeDecoded c dec = ex_Start c dec (\<lambda>_. ex_Finish (\<lambda>r _. Ret r))"

text \<open>A neutral answer, to be updated at the field a call reads.\<close>

definition answer0 :: answer where
  "answer0 = \<lparr>a_err = None, a_now = 0, a_bytes = Inr [], a_item = Inl (plain_error []), a_rev = Inr 0,
     a_ttl = Inr 0, a_stream = Inl (plain_error []), a_consumer = Inl (plain_error []),
     a_meta = Inl (plain_error []), a_exec = Returned (Inr JNull), a_ticks = 0, a_msgs = Inr [], a_flag = False,
     a_entry = Inl (plain_error []), a_update = None, a_object = None, a_info = Inl (plain_error []), a_copied = ([], None),
     a_msg = Inl (plain_error []), a_public = Inl (plain_error []), a_value = Inr JNull\<rparr>"

lemma answer0_sel [simp]:
  "a_err answer0 = None" "a_bytes answer0 = Inr []" "a_rev answer0 = Inr 0" "a_now answer0 = 0"
  "a_exec answer0 = Returned (Inr JNull)" "a_ticks answer0 = 0" "a_msgs answer0 = Inr []" "a_flag answer0 = False"
  "a_value answer0 = Inr JNull"
  by (simp_all add: answer0_def)

lemma replay_ctx_Err [trace_simps]:
  "replay (ctx_Err c k) tr = Some x \<longleftrightarrow>
     (if c = Background then replay (k None) tr = Some x
      else \<exists>a tr'. tr = (CtxErr c, a) # tr' \<and> replay (k (a_err a)) tr' = Some x)"
  by (simp add: ctx_Err_def replay_Call)

lemma ctx_Err_split:
  "replay (ctx_Err c k) tr = Some x \<Longrightarrow>
   \<exists>pre e tr'. tr = pre @ tr' \<and> (pre = [] \<or> (\<exists>a. pre = [(CtxErr c, a)])) \<and> replay (k e) tr' = Some x"
proof (cases "c = Background")
  case True
  then show "replay (ctx_Err c k) tr = Some x \<Longrightarrow> ?thesis"
    by (intro exI [of _ "[]"] exI [of _ None] exI [of _ tr]) (simp add: ctx_Err_def)
next
  case False
  assume "replay (ctx_Err c k) tr = Some x"
  with False obtain a tr' where "tr = [(CtxErr c, a)] @ tr'" "replay (k (a_err a)) tr' = Some x"
    by (auto simp: ctx_Err_def replay_Call)
  then show ?thesis by blast
qed

lemma replay_case_outcome:
  "replay (case_outcome f p x) tr = Some y \<longleftrightarrow>
     (\<exists>a. x = Returned a \<and> replay (f a) tr = Some y) \<or> (x = Panicked \<and> replay p tr = Some y)"
  by (cases x) auto

lemma only_calls_ctx_Err [simp]:
  "(\<And>c. P (CtxErr c)) \<Longrightarrow> (\<And>e. only_calls P (k e)) \<Longrightarrow> only_calls P (ctx_Err c k)"
  by (simp add: ctx_Err_def)

section \<open>Kinds of requests\<close>

fun is_exec :: "request \<Rightarrow> bool" where
  "is_exec (ExecuteDecoded c d) = True" | "is_exec _ = False"
fun is_ack :: "request \<Rightarrow> bool" where
  "is_ack (MsgAckSync c m) = True" | "is_ack _ = False"
fun is_nak :: "request \<Rightarrow> bool" where
  "is_nak (MsgNakWithDelay c m d) = True" | "is_nak _ = False"
fun is_term :: "request \<Rightarrow> bool" where
  "is_term (MsgTerm c m) = True" | "is_term _ = False"
fun is_publish :: "request \<Rightarrow> bool" where
  "is_publish (JsPublishMsg c m i) = True" | "is_publish _ = False"

fun is_fetch :: "request \<Rightarrow> bool" where
  "is_fetch (SubFetch c n) = True" | "is_fetch _ = False"

text \<open>The calls that settle a delivery.\<close>

definition is_settle :: "request \<Rightarrow> bool" where
  "is_settle q \<longleftrightarrow> is_ack q \<or> is_nak q \<or> is_term q"

end
