(* ===== verification/Bindings.thy ===== *)
theory Bindings
  imports Effects
begin

text \<open>
  The route bindings of \<open>src/tnats/binding.go\<close> and \<open>src/tnats/consumer.go\<close>: their fields,
  constructors, modifiers, descriptions and validation.  A \<open>uint8\<close> policy keeps its width, so
  values outside the named constants exist and reach the validation, as in the source.
\<close>

section \<open>Policies\<close>

type_synonym DeliverPolicy = u8
type_synonym AckPolicy = u8
type_synonym ReplayPolicy = u8

definition DeliverAll :: DeliverPolicy where [policy_defs]: "DeliverAll = 0"
definition DeliverLast :: DeliverPolicy where [policy_defs]: "DeliverLast = 1"
definition DeliverNew :: DeliverPolicy where [policy_defs]: "DeliverNew = 2"
definition DeliverByStartSequence :: DeliverPolicy where [policy_defs]: "DeliverByStartSequence = 3"
definition DeliverByStartTime :: DeliverPolicy where [policy_defs]: "DeliverByStartTime = 4"
definition DeliverLastPerSubject :: DeliverPolicy where [policy_defs]: "DeliverLastPerSubject = 5"

definition AckExplicit :: AckPolicy where [policy_defs]: "AckExplicit = 0"
definition AckNone :: AckPolicy where [policy_defs]: "AckNone = 1"
definition AckAll :: AckPolicy where [policy_defs]: "AckAll = 2"

definition ReplayInstant :: ReplayPolicy where [policy_defs]: "ReplayInstant = 0"
definition ReplayOriginal :: ReplayPolicy where [policy_defs]: "ReplayOriginal = 1"

section \<open>Core bindings\<close>

record TopicBinding =
  tb_Subject :: string
  tb_QueueGroup :: string

definition TopicBinding_String :: "TopicBinding \<Rightarrow> string" where
  "TopicBinding_String b =
    (if tb_QueueGroup b \<noteq> [] then ''nats pubsub: '' @ tb_Subject b @ '' (queue: '' @ tb_QueueGroup b @ '')''
     else ''nats pubsub: '' @ tb_Subject b)"

definition Topic :: "string \<Rightarrow> string list \<Rightarrow> TopicBinding" where
  "Topic subject queueGroup =
    \<lparr>tb_Subject = subject, tb_QueueGroup = (case queueGroup of [] \<Rightarrow> [] | q # _ \<Rightarrow> q)\<rparr>"

definition Listen :: "string \<Rightarrow> string list \<Rightarrow> TopicBinding" where
  "Listen subject queueGroup = Topic subject queueGroup"

record RequestBinding =
  rb_Subject :: string
  rb_Timeout :: duration

definition RequestBinding_String :: "RequestBinding \<Rightarrow> string" where
  "RequestBinding_String b = ''nats rpc: '' @ rb_Subject b"

definition Request :: "string \<Rightarrow> duration list \<Rightarrow> RequestBinding" where
  "Request subject timeout =
    \<lparr>rb_Subject = subject, rb_Timeout = (case timeout of [] \<Rightarrow> 0 | d # _ \<Rightarrow> d)\<rparr>"

record KVBinding =
  kb_Bucket :: string
  kb_Key :: string

definition KVBinding_String :: "KVBinding \<Rightarrow> string" where
  "KVBinding_String b = ''nats kv: '' @ kb_Bucket b @ ''/'' @ kb_Key b"

definition KV :: "string \<Rightarrow> string \<Rightarrow> KVBinding" where
  "KV bucket key = \<lparr>kb_Bucket = bucket, kb_Key = key\<rparr>"

definition WatchKV :: "string \<Rightarrow> string \<Rightarrow> KVBinding" where
  "WatchKV bucket key = KV bucket key"

section \<open>Durable work\<close>

record DurableBinding =
  db_Stream :: string
  db_Subject :: string
  db_Durable :: string
  db_DeadLetterSubject :: string
  db_MaxDeliver :: int
  db_AckWait :: duration
  db_RetryDelay :: duration
  db_MaxAckPending :: int

definition DurableBinding_String :: "DurableBinding \<Rightarrow> string" where
  "DurableBinding_String b = ''nats durable work: '' @ db_Subject b @ '' (stream: '' @ db_Stream b @
     '', durable: '' @ db_Durable b @ '')''"

definition DurableWork :: "string \<Rightarrow> string \<Rightarrow> string \<Rightarrow> string \<Rightarrow> DurableBinding" where
  "DurableWork stream subject durable deadLetterSubject =
    \<lparr>db_Stream = stream, db_Subject = subject, db_Durable = durable,
     db_DeadLetterSubject = deadLetterSubject, db_MaxDeliver = 5, db_AckWait = 30 * Second,
     db_RetryDelay = Second, db_MaxAckPending = 64\<rparr>"

definition WithDeliveryPolicy ::
  "DurableBinding \<Rightarrow> int \<Rightarrow> duration \<Rightarrow> duration \<Rightarrow> int \<Rightarrow> DurableBinding" where
  "WithDeliveryPolicy b maxDeliver ackWait retryDelay maxAckPending =
    (let b1 = (if maxDeliver > 0 then b\<lparr>db_MaxDeliver := maxDeliver\<rparr> else b);
         b2 = (if ackWait > 0 then b1\<lparr>db_AckWait := ackWait\<rparr> else b1);
         b3 = (if retryDelay > 0 then b2\<lparr>db_RetryDelay := retryDelay\<rparr> else b2)
     in (if maxAckPending > 0 then b3\<lparr>db_MaxAckPending := maxAckPending\<rparr> else b3))"

definition validateDurableBinding :: "DurableBinding \<Rightarrow> goerror option" where
  "validateDurableBinding b =
    (if db_Stream b = [] \<or> db_Subject b = [] \<or> db_Durable b = [] \<or> db_DeadLetterSubject b = []
     then Some (app KindBadRequest
       ''durable work requires stream, subject, durable consumer, and dead-letter subject'' [])
     else if db_MaxDeliver b \<le> 0 \<or> db_AckWait b \<le> 0 \<or> db_RetryDelay b \<le> 0 \<or> db_MaxAckPending b \<le> 0
     then Some (app KindBadRequest ''durable delivery policy parameters must be positive'' [])
     else None)"

section \<open>Pull consumers\<close>

record ConsumerBinding =
  cb_Stream :: string
  cb_Subject :: string
  cb_FilterSubjects :: "string list"
  cb_Durable :: string
  cb_DeliverPolicy :: DeliverPolicy
  cb_OptStartSeq :: u64
  cb_OptStartTime :: "instant option"  \<comment> \<open>\<open>None\<close> is the zero time\<close>
  cb_AckPolicy :: AckPolicy
  cb_ReplayPolicy :: ReplayPolicy
  cb_MaxDeliver :: int
  cb_AckWait :: duration
  cb_MaxAckPending :: int
  cb_BackOff :: "duration list"
  cb_RateLimitBits :: u64
  cb_HeadersOnly :: bool
  cb_DeadLetterSubject :: string

definition ConsumerBinding_String :: "ConsumerBinding \<Rightarrow> string" where
  "ConsumerBinding_String b =
     ''nats consumer: '' @ cb_Stream b @ ''/'' @ cb_Subject b @ '' ['' @ cb_Durable b @ '']''"

text \<open>Go's zero value, from which composite literals start.\<close>

definition ConsumerBinding0 :: ConsumerBinding where
  "ConsumerBinding0 =
    \<lparr>cb_Stream = [], cb_Subject = [], cb_FilterSubjects = [], cb_Durable = [],
     cb_DeliverPolicy = 0, cb_OptStartSeq = 0, cb_OptStartTime = None, cb_AckPolicy = 0,
     cb_ReplayPolicy = 0, cb_MaxDeliver = 0, cb_AckWait = 0, cb_MaxAckPending = 0, cb_BackOff = [],
     cb_RateLimitBits = 0, cb_HeadersOnly = False, cb_DeadLetterSubject = []\<rparr>"

definition Consumer :: "string \<Rightarrow> string \<Rightarrow> string \<Rightarrow> ConsumerBinding" where
  "Consumer stream subject durable = ConsumerBinding0
    \<lparr>cb_Stream := stream, cb_Subject := subject, cb_Durable := durable,
     cb_DeliverPolicy := DeliverAll, cb_AckPolicy := AckExplicit, cb_ReplayPolicy := ReplayInstant,
     cb_MaxDeliver := 5, cb_AckWait := 30 * Second, cb_MaxAckPending := 256\<rparr>"

definition FromSequence :: "ConsumerBinding \<Rightarrow> u64 \<Rightarrow> ConsumerBinding" where [binding_defs]:
  "FromSequence b sq = b\<lparr>cb_DeliverPolicy := DeliverByStartSequence, cb_OptStartSeq := sq\<rparr>"
definition FromTime :: "ConsumerBinding \<Rightarrow> instant option \<Rightarrow> ConsumerBinding" where [binding_defs]:
  "FromTime b t = b\<lparr>cb_DeliverPolicy := DeliverByStartTime, cb_OptStartTime := t\<rparr>"
definition NewOnly :: "ConsumerBinding \<Rightarrow> ConsumerBinding" where [binding_defs]:
  "NewOnly b = b\<lparr>cb_DeliverPolicy := DeliverNew\<rparr>"
definition LastPerSubject :: "ConsumerBinding \<Rightarrow> ConsumerBinding" where [binding_defs]:
  "LastPerSubject b = b\<lparr>cb_DeliverPolicy := DeliverLastPerSubject\<rparr>"
definition WithAckPolicy :: "ConsumerBinding \<Rightarrow> AckPolicy \<Rightarrow> ConsumerBinding" where [binding_defs]:
  "WithAckPolicy b p = b\<lparr>cb_AckPolicy := p\<rparr>"
definition WithFilters :: "ConsumerBinding \<Rightarrow> string list \<Rightarrow> ConsumerBinding" where [binding_defs]:
  "WithFilters b subjects = b\<lparr>cb_FilterSubjects := subjects\<rparr>"
definition WithBackOff :: "ConsumerBinding \<Rightarrow> duration list \<Rightarrow> ConsumerBinding" where [binding_defs]:
  "WithBackOff b backoff = b\<lparr>cb_BackOff := backoff\<rparr>"
definition WithRateLimit :: "ConsumerBinding \<Rightarrow> u64 \<Rightarrow> ConsumerBinding" where [binding_defs]:
  "WithRateLimit b bitsPerSecond = b\<lparr>cb_RateLimitBits := bitsPerSecond\<rparr>"
definition WithHeadersOnly :: "ConsumerBinding \<Rightarrow> ConsumerBinding" where [binding_defs]:
  "WithHeadersOnly b = b\<lparr>cb_HeadersOnly := True\<rparr>"
definition ToDeadLetter :: "ConsumerBinding \<Rightarrow> string \<Rightarrow> ConsumerBinding" where [binding_defs]:
  "ToDeadLetter b subject = b\<lparr>cb_DeadLetterSubject := subject\<rparr>"

definition validateConsumerBinding :: "ConsumerBinding \<Rightarrow> goerror option" where
  "validateConsumerBinding b =
    (let bad = (\<lambda>m. Some (app KindBadRequest m []))
     in if cb_Stream b = [] \<or> cb_Subject b = [] \<or> cb_Durable b = []
     then bad ''consumer requires stream, subject and durable''
     else if cb_MaxDeliver b \<le> 0 \<or> cb_AckWait b \<le> 0 \<or> cb_MaxAckPending b \<le> 0
     then bad ''consumer delivery parameters must be positive''
     else if cb_AckPolicy b = AckNone \<and> cb_DeadLetterSubject b \<noteq> []
     then bad ''consumer dead-lettering requires an acknowledgement policy that supports redelivery''
     else if cb_DeliverPolicy b \<notin> set [DeliverAll, DeliverLast, DeliverNew, DeliverByStartSequence,
       DeliverByStartTime, DeliverLastPerSubject]
     then bad ''consumer delivery policy is invalid''
     else if cb_AckPolicy b \<notin> set [AckExplicit, AckNone, AckAll]
     then bad ''consumer acknowledgement policy is invalid''
     else if cb_ReplayPolicy b \<notin> set [ReplayInstant, ReplayOriginal]
     then bad ''consumer replay policy is invalid''
     else if cb_DeliverPolicy b = DeliverByStartSequence \<and> cb_OptStartSeq b = 0
     then bad ''consumer start sequence must be positive''
     else if cb_DeliverPolicy b = DeliverByStartTime \<and> cb_OptStartTime b = None
     then bad ''consumer start time is required''
     else if int (length (cb_BackOff b)) > cb_MaxDeliver b
     then bad ''consumer backoff length must not exceed MaxDeliver''
     else if list_ex (\<lambda>delay. delay \<le> 0) (cb_BackOff b)
     then bad ''consumer backoff delays must be positive''
     else None)"

end
