(* ===== verification/Digest.thy ===== *)
theory Digest
  imports Prelude
begin

text \<open>
  The parts of Go's standard library that \<open>src/tnats/idempotency.go\<close> uses to name a request:
  \<open>crypto/sha256\<close> (one-shot and streaming), \<open>encoding/binary\<close> and \<open>encoding/hex\<close>.  SHA-256 is
  written after FIPS 180-4 on 32-bit words.
\<close>

unbundle bit_operations_syntax

section \<open>Big-endian integers and hexadecimal text\<close>

definition byte_of :: "nat \<Rightarrow> char" where
  "byte_of n = char_of (n mod 256)"

text \<open>\<open>n\<close> bytes of a natural number, the most significant first.\<close>

fun put_be :: "nat \<Rightarrow> nat \<Rightarrow> bytes" where
  "put_be 0 v = []"
| "put_be (Suc n) v = byte_of (v div 256 ^ n) # put_be n v"

fun get_be :: "bytes \<Rightarrow> nat" where
  "get_be [] = 0"
| "get_be (b # bs) = of_char b * 256 ^ length bs + get_be bs"

definition PutUint64 :: "u64 \<Rightarrow> bytes" where
  "PutUint64 w = put_be 8 (unat w)"

definition hex_digit :: "nat \<Rightarrow> char" where
  "hex_digit n = ''0123456789abcdef'' ! n"

definition hex_EncodeToString :: "bytes \<Rightarrow> string" where
  "hex_EncodeToString bs =
     concat (map (\<lambda>b. [hex_digit (of_char b div 16), hex_digit (of_char b mod 16)]) bs)"

section \<open>SHA-256\<close>

text \<open>
  The constants of the standard are by definition the first 32 bits of the fractional parts of the
  cube roots of the first 64 primes and of the square roots of the first eight; they are computed
  here from the integer root of a scaled prime, bit by bit.
\<close>

primrec root_from :: "nat \<Rightarrow> nat \<Rightarrow> nat \<Rightarrow> nat \<Rightarrow> nat" where
  "root_from k n r 0 = r"
| "root_from k n r (Suc b) = root_from k n (if (r + 2 ^ b) ^ k \<le> n then r + 2 ^ b else r) b"

definition root_fraction :: "nat \<Rightarrow> nat \<Rightarrow> u32" where
  "root_fraction k p = of_nat (root_from k (p * 2 ^ (32 * k)) 0 35)"

definition small_primes :: "nat list" where
  "small_primes = filter (\<lambda>n. list_all (\<lambda>d. n mod d \<noteq> 0) [2..<n]) [2..<312]"

definition sha_K :: "u32 list" where
  "sha_K = map (root_fraction 3) small_primes"

definition sha_H0 :: "u32 list" where
  "sha_H0 = map (root_fraction 2) [2, 3, 5, 7, 11, 13, 17, 19]"

definition rotr :: "nat \<Rightarrow> u32 \<Rightarrow> u32" where
  "rotr n x = drop_bit n x OR push_bit (32 - n) x"

definition sha_pad :: "bytes \<Rightarrow> bytes" where
  "sha_pad m = m @ [byte_of 128] @ replicate ((119 - length m mod 64) mod 64) (byte_of 0) @ put_be 8 (8 * length m)"

definition block_words :: "bytes \<Rightarrow> u32 list" where
  "block_words b = map (\<lambda>i. of_nat (get_be (take 4 (drop (4 * i) b)))) [0..<16]"

text \<open>One more word of the message schedule, from the words so far.\<close>

definition sha_extend :: "u32 list \<Rightarrow> u32 list" where
  "sha_extend w =
    (let t = length w; w15 = w ! (t - 15); w2 = w ! (t - 2);
         s0 = rotr 7 w15 XOR rotr 18 w15 XOR drop_bit 3 w15;
         s1 = rotr 17 w2 XOR rotr 19 w2 XOR drop_bit 10 w2
     in w @ [w ! (t - 16) + s0 + w ! (t - 7) + s1])"

definition sha_schedule :: "bytes \<Rightarrow> u32 list" where
  "sha_schedule b = (sha_extend ^^ 48) (block_words b)"

fun sha_round :: "u32 list \<Rightarrow> u32 \<times> u32 \<Rightarrow> u32 list" where
  "sha_round [a, b, c, d, e, f, g, h] (k, w) =
    (let s1 = rotr 6 e XOR rotr 11 e XOR rotr 25 e;
         ch = (e AND f) XOR (NOT e AND g);
         t1 = h + s1 + ch + k + w;
         s0 = rotr 2 a XOR rotr 13 a XOR rotr 22 a;
         maj = (a AND b) XOR (a AND c) XOR (b AND c)
     in [t1 + (s0 + maj), a, b, c, d + t1, e, f, g])"
| "sha_round st _ = st"

definition sha_block :: "u32 list \<Rightarrow> bytes \<Rightarrow> u32 list" where
  "sha_block st b = map2 (+) st (foldl sha_round st (zip sha_K (sha_schedule b)))"

definition blocks :: "bytes \<Rightarrow> bytes list" where
  "blocks m = map (\<lambda>i. take 64 (drop (64 * i) m)) [0..<length m div 64]"

definition Sum256 :: "bytes \<Rightarrow> bytes" where
  "Sum256 m = concat (map (\<lambda>w. put_be 4 (unat w)) (foldl sha_block sha_H0 (blocks (sha_pad m))))"

text \<open>The streaming interface: writes accumulate, and \<open>Sum\<close> appends the digest to its argument.\<close>

type_synonym sha256_hash = bytes

definition sha256_New :: sha256_hash where "sha256_New = []"

definition hash_Write :: "sha256_hash \<Rightarrow> bytes \<Rightarrow> sha256_hash" where
  "hash_Write h p = h @ p"

definition hash_Sum :: "sha256_hash \<Rightarrow> bytes \<Rightarrow> bytes" where
  "hash_Sum h b = b @ Sum256 h"

section \<open>Lengths and injectivity\<close>

lemma length_put_be [simp]: "length (put_be n v) = n"
  by (induction n) simp_all

lemma of_char_byte_of [simp]: "(of_char (byte_of n) :: nat) = n mod 256"
  by (simp add: byte_of_def)

lemma get_put_be: "get_be (put_be n v) = v mod 256 ^ n"
proof (induction n)
  case (Suc n)
  have "v mod 256 ^ Suc n = (v div 256 ^ n mod 256) * 256 ^ n + v mod 256 ^ n"
    by (metis mod_mult2_eq mult.commute power_Suc2)
  then show ?case using Suc by simp
qed simp

lemma PutUint64_inject [simp]: "PutUint64 v = PutUint64 w \<longleftrightarrow> v = w"
proof
  assume "PutUint64 v = PutUint64 w"
  then have "unat v mod 256 ^ 8 = unat w mod 256 ^ 8"
    unfolding PutUint64_def by (metis get_put_be)
  moreover have "unat v < 256 ^ 8" "unat w < 256 ^ 8"
    using unsigned_less [of v] unsigned_less [of w] by simp_all
  ultimately show "v = w" by (simp add: word_unat_eq_iff)
qed simp

lemma length_PutUint64 [simp]: "length (PutUint64 v) = 8"
  by (simp add: PutUint64_def)

lemma length_hex [simp]: "length (hex_EncodeToString bs) = 2 * length bs"
  by (induction bs) (simp_all add: hex_EncodeToString_def)

lemma hex_digit_inject: "i < 16 \<Longrightarrow> j < 16 \<Longrightarrow> hex_digit i = hex_digit j \<longleftrightarrow> i = j"
  unfolding hex_digit_def by (rule nth_eq_iff_index_eq) simp_all

lemma hex_byte_inject:
  "hex_digit (of_char a div 16) = hex_digit (of_char b div 16) \<Longrightarrow>
   hex_digit (of_char a mod 16) = hex_digit (of_char b mod 16) \<Longrightarrow> a = b"
proof -
  have lt: "(of_char c :: nat) div 16 < 16" for c
    using nat_of_char_less_256 [of c] by linarith
  assume "hex_digit (of_char a div 16) = hex_digit (of_char b div 16)"
    "hex_digit (of_char a mod 16) = hex_digit (of_char b mod 16)"
  then have "(of_char a :: nat) div 16 = of_char b div 16" "(of_char a :: nat) mod 16 = of_char b mod 16"
    using hex_digit_inject lt by auto
  then have "(of_char a :: nat) = of_char b" by (metis div_mult_mod_eq)
  then show "a = b" by simp
qed

lemma hex_inject [simp]: "hex_EncodeToString xs = hex_EncodeToString ys \<longleftrightarrow> xs = ys"
proof (induction xs arbitrary: ys)
  case Nil
  then show ?case by (cases ys) (simp_all add: hex_EncodeToString_def)
next
  case (Cons x xs)
  then show ?case
    by (cases ys) (auto simp: hex_EncodeToString_def intro: hex_byte_inject)
qed

lemma length_sha_round [simp]: "length (sha_round st kw) = length st"
  by (cases "(st, kw)" rule: sha_round.cases) (simp_all add: Let_def)

lemma length_sha_rounds [simp]: "length (foldl sha_round st kws) = length st"
  by (induction kws arbitrary: st) simp_all

lemma length_sha_block [simp]: "length (sha_block st b) = length st"
  by (simp add: sha_block_def)

lemma length_sha_blocks [simp]: "length (foldl sha_block st bs) = length st"
  by (induction bs arbitrary: st) simp_all

lemma length_Sum256 [simp]: "length (Sum256 m) = 32"
proof -
  have "length (concat (map (\<lambda>w. put_be 4 (unat w)) ws)) = 4 * length ws" for ws :: "u32 list"
    by (induction ws) simp_all
  moreover have "length sha_H0 = 8" by (simp add: sha_H0_def)
  ultimately show ?thesis by (simp add: Sum256_def)
qed

end
