(* ===== verification/Idem_KV.thy ===== *)
theory Idem_KV
  imports Effects Digest
begin

text \<open>
  The distributed idempotency coordinator over a JetStream key-value bucket:
  \<open>src/tnats/idempotency_kv.go\<close>.  Every method is a program over the bucket's operations, with the
  calls, guards and early returns of the source in their order.  The kernel's lease constant and the
  JSON form of its \<open>IdempotencyEntry\<close> are parameters (record \<open>kernel\<close>).
\<close>

section \<open>Data\<close>

record IdempotencyEntry =
  ie_Status :: int
  ie_Body :: bytes
  ie_StoredAt :: instant
  ie_RequestHash :: string

definition IdempotencyEntry0 :: IdempotencyEntry where
  "IdempotencyEntry0 = \<lparr>ie_Status = 0, ie_Body = [], ie_StoredAt = 0, ie_RequestHash = []\<rparr>"

datatype IdempotencyClaimState =
    IdempotencyClaimAcquired | IdempotencyClaimInProgress | IdempotencyClaimCompleted
  | IdempotencyClaimConflict | IdempotencyClaimUnknown nat

record IdempotencyClaim =
  cl_State :: IdempotencyClaimState
  cl_Token :: string
  cl_Entry :: IdempotencyEntry

definition claim_result :: "IdempotencyClaimState \<Rightarrow> IdempotencyClaim" where
  "claim_result st = \<lparr>cl_State = st, cl_Token = [], cl_Entry = IdempotencyEntry0\<rparr>"

text \<open>
  Unmarshalling decodes into an existing value, as \<open>json.Unmarshal\<close> does, so it takes that value.
\<close>

record kernel =
  k_DefaultIdempotencyLeaseTTL :: duration
  k_marshalEntry :: "IdempotencyEntry \<Rightarrow> goerror + json"
  k_unmarshalEntry :: "IdempotencyEntry \<Rightarrow> json \<Rightarrow> goerror + IdempotencyEntry"

text \<open>What the coordinator relies on of the kernel: a positive lease and a JSON round trip.\<close>

definition kernel_ok :: "kernel \<Rightarrow> bool" where
  "kernel_ok K \<longleftrightarrow> 0 < k_DefaultIdempotencyLeaseTTL K \<and>
     (\<forall>e j. k_marshalEntry K e = Inr j \<longrightarrow>
        j \<noteq> JNull \<and> k_unmarshalEntry K IdempotencyEntry0 j = Inr e)"

record kvClaimPayload =
  cp_Token :: string
  cp_RequestHash :: string
  cp_ExpiresAt :: int

definition kvClaimPayload0 :: kvClaimPayload where
  "kvClaimPayload0 = \<lparr>cp_Token = [], cp_RequestHash = [], cp_ExpiresAt = 0\<rparr>"

record KVIdempotencyCoordinator =
  kvc_kv :: bool  \<comment> \<open>whether the bucket handle is set\<close>

text \<open>\<open>None\<close> is the nil pointer.\<close>

definition uninitialized :: "KVIdempotencyCoordinator option \<Rightarrow> bool" where
  "uninitialized c = (case c of None \<Rightarrow> True | Some co \<Rightarrow> \<not> kvc_kv co)"

abbreviation defaultIdempotencyBucket :: string where
  "defaultIdempotencyBucket \<equiv> ''NEXSS_IDEMPOTENCY''"
definition claimPrefix :: string where "claimPrefix = ''claim.''"
definition entryPrefix :: string where "entryPrefix = ''entry.''"

abbreviation ErrKeyNotFound :: sentinel where "ErrKeyNotFound \<equiv> NatsErr ''ErrKeyNotFound''"
abbreviation ErrKeyDeleted :: sentinel where "ErrKeyDeleted \<equiv> NatsErr ''ErrKeyDeleted''"
abbreviation ErrKeyExists :: sentinel where "ErrKeyExists \<equiv> NatsErr ''ErrKeyExists''"
abbreviation ErrKeyRevisionMismatch :: sentinel where
  "ErrKeyRevisionMismatch \<equiv> NatsErr ''ErrKeyRevisionMismatch''"

definition key_missing :: "goerror \<Rightarrow> bool" where
  "key_missing e \<longleftrightarrow> errors_Is e ErrKeyNotFound \<or> errors_Is e ErrKeyDeleted"

section \<open>JSON of claims and entries\<close>

text \<open>
  Struct decoding of \<open>encoding/json\<close>: members are taken in order, a member name matches a field
  exactly or up to ASCII case, null leaves the field as it is, and a value of the wrong type or an
  integer out of range is an error.
\<close>

definition lower_char :: "char \<Rightarrow> char" where
  "lower_char c = (if 65 \<le> (of_char c :: nat) \<and> (of_char c :: nat) \<le> 90
     then char_of ((of_char c :: nat) + 32) else c)"

definition field_match :: "string \<Rightarrow> string \<Rightarrow> bool" where
  "field_match field name \<longleftrightarrow> name = field \<or> map lower_char name = map lower_char field"

definition unmarshal_string :: "string \<Rightarrow> json \<Rightarrow> string option" where
  "unmarshal_string old v = (case v of JStr s \<Rightarrow> Some s | JNull \<Rightarrow> Some old | _ \<Rightarrow> None)"

definition unmarshal_int64 :: "int \<Rightarrow> json \<Rightarrow> int option" where
  "unmarshal_int64 old v =
    (case v of JNum n \<Rightarrow> (if in_int64 n then Some n else None) | JNull \<Rightarrow> Some old | _ \<Rightarrow> None)"

fun unmarshal_claim_members :: "kvClaimPayload \<Rightarrow> (string \<times> json) list \<Rightarrow> kvClaimPayload option" where
  "unmarshal_claim_members c [] = Some c"
| "unmarshal_claim_members c ((name, v) # rest) =
    (if field_match ''token'' name then
       (case unmarshal_string (cp_Token c) v of None \<Rightarrow> None
        | Some s \<Rightarrow> unmarshal_claim_members (c\<lparr>cp_Token := s\<rparr>) rest)
     else if field_match ''req_hash'' name then
       (case unmarshal_string (cp_RequestHash c) v of None \<Rightarrow> None
        | Some s \<Rightarrow> unmarshal_claim_members (c\<lparr>cp_RequestHash := s\<rparr>) rest)
     else if field_match ''exp'' name then
       (case unmarshal_int64 (cp_ExpiresAt c) v of None \<Rightarrow> None
        | Some n \<Rightarrow> unmarshal_claim_members (c\<lparr>cp_ExpiresAt := n\<rparr>) rest)
     else unmarshal_claim_members c rest)"

definition unmarshalClaim :: "data \<Rightarrow> goerror + kvClaimPayload" where
  "unmarshalClaim d =
    (case d of
       Doc JNull \<Rightarrow> Inr kvClaimPayload0
     | Doc (JObj ms) \<Rightarrow> (case unmarshal_claim_members kvClaimPayload0 ms of
         Some c \<Rightarrow> Inr c | None \<Rightarrow> Inl (plain_error ''json: cannot unmarshal''))
     | Doc _ \<Rightarrow> Inl (plain_error ''json: cannot unmarshal'')
     | Raw _ \<Rightarrow> Inl (plain_error ''invalid character''))"

definition marshalClaim :: "kvClaimPayload \<Rightarrow> data" where
  "marshalClaim c = Doc (JObj [(''token'', JStr (cp_Token c)), (''req_hash'', JStr (cp_RequestHash c)),
     (''exp'', JNum (cp_ExpiresAt c))])"

record kvEntryPayload =
  ep_Entry :: "IdempotencyEntry option"
  ep_ExpiresAt :: int

fun unmarshal_entry_members ::
  "kernel \<Rightarrow> kvEntryPayload \<Rightarrow> (string \<times> json) list \<Rightarrow> goerror + kvEntryPayload" where
  "unmarshal_entry_members K p [] = Inr p"
| "unmarshal_entry_members K p ((name, v) # rest) =
    (if field_match ''entry'' name then
       (if v = JNull then unmarshal_entry_members K (p\<lparr>ep_Entry := None\<rparr>) rest
        else (case k_unmarshalEntry K (case ep_Entry p of None \<Rightarrow> IdempotencyEntry0 | Some e \<Rightarrow> e) v of
            Inl e \<Rightarrow> Inl e
          | Inr entry \<Rightarrow> unmarshal_entry_members K (p\<lparr>ep_Entry := Some entry\<rparr>) rest))
     else if field_match ''exp'' name then
       (case unmarshal_int64 (ep_ExpiresAt p) v of None \<Rightarrow> Inl (plain_error ''json: cannot unmarshal'')
        | Some n \<Rightarrow> unmarshal_entry_members K (p\<lparr>ep_ExpiresAt := n\<rparr>) rest)
     else unmarshal_entry_members K p rest)"

section \<open>Expiry and entry documents\<close>

text \<open>\<open>Time.Sub\<close> saturates at the bounds of a duration.\<close>

definition time_Sub :: "instant \<Rightarrow> instant \<Rightarrow> duration" where
  "time_Sub t u = max minInt64 (min maxInt64 (t - u))"

definition idempotencyExpiry :: "instant \<Rightarrow> duration \<Rightarrow> goerror + int" where
  "idempotencyExpiry now ttl =
    (if ttl \<le> 0 then Inr 0
     else if ttl > time_Sub maxInt64 now then Inl (app KindBadRequest ''idempotency TTL is too large'' [])
     else Inr (wrap_int64 (now + ttl)))"

definition marshalKVEntry :: "kernel \<Rightarrow> IdempotencyEntry \<Rightarrow> duration \<Rightarrow> (goerror + data) io" where
  "marshalKVEntry K entry ttl = time_Now (\<lambda>now.
    case idempotencyExpiry now ttl of
      Inl e \<Rightarrow> Ret (Inl e)
    | Inr expiresAt \<Rightarrow> Ret (case k_marshalEntry K entry of
        Inl e \<Rightarrow> Inl e
      | Inr j \<Rightarrow> Inr (Doc (JObj [(''entry'', j), (''exp'', JNum expiresAt)]))))"

text \<open>A load yields the entry, whether one is present, and an error or nil.\<close>

type_synonym load_result = "IdempotencyEntry \<times> bool \<times> goerror option"

definition decodeKVEntry :: "kernel \<Rightarrow> data \<Rightarrow> load_result io" where
  "decodeKVEntry K d =
    (let corrupted = (\<lambda>causes. Ret (IdempotencyEntry0, True,
           Some (app KindInternal ''corrupted idempotency entry in KV'' causes)));
         legacy = (\<lambda>j. case k_unmarshalEntry K IdempotencyEntry0 j of
             Inl e \<Rightarrow> Ret (IdempotencyEntry0, True,
               Some (app KindInternal ''corrupted legacy idempotency entry in KV'' [e]))
           | Inr entry \<Rightarrow> Ret (entry, True, None))
     in case d of
       Raw _ \<Rightarrow> corrupted [plain_error ''invalid character'']
     | Doc JNull \<Rightarrow> legacy JNull
     | Doc (JObj ms) \<Rightarrow>
         (if ''entry'' \<in> set (map fst ms) then
            (case unmarshal_entry_members K \<lparr>ep_Entry = None, ep_ExpiresAt = 0\<rparr> ms of
               Inl e \<Rightarrow> corrupted [e]
             | Inr stored \<Rightarrow> (case ep_Entry stored of
                 None \<Rightarrow> corrupted []
               | Some entry \<Rightarrow>
                   if ep_ExpiresAt stored \<noteq> 0 then
                     time_Now (\<lambda>now. if now \<ge> ep_ExpiresAt stored
                       then Ret (IdempotencyEntry0, False, None) else Ret (entry, True, None))
                   else Ret (entry, True, None)))
          else legacy (JObj ms))
     | Doc _ \<Rightarrow> corrupted [plain_error ''json: cannot unmarshal''])"

section \<open>Helpers of the methods\<close>

definition idempotencyContext :: "ctx \<Rightarrow> ctx" where
  "idempotencyContext c = (if c = NilCtx then Background else c)"

definition mapIdempotencyKVError :: "ctx \<Rightarrow> goerror option \<Rightarrow> goerror option io" where
  "mapIdempotencyKVError c err = ctx_Err c (\<lambda>ctxErr. case ctxErr of
      Some e \<Rightarrow> Ret (Some e) | None \<Rightarrow> Ret (MapError err))"

text \<open>The same on an error that is not nil, as the failure of a method with a result.\<close>

definition mapIdempotencyKVErr :: "ctx \<Rightarrow> goerror \<Rightarrow> (goerror + 'a) io" where
  "mapIdempotencyKVErr c err = ctx_Err c (\<lambda>ctxErr. case ctxErr of
      Some e \<Rightarrow> Ret (Inl e) | None \<Rightarrow> Ret (Inl (MapErr err)))"

definition newKVClaimToken :: "(goerror + string) io" where
  "newKVClaimToken = rand_Read 16 (\<lambda>r. case r of
      Inl e \<Rightarrow> Ret (Inl e) | Inr token \<Rightarrow> Ret (Inr (hex_EncodeToString token)))"

section \<open>Reading and writing results\<close>

abbreviation not_initialized :: goerror where
  "not_initialized \<equiv> app KindUnavailable ''idempotency KV coordinator is not initialized'' []"
abbreviation key_required :: goerror where
  "key_required \<equiv> app KindBadRequest ''idempotency key is required'' []"
abbreviation token_required :: goerror where
  "token_required \<equiv> app KindBadRequest ''idempotency key and claim token are required'' []"
abbreviation corrupted_claim :: "goerror list \<Rightarrow> goerror" where
  "corrupted_claim causes \<equiv> app KindInternal ''corrupted idempotency claim in KV'' causes"

definition loadEntry ::
  "kernel \<Rightarrow> KVIdempotencyCoordinator option \<Rightarrow> ctx \<Rightarrow> string \<Rightarrow> load_result io" where
  "loadEntry K c ctx key = ctx_Err ctx (\<lambda>err. case err of
      Some e \<Rightarrow> Ret (IdempotencyEntry0, False, Some e)
    | None \<Rightarrow>
      if uninitialized c then Ret (IdempotencyEntry0, False, Some not_initialized)
      else if key = [] then Ret (IdempotencyEntry0, False, Some key_required)
      else kv_Get (entryPrefix @ key) (\<lambda>item. case item of
        Inl e \<Rightarrow>
          if key_missing e then Ret (IdempotencyEntry0, False, None)
          else bind (mapIdempotencyKVError ctx (Some e)) (\<lambda>mapped. Ret (IdempotencyEntry0, False, mapped))
      | Inr it \<Rightarrow> ctx_Err ctx (\<lambda>err. case err of
          Some e \<Rightarrow> Ret (IdempotencyEntry0, False, Some e)
        | None \<Rightarrow> decodeKVEntry K (it_Value it))))"

definition Get ::
  "kernel \<Rightarrow> KVIdempotencyCoordinator option \<Rightarrow> ctx \<Rightarrow> string \<Rightarrow> (IdempotencyEntry \<times> bool) io" where
  "Get K c ctx key = bind (loadEntry K c (idempotencyContext ctx) key) (\<lambda>(entry, found, err).
      case err of Some e \<Rightarrow> Ret (IdempotencyEntry0, True) | None \<Rightarrow> Ret (entry, found))"

definition SetKV ::
  "kernel \<Rightarrow> KVIdempotencyCoordinator option \<Rightarrow> ctx \<Rightarrow> string \<Rightarrow> IdempotencyEntry \<Rightarrow> duration \<Rightarrow> unit io" where
  "SetKV K c ctx0 key entry ttl =
    (let ctx = idempotencyContext ctx0
     in if uninitialized c then Ret ()
        else if key = [] then Ret ()
        else bind (marshalKVEntry K entry ttl) (\<lambda>r. case r of
            Inl e \<Rightarrow> Ret ()
          | Inr d \<Rightarrow> ctx_Err ctx (\<lambda>err. case err of
              Some e \<Rightarrow> Ret ()
            | None \<Rightarrow> kv_Put (entryPrefix @ key) d (\<lambda>_. Ret ()))))"

section \<open>Claiming\<close>

definition acquired :: "string \<Rightarrow> IdempotencyClaim" where
  "acquired token = (claim_result IdempotencyClaimAcquired)\<lparr>cl_Token := token\<rparr>"

definition retryCreateClaim ::
  "ctx \<Rightarrow> string \<Rightarrow> string \<Rightarrow> data \<Rightarrow> (goerror + IdempotencyClaim) io" where
  "retryCreateClaim ctx claimKey token d = kv_Create claimKey d (\<lambda>r. case r of
      Inr _ \<Rightarrow> Ret (Inr (acquired token))
    | Inl createErr \<Rightarrow>
        if errors_Is createErr ErrKeyExists then Ret (Inr (claim_result IdempotencyClaimInProgress))
        else mapIdempotencyKVErr ctx createErr)"

definition replaceExpiredClaim ::
  "ctx \<Rightarrow> string \<Rightarrow> string \<Rightarrow> data \<Rightarrow> u64 \<Rightarrow> (goerror + IdempotencyClaim) io" where
  "replaceExpiredClaim ctx claimKey token d revision = kv_Update claimKey d revision (\<lambda>r. case r of
      Inr _ \<Rightarrow> Ret (Inr (acquired token))
    | Inl updateErr \<Rightarrow>
        if errors_Is updateErr ErrKeyRevisionMismatch
        then Ret (Inr (claim_result IdempotencyClaimInProgress))
        else if key_missing updateErr then
          ctx_Err ctx (\<lambda>ctxErr. case ctxErr of
              Some e \<Rightarrow> Ret (Inl e)
            | None \<Rightarrow> retryCreateClaim ctx claimKey token d)
        else mapIdempotencyKVErr ctx updateErr)"

definition resolveExistingClaim ::
  "ctx \<Rightarrow> string \<Rightarrow> string \<Rightarrow> string \<Rightarrow> instant \<Rightarrow> data \<Rightarrow> kv_item \<Rightarrow>
     (goerror + IdempotencyClaim) io" where
  "resolveExistingClaim ctx claimKey requestHash token now d existing =
    (case unmarshalClaim (it_Value existing) of
       Inl e \<Rightarrow> Ret (Inl (corrupted_claim [e]))
     | Inr activeClaim \<Rightarrow>
         if cp_Token activeClaim = [] \<or> cp_ExpiresAt activeClaim \<le> 0 then Ret (Inl (corrupted_claim []))
         else if cp_RequestHash activeClaim \<noteq> [] \<and> cp_RequestHash activeClaim \<noteq> requestHash
         then Ret (Inr (claim_result IdempotencyClaimConflict))
         else if now < cp_ExpiresAt activeClaim
         then Ret (Inr (claim_result IdempotencyClaimInProgress))
         else replaceExpiredClaim ctx claimKey token d (it_Revision existing))"

definition createClaim ::
  "ctx \<Rightarrow> string \<Rightarrow> string \<Rightarrow> string \<Rightarrow> instant \<Rightarrow> data \<Rightarrow> (goerror + IdempotencyClaim) io" where
  "createClaim ctx claimKey requestHash token now d = kv_Create claimKey d (\<lambda>r. case r of
      Inr _ \<Rightarrow> Ret (Inr (acquired token))
    | Inl createErr \<Rightarrow> ctx_Err ctx (\<lambda>ctxErr. case ctxErr of
        Some e \<Rightarrow> Ret (Inl e)
      | None \<Rightarrow> kv_Get claimKey (\<lambda>existing. case existing of
          Inl getErr \<Rightarrow>
            if key_missing getErr then
              (if \<not> errors_Is createErr ErrKeyExists then mapIdempotencyKVErr ctx createErr
               else retryCreateClaim ctx claimKey token d)
            else mapIdempotencyKVErr ctx getErr
        | Inr it \<Rightarrow> resolveExistingClaim ctx claimKey requestHash token now d it)))"

definition Claim ::
  "kernel \<Rightarrow> KVIdempotencyCoordinator option \<Rightarrow> ctx \<Rightarrow> string \<Rightarrow> string \<Rightarrow> duration \<Rightarrow>
     (goerror + IdempotencyClaim) io" where
  "Claim K c ctx0 key requestHash leaseTTL0 =
    (let ctx = idempotencyContext ctx0;
         leaseTTL = (if leaseTTL0 \<le> 0 then k_DefaultIdempotencyLeaseTTL K else leaseTTL0)
     in ctx_Err ctx (\<lambda>err. case err of
        Some e \<Rightarrow> Ret (Inl e)
      | None \<Rightarrow>
        if uninitialized c then Ret (Inl not_initialized)
        else if key = [] then Ret (Inl key_required)
        else bind (loadEntry K c ctx key) (\<lambda>(entry, found, err). case err of
          Some e \<Rightarrow> Ret (Inl e)
        | None \<Rightarrow>
          if found then
            (if ie_RequestHash entry \<noteq> [] \<and> ie_RequestHash entry \<noteq> requestHash
             then Ret (Inr (claim_result IdempotencyClaimConflict))
             else Ret (Inr ((claim_result IdempotencyClaimCompleted)\<lparr>cl_Entry := entry\<rparr>)))
          else time_Now (\<lambda>now. case idempotencyExpiry now leaseTTL of
            Inl e \<Rightarrow> Ret (Inl e)
          | Inr expiresAt \<Rightarrow> bind newKVClaimToken (\<lambda>tk. case tk of
              Inl e \<Rightarrow> Ret (Inl (app KindInternal ''failed to generate idempotency claim token'' [e]))
            | Inr token \<Rightarrow>
                (let d = marshalClaim \<lparr>cp_Token = token, cp_RequestHash = requestHash, cp_ExpiresAt = expiresAt\<rparr>
                 in ctx_Err ctx (\<lambda>err. case err of
                    Some e \<Rightarrow> Ret (Inl e)
                  | None \<Rightarrow> createClaim ctx (claimPrefix @ key) requestHash token now d)))))))"

section \<open>Completing, releasing and renewing\<close>

text \<open>
  \<open>renewOwnedClaim\<close> is the sequence shared by \<open>extendClaimForCompletion\<close> and \<open>RenewClaim\<close>: read
  the claim, require the caller's token and an unexpired lease, and write it back with a new expiry
  at the revision read.
\<close>

definition renewOwnedClaim :: "ctx \<Rightarrow> string \<Rightarrow> string \<Rightarrow> duration \<Rightarrow> (goerror + u64) io" where
  "renewOwnedClaim ctx claimKey token leaseTTL = kv_Get claimKey (\<lambda>item. case item of
      Inl e \<Rightarrow> mapIdempotencyKVErr ctx e
    | Inr it \<Rightarrow> (case unmarshalClaim (it_Value it) of
        Inl e \<Rightarrow> Ret (Inl (corrupted_claim [e]))
      | Inr activeClaim \<Rightarrow>
          if cp_Token activeClaim = [] \<or> cp_ExpiresAt activeClaim \<le> 0 then Ret (Inl (corrupted_claim []))
          else if cp_Token activeClaim \<noteq> token
          then Ret (Inl (app KindConflict ''idempotency claim is owned by another token'' []))
          else time_Now (\<lambda>now.
            if now \<ge> cp_ExpiresAt activeClaim
            then Ret (Inl (app KindConflict ''idempotency claim has expired'' []))
            else (case idempotencyExpiry now leaseTTL of
                Inl e \<Rightarrow> Ret (Inl e)
              | Inr expiresAt \<Rightarrow> ctx_Err ctx (\<lambda>ctxErr. case ctxErr of
                  Some e \<Rightarrow> Ret (Inl e)
                | None \<Rightarrow> kv_Update claimKey (marshalClaim (activeClaim\<lparr>cp_ExpiresAt := expiresAt\<rparr>))
                    (it_Revision it) (\<lambda>r. case r of
                      Inl e \<Rightarrow> mapIdempotencyKVErr ctx e
                    | Inr claimInfo \<Rightarrow> Ret (Inr claimInfo)))))))"

definition extendClaimForCompletion :: "kernel \<Rightarrow> ctx \<Rightarrow> string \<Rightarrow> string \<Rightarrow> (goerror + u64) io" where
  "extendClaimForCompletion K ctx key token =
     renewOwnedClaim ctx (claimPrefix @ key) token (k_DefaultIdempotencyLeaseTTL K)"

definition Complete ::
  "kernel \<Rightarrow> KVIdempotencyCoordinator option \<Rightarrow> ctx \<Rightarrow> string \<Rightarrow> string \<Rightarrow> IdempotencyEntry \<Rightarrow> duration \<Rightarrow>
     goerror option io" where
  "Complete K c ctx0 key token entry ttl =
    (let ctx = idempotencyContext ctx0
     in ctx_Err ctx (\<lambda>err. case err of
        Some e \<Rightarrow> Ret (Some e)
      | None \<Rightarrow>
        if uninitialized c then Ret (Some not_initialized)
        else if key = [] \<or> token = [] then Ret (Some token_required)
        else bind (marshalKVEntry K entry ttl) (\<lambda>r. case r of
          Inl e \<Rightarrow> Ret (Some e)
        | Inr entryData \<Rightarrow> bind (extendClaimForCompletion K ctx key token) (\<lambda>r. case r of
            Inl e \<Rightarrow> Ret (Some e)
          | Inr claimRevision \<Rightarrow> ctx_Err ctx (\<lambda>err. case err of
              Some e \<Rightarrow> Ret (Some e)
            | None \<Rightarrow> kv_Put (entryPrefix @ key) entryData (\<lambda>r. case r of
                Inl e \<Rightarrow> mapIdempotencyKVError ctx (Some e)
              | Inr _ \<Rightarrow> ctx_Err ctx (\<lambda>err. case err of
                  Some e \<Rightarrow> Ret (Some e)
                | None \<Rightarrow> kv_Delete (claimPrefix @ key) (Some claimRevision) (\<lambda>err. case err of
                    Some e \<Rightarrow> mapIdempotencyKVError ctx (Some e)
                  | None \<Rightarrow> Ret None))))))))"

definition Release ::
  "KVIdempotencyCoordinator option \<Rightarrow> ctx \<Rightarrow> string \<Rightarrow> string \<Rightarrow> goerror option io" where
  "Release c ctx0 key token =
    (let ctx = idempotencyContext ctx0; claimKey = claimPrefix @ key
     in ctx_Err ctx (\<lambda>err. case err of
        Some e \<Rightarrow> Ret (Some e)
      | None \<Rightarrow>
        if uninitialized c then Ret (Some not_initialized)
        else if key = [] \<or> token = [] then Ret (Some token_required)
        else kv_Get claimKey (\<lambda>item. case item of
          Inl e \<Rightarrow> if key_missing e then Ret None else mapIdempotencyKVError ctx (Some e)
        | Inr it \<Rightarrow> (case unmarshalClaim (it_Value it) of
            Inl e \<Rightarrow> Ret (Some (corrupted_claim [e]))
          | Inr activeClaim \<Rightarrow>
              if cp_Token activeClaim = token then
                kv_Delete claimKey (Some (it_Revision it)) (\<lambda>err.
                  case err of
                    Some e \<Rightarrow> if key_missing e then Ret None else mapIdempotencyKVError ctx (Some e)
                  | None \<Rightarrow> mapIdempotencyKVError ctx None)
              else Ret None))))"

definition RenewClaim ::
  "kernel \<Rightarrow> KVIdempotencyCoordinator option \<Rightarrow> ctx \<Rightarrow> string \<Rightarrow> string \<Rightarrow> duration \<Rightarrow> goerror option io" where
  "RenewClaim K c ctx0 key token leaseTTL0 =
    (let ctx = idempotencyContext ctx0;
         leaseTTL = (if leaseTTL0 \<le> 0 then k_DefaultIdempotencyLeaseTTL K else leaseTTL0)
     in ctx_Err ctx (\<lambda>err. case err of
        Some e \<Rightarrow> Ret (Some e)
      | None \<Rightarrow>
        if uninitialized c then Ret (Some not_initialized)
        else if key = [] \<or> token = [] then Ret (Some token_required)
        else bind (renewOwnedClaim ctx (claimPrefix @ key) token leaseTTL) (\<lambda>r. case r of
            Inl e \<Rightarrow> Ret (Some e) | Inr _ \<Rightarrow> Ret None)))"

section \<open>Provisioning the bucket\<close>

text \<open>The clients of the server are parameters only through their being nil.\<close>

abbreviation ledger_description :: string where
  "ledger_description \<equiv> ''Nexss Distributed Idempotency Ledger''"

definition removeIdempotencyBucketMaxAge :: "string \<Rightarrow> goerror option io" where
  "removeIdempotencyBucketMaxAge name = kv_Status (\<lambda>status. case status of
      Inl e \<Rightarrow> Ret (Some (MapErr e))
    | Inr ttl \<Rightarrow>
        if ttl \<le> 0 then Ret None
        else js_StreamInfo (''KV_'' @ name) (\<lambda>streamInfo. case streamInfo of
          Inl e \<Rightarrow> Ret (Some (MapErr e))
        | Inr streamConfig \<Rightarrow> js_UpdateStream (streamConfig\<lparr>sc_MaxAge := 0\<rparr>) (\<lambda>updateErr. case updateErr of
            Some e \<Rightarrow> Ret (Some (MapErr e))
          | None \<Rightarrow> kv_Status (\<lambda>status. case status of
              Inl e \<Rightarrow> Ret (Some (MapErr e))
            | Inr ttl \<Rightarrow>
                if ttl > 0 then Ret (Some (app KindInternal ''idempotency KV bucket still has a physical TTL'' []))
                else Ret None))))"

definition NewKVIdempotencyCoordinator ::
  "bool \<Rightarrow> string list \<Rightarrow> (goerror + KVIdempotencyCoordinator) io" where
  "NewKVIdempotencyCoordinator js_is_nil bucketName =
    (if js_is_nil then Ret (Inl (app KindBadRequest ''idempotency JetStream context is required'' []))
     else if length bucketName > 1
     then Ret (Inl (app KindBadRequest ''at most one idempotency bucket name may be specified'' []))
     else (let name = (case bucketName of [n] \<Rightarrow> if n \<noteq> [] then n else defaultIdempotencyBucket
                       | _ \<Rightarrow> defaultIdempotencyBucket);
               finish = (\<lambda>err. case err of
                   Some e \<Rightarrow> Ret (Inl (MapErr e))
                 | None \<Rightarrow> bind (removeIdempotencyBucketMaxAge name) (\<lambda>err. case err of
                     Some e \<Rightarrow> Ret (Inl e) | None \<Rightarrow> Ret (Inr \<lparr>kvc_kv = True\<rparr>)))
           in js_KeyValue name (\<lambda>err. case err of
                None \<Rightarrow> finish None
              | Some e \<Rightarrow>
                  if errors_Is e (NatsErr ''ErrBucketNotFound'')
                  then js_CreateKeyValue \<lparr>kc_Bucket = name, kc_Description = ledger_description,
                         kc_History = 1, kc_TTL = 0, kc_Storage = FileStorage\<rparr> finish
                  else finish (Some e))))"

definition EnsureIdempotencyBucket :: "bool \<Rightarrow> string \<Rightarrow> duration \<Rightarrow> goerror option io" where
  "EnsureIdempotencyBucket js_is_nil name ttl =
    (if js_is_nil then Ret (Some (app KindBadRequest ''idempotency JetStream context is required'' []))
     else if name = [] then Ret (Some (app KindBadRequest ''idempotency bucket name is required'' []))
     else if ttl < 0 then Ret (Some (app KindBadRequest ''idempotency bucket TTL must not be negative'' []))
     else js_CreateKeyValue \<lparr>kc_Bucket = name, kc_Description = ledger_description, kc_History = 0,
            kc_TTL = ttl, kc_Storage = FileStorage\<rparr> (\<lambda>err. case err of
         None \<Rightarrow> Ret None
       | Some e \<Rightarrow>
           if errors_Is e (NatsErr ''ErrStreamNameAlreadyInUse'') then Ret None
           else Ret (Some (MapErr (Wrapf ''tnats: failed to ensure idempotency bucket'' e)))))"

section \<open>Committed writes\<close>

text \<open>The writes of a trace that the bucket confirmed.\<close>

fun committed :: "event \<Rightarrow> bool" where
  "committed (KvPut k d, a) = (\<not> isl (a_rev a))"
| "committed (KvCreate k d, a) = (\<not> isl (a_rev a))"
| "committed (KvUpdate k d rv, a) = (\<not> isl (a_rev a))"
| "committed (KvDelete k rv, a) = (a_err a = None)"
| "committed _ = False"

abbreviation commits :: "(request, answer) trace \<Rightarrow> event list" where
  "commits tr \<equiv> filter committed tr"

lemma mapErr_trace:
  "replay (mapIdempotencyKVErr c e) tr = Some r \<Longrightarrow> (\<exists>e'. r = Inl e') \<and> commits tr = []"
  by (auto simp: mapIdempotencyKVErr_def trace_simps split: if_splits)

lemma mapError_trace:
  "replay (mapIdempotencyKVError c e) tr = Some r \<Longrightarrow> commits tr = [] \<and> (e \<noteq> None \<longrightarrow> r \<noteq> None)"
  by (auto simp: mapIdempotencyKVError_def MapError_def trace_simps split: if_splits)

lemma decode_trace: "replay (decodeKVEntry K d) tr = Some r \<Longrightarrow> commits tr = []"
  by (cases d; (cases "case d of Doc j \<Rightarrow> j | _ \<Rightarrow> JNull")?)
     (auto simp: decodeKVEntry_def Let_def trace_simps split: if_splits)

lemma marshal_trace: "replay (marshalKVEntry K d ttl) tr = Some r \<Longrightarrow> commits tr = []"
  by (auto simp: marshalKVEntry_def trace_simps)

lemma load_trace: "replay (loadEntry K c ctx key) tr = Some r \<Longrightarrow> commits tr = []"
  by (auto simp: loadEntry_def trace_simps dest: decode_trace mapError_trace split: if_splits)

lemma token_trace: "replay newKVClaimToken tr = Some r \<Longrightarrow> commits tr = []"
  by (auto simp: newKVClaimToken_def trace_simps)

lemma acquired_sel [simp]: "cl_State (acquired t) = IdempotencyClaimAcquired" "cl_Token (acquired t) = t"
  by (simp_all add: acquired_def claim_result_def)

lemma acquired_inject [simp]: "acquired s = acquired t \<longleftrightarrow> s = t"
  by (metis acquired_sel(2))

lemma claim_result_sel [simp]: "cl_State (claim_result st) = st"
  by (simp add: claim_result_def)

text \<open>
  What a step of claiming may leave behind: either nothing was committed and the claim was not
  acquired, or it was acquired by one committed write, of a kind given by \<open>Q\<close>, which is the last call.
\<close>

definition one_write ::
  "(request \<Rightarrow> bool) \<Rightarrow> string \<Rightarrow> (request, answer) trace \<Rightarrow> goerror + IdempotencyClaim \<Rightarrow> bool" where
  "one_write Q token tr r \<longleftrightarrow>
     (commits tr = [] \<and> (\<forall>cl. r = Inr cl \<longrightarrow> cl_State cl \<noteq> IdempotencyClaimAcquired)) \<or>
     (r = Inr (acquired token) \<and> (\<exists>q a tr0. Q q \<and> commits tr = [(q, a)] \<and> tr = tr0 @ [(q, a)]))"

lemma retryCreateClaim_write:
  "replay (retryCreateClaim c k token d) tr = Some r \<Longrightarrow> one_write (\<lambda>q. q = KvCreate k d) token tr r"
  by (auto simp: retryCreateClaim_def trace_simps one_write_def dest: mapErr_trace)

lemma one_write_mono: "one_write Q token tr r \<Longrightarrow> (\<And>q. Q q \<Longrightarrow> Q' q) \<Longrightarrow> one_write Q' token tr r"
  by (auto simp: one_write_def)

lemma one_write_Cons [simp]: "\<not> committed e \<Longrightarrow> one_write Q token (e # tr) r = one_write Q token tr r"
  by (auto simp: one_write_def Cons_eq_append_conv)

lemma one_write_append [simp]: "commits tr1 = [] \<Longrightarrow> one_write Q token (tr1 @ tr) r = one_write Q token tr r"
  by (induction tr1) (auto split: if_splits)

lemma one_write_last [simp]:
  "committed (q, a) \<Longrightarrow> one_write Q token [(q, a)] r \<longleftrightarrow> r = Inr (acquired token) \<and> Q q"
  by (auto simp: one_write_def)

lemma one_write_Nil [simp]:
  "one_write Q token [] r \<longleftrightarrow> (\<forall>cl. r = Inr cl \<longrightarrow> cl_State cl \<noteq> IdempotencyClaimAcquired)"
  by (auto simp: one_write_def)

lemma one_write_mapErr:
  "replay (mapIdempotencyKVErr c e) tr = Some r \<Longrightarrow> one_write Q token tr r"
  by (auto simp: one_write_def dest: mapErr_trace)

lemma replaceExpiredClaim_write:
  "replay (replaceExpiredClaim c k token d rv) tr = Some r \<Longrightarrow>
     one_write (\<lambda>q. q = KvCreate k d \<or> q = KvUpdate k d rv) token tr r"
  by (auto simp: replaceExpiredClaim_def trace_simps split: if_splits
      intro: one_write_mapErr one_write_mono [OF retryCreateClaim_write])

text \<open>
  When an existing claim may be replaced: it decodes to a well-formed claim, of the same request
  or with no request hash, whose lease has run out at the clock reading \<open>now\<close>.
\<close>

definition replaceable :: "string \<Rightarrow> instant \<Rightarrow> kv_item \<Rightarrow> bool" where
  "replaceable requestHash now it \<longleftrightarrow> (\<exists>old. unmarshalClaim (it_Value it) = Inr old \<and>
     cp_Token old \<noteq> [] \<and> 0 < cp_ExpiresAt old \<and> cp_ExpiresAt old \<le> now \<and>
     (cp_RequestHash old = [] \<or> cp_RequestHash old = requestHash))"

lemma resolveExistingClaim_write:
  "replay (resolveExistingClaim c k h token now d it) tr = Some r \<Longrightarrow>
     one_write (\<lambda>q. replaceable h now it \<and> (q = KvCreate k d \<or> q = KvUpdate k d (it_Revision it))) token tr r"
  by (auto simp: resolveExistingClaim_def replaceable_def trace_simps split: if_splits
      elim!: one_write_mono [OF replaceExpiredClaim_write])

text \<open>The write by which a claim is acquired, given what was read before it.\<close>

definition acquiring :: "string \<Rightarrow> string \<Rightarrow> instant \<Rightarrow> data \<Rightarrow> event list \<Rightarrow> request \<Rightarrow> bool" where
  "acquiring k h now d tr q \<longleftrightarrow> q = KvCreate k d \<or>
     (\<exists>a it. (KvGet k, a) \<in> set tr \<and> a_item a = Inr it \<and> replaceable h now it \<and>
        q = KvUpdate k d (it_Revision it))"

lemma acquiring_create: "acquiring k h now d tr (KvCreate k d)"
  by (simp add: acquiring_def)

lemma acquiring_update:
  "(KvGet k, a) \<in> set tr \<Longrightarrow> a_item a = Inr it \<Longrightarrow> replaceable h now it \<Longrightarrow>
     acquiring k h now d tr (KvUpdate k d (it_Revision it))"
  by (auto simp: acquiring_def)

lemma acquiring_mono: "acquiring k h now d tr q \<Longrightarrow> set tr \<subseteq> set tr' \<Longrightarrow> acquiring k h now d tr' q"
  by (auto simp: acquiring_def)

lemma createClaim_write:
  "replay (createClaim c k h token now d) tr = Some r \<Longrightarrow>
     one_write (acquiring k h now d tr) token tr r"
  by (auto simp: createClaim_def trace_simps split: if_splits
      intro: one_write_mapErr acquiring_create
      elim!: one_write_mono [OF resolveExistingClaim_write] one_write_mono [OF retryCreateClaim_write])
     (auto intro: acquiring_create acquiring_update)

definition lease :: "kernel \<Rightarrow> duration \<Rightarrow> duration" where
  "lease K ttl = (if ttl \<le> 0 then k_DefaultIdempotencyLeaseTTL K else ttl)"

definition claim_of :: "string \<Rightarrow> string \<Rightarrow> int \<Rightarrow> kvClaimPayload" where
  "claim_of token h e = \<lparr>cp_Token = token, cp_RequestHash = h, cp_ExpiresAt = e\<rparr>"

lemma one_writeE:
  assumes "one_write Q token tr r"
  obtains (none) "commits tr = []" "\<And>cl. r = Inr cl \<Longrightarrow> cl_State cl \<noteq> IdempotencyClaimAcquired"
  | (one) q a where "r = Inr (acquired token)" "commits tr = [(q, a)]" "Q q"
  using assms by (auto simp: one_write_def)

text \<open>
  A claim acquired by one committed write: the claim document of the caller's token and request hash
  with the lease counted from a clock reading, created, or put over a replaceable claim at the
  revision read.
\<close>

definition acquired_by :: "kernel \<Rightarrow> string \<Rightarrow> string \<Rightarrow> duration \<Rightarrow> event list \<Rightarrow> string \<Rightarrow> bool" where
  "acquired_by K key h ttl tr token \<longleftrightarrow> (\<exists>clock expiry q a. (TimeNow, clock) \<in> set tr \<and>
     idempotencyExpiry (a_now clock) (lease K ttl) = Inr expiry \<and> commits tr = [(q, a)] \<and>
     acquiring (claimPrefix @ key) h (a_now clock) (marshalClaim (claim_of token h expiry)) tr q)"

lemma acquired_byI:
  "acquiring (claimPrefix @ key) h (a_now clock) (marshalClaim (claim_of token h expiry)) tr' q \<Longrightarrow>
   idempotencyExpiry (a_now clock) (lease K ttl) = Inr expiry \<Longrightarrow> commits tr = [(q, a)] \<Longrightarrow>
   (TimeNow, clock) \<in> set tr \<Longrightarrow> set tr' \<subseteq> set tr \<Longrightarrow> acquired_by K key h ttl tr token"
  unfolding acquired_by_def by (blast intro: acquiring_mono)

lemma Claim_write:
  assumes "replay (Claim K c ctx key h ttl) tr = Some r"
  shows "(commits tr = [] \<and> (\<forall>cl. r = Inr cl \<longrightarrow> cl_State cl \<noteq> IdempotencyClaimAcquired)) \<or>
    (\<exists>token. r = Inr (acquired token) \<and> acquired_by K key h ttl tr token)"
  using assms
  by (auto simp: Claim_def Let_def lease_def [symmetric] claim_of_def [symmetric] trace_simps split: if_splits
      dest!: load_trace token_trace createClaim_write elim!: one_writeE)
     (auto intro: acquired_byI)

text \<open>
  A claim extended by its owner: the document read carries the caller's token and is unexpired at a
  clock reading; it is written back at the revision read with only its expiry changed.
\<close>

definition owned :: "string \<Rightarrow> instant \<Rightarrow> kv_item \<Rightarrow> kvClaimPayload \<Rightarrow> bool" where
  "owned token now it cl \<longleftrightarrow> unmarshalClaim (it_Value it) = Inr cl \<and> cp_Token cl = token \<and> token \<noteq> [] \<and>
     0 < cp_ExpiresAt cl \<and> now < cp_ExpiresAt cl"

definition renewed_by :: "string \<Rightarrow> string \<Rightarrow> duration \<Rightarrow> event list \<Rightarrow> request \<Rightarrow> bool" where
  "renewed_by k token ttl tr q \<longleftrightarrow> (\<exists>ra it cl clock expiry.
     (KvGet k, ra) \<in> set tr \<and> a_item ra = Inr it \<and> (TimeNow, clock) \<in> set tr \<and>
     owned token (a_now clock) it cl \<and> idempotencyExpiry (a_now clock) ttl = Inr expiry \<and>
     q = KvUpdate k (marshalClaim (cl\<lparr>cp_ExpiresAt := expiry\<rparr>)) (it_Revision it))"

lemma renewed_byI:
  "(KvGet k, ra) \<in> set tr \<Longrightarrow> a_item ra = Inr it \<Longrightarrow> (TimeNow, clock) \<in> set tr \<Longrightarrow>
   owned token (a_now clock) it cl \<Longrightarrow> idempotencyExpiry (a_now clock) ttl = Inr expiry \<Longrightarrow>
   renewed_by k token ttl tr (KvUpdate k (marshalClaim (cl\<lparr>cp_ExpiresAt := expiry\<rparr>)) (it_Revision it))"
  unfolding renewed_by_def by blast

lemma renewed_by_more [intro]:
  "renewed_by k token ttl tr q \<Longrightarrow> renewed_by k token ttl (e # tr) q"
  "renewed_by k token ttl tr q \<Longrightarrow> renewed_by k token ttl (tr @ tr') q"
  "renewed_by k token ttl tr q \<Longrightarrow> renewed_by k token ttl (tr' @ tr) q"
  unfolding renewed_by_def by (fastforce+)

lemma renewOwnedClaim_write:
  assumes "replay (renewOwnedClaim ctx k token ttl) tr = Some r"
  obtains (none) e where "commits tr = []" "r = Inl e"
  | (one) q a rv where "r = Inr rv" "a_rev a = Inr rv" "commits tr = [(q, a)]" "renewed_by k token ttl tr q"
proof -
  have "(commits tr = [] \<and> (\<exists>e. r = Inl e)) \<or>
     (\<exists>q a rv. r = Inr rv \<and> a_rev a = Inr rv \<and> commits tr = [(q, a)] \<and> renewed_by k token ttl tr q)"
    using assms
    by (auto simp: renewOwnedClaim_def trace_simps split: if_splits dest!: mapErr_trace)
       (auto simp: owned_def intro!: renewed_byI)
  then show thesis using that by blast
qed

lemma RenewClaim_write:
  assumes "replay (RenewClaim K c ctx key token ttl) tr = Some r"
  shows "(commits tr = [] \<and> r \<noteq> None) \<or>
    (r = None \<and> (\<exists>q a. commits tr = [(q, a)] \<and> renewed_by (claimPrefix @ key) token (lease K ttl) tr q))"
  using assms
  by (auto simp: RenewClaim_def Let_def lease_def [symmetric] trace_simps split: if_splits
      elim!: renewOwnedClaim_write)

lemma Release_write:
  assumes "replay (Release c ctx key token) tr = Some r"
  shows "commits tr = [] \<or> (\<exists>ra it cl a. (KvGet (claimPrefix @ key), ra) \<in> set tr \<and> a_item ra = Inr it \<and>
     unmarshalClaim (it_Value it) = Inr cl \<and> cp_Token cl = token \<and> token \<noteq> [] \<and>
     commits tr = [(KvDelete (claimPrefix @ key) (Some (it_Revision it)), a)])"
  using assms
  by (auto simp: Release_def Let_def trace_simps split: if_splits dest!: mapError_trace)

lemma marshalKVEntry_doc:
  "replay (marshalKVEntry K entry ttl) tr = Some (Inr d) \<longleftrightarrow>
   (\<exists>a j expiry. tr = [(TimeNow, a)] \<and> idempotencyExpiry (a_now a) ttl = Inr expiry \<and>
      k_marshalEntry K entry = Inr j \<and> d = Doc (JObj [(''entry'', j), (''exp'', JNum expiry)]))"
  by (cases "k_marshalEntry K entry") (auto simp: marshalKVEntry_def trace_simps)

text \<open>The document of an entry whose retention counts from a clock reading of the trace.\<close>

definition entry_doc :: "kernel \<Rightarrow> IdempotencyEntry \<Rightarrow> duration \<Rightarrow> event list \<Rightarrow> data \<Rightarrow> bool" where
  "entry_doc K entry ttl tr d \<longleftrightarrow> (\<exists>clock j expiry. (TimeNow, clock) \<in> set tr \<and>
     idempotencyExpiry (a_now clock) ttl = Inr expiry \<and> k_marshalEntry K entry = Inr j \<and>
     d = Doc (JObj [(''entry'', j), (''exp'', JNum expiry)]))"

lemma marshal_entry_doc:
  "replay (marshalKVEntry K entry ttl) tr = Some (Inr d) \<Longrightarrow> entry_doc K entry ttl tr d \<and> commits tr = []"
  by (auto simp: marshalKVEntry_doc entry_doc_def)

lemma entry_doc_more [intro]:
  "entry_doc K entry ttl tr d \<Longrightarrow> entry_doc K entry ttl (e # tr) d"
  "entry_doc K entry ttl tr d \<Longrightarrow> entry_doc K entry ttl (tr @ tr') d"
  "entry_doc K entry ttl tr d \<Longrightarrow> entry_doc K entry ttl (tr' @ tr) d"
  unfolding entry_doc_def by (fastforce+)

lemma Complete_writes:
  assumes "replay (Complete K c ctx key token entry ttl) tr = Some r"
  shows "(commits tr = [] \<and> r \<noteq> None) \<or>
    (\<exists>q a rv. renewed_by (claimPrefix @ key) token (k_DefaultIdempotencyLeaseTTL K) tr q \<and> a_rev a = Inr rv \<and>
      ((commits tr = [(q, a)] \<and> r \<noteq> None) \<or>
       (\<exists>d b. entry_doc K entry ttl tr d \<and> ((commits tr = [(q, a), (KvPut (entryPrefix @ key) d, b)] \<and> r \<noteq> None) \<or>
         (\<exists>e. commits tr = [(q, a), (KvPut (entryPrefix @ key) d, b),
               (KvDelete (claimPrefix @ key) (Some rv), e)] \<and> r = None)))))"
  using assms
  by (auto simp: Complete_def extendClaimForCompletion_def Let_def trace_simps split: if_splits
      elim!: renewOwnedClaim_write dest!: mapError_trace marshal_entry_doc)
     ((blast dest: marshal_trace)+)

section \<open>Documents and expiry\<close>

lemma field_match_consts [simp]:
  "field_match ''token'' ''token''" "field_match ''req_hash'' ''req_hash''" "field_match ''exp'' ''exp''"
  "field_match ''entry'' ''entry''"
  "\<not> field_match ''token'' ''req_hash''" "\<not> field_match ''token'' ''exp''" "\<not> field_match ''req_hash'' ''exp''"
  "\<not> field_match ''entry'' ''exp''"
  by (simp_all add: field_match_def lower_char_def)

lemma unmarshal_marshal_claim [simp]:
  "in_int64 (cp_ExpiresAt cl) \<Longrightarrow> unmarshalClaim (marshalClaim cl) = Inr cl"
  by (simp add: unmarshalClaim_def marshalClaim_def unmarshal_string_def unmarshal_int64_def
      kvClaimPayload0_def)

lemma idempotencyExpiry_cases:
  assumes "in_int64 now" "in_int64 ttl"
  shows "idempotencyExpiry now ttl =
    (if ttl \<le> 0 then Inr 0
     else if now + ttl > maxInt64 then Inl (app KindBadRequest ''idempotency TTL is too large'' [])
     else Inr (now + ttl))"
  using assms unfolding idempotencyExpiry_def time_Sub_def by (auto simp: in_int64_def)

text \<open>
  The expiry of a lease or entry is computed without wrap-around: for a clock reading and a
  duration of 64 bits the result is 0 (no expiry) for a duration that is not positive, exactly the sum
  when that is a 64-bit instant, and a bad-request error otherwise.
\<close>

theorem idempotencyExpiry_exact:
  assumes "in_int64 now" "in_int64 ttl"
  shows "idempotencyExpiry now ttl =
    (if ttl \<le> 0 then Inr 0
     else if now + ttl > maxInt64 then Inl (app KindBadRequest ''idempotency TTL is too large'' [])
     else Inr (now + ttl))"
  using assms by (rule idempotencyExpiry_cases)

theorem idempotencyExpiry_exact_witness:
  "in_int64 1700000000000000000 \<and> in_int64 maxInt64 \<and>
   isl (idempotencyExpiry 1700000000000000000 maxInt64)"
  using idempotencyExpiry_exact [of 1700000000000000000 maxInt64] by (simp add: in_int64_def)

text \<open>
  C36: A stored result survives its document: what \<open>marshalKVEntry\<close> writes at a clock reading is read
  back by \<open>decodeKVEntry\<close> as the same entry, for ever when the retention is not positive, and else
  exactly while the clock is before the sum of that reading and the retention.
\<close>

theorem entry_roundtrip:
  assumes "kernel_ok K" "replay (marshalKVEntry K entry ttl) [(TimeNow, clock)] = Some (Inr d)"
    and "0 \<le> a_now clock" "in_int64 (a_now clock)" "in_int64 ttl"
  shows "decodeKVEntry K d =
    (if ttl \<le> 0 then Ret (entry, True, None)
     else time_Now (\<lambda>now. if now < a_now clock + ttl then Ret (entry, True, None)
                          else Ret (IdempotencyEntry0, False, None)))"
proof -
  obtain j expiry where e: "idempotencyExpiry (a_now clock) ttl = Inr expiry"
    and j: "k_marshalEntry K entry = Inr j" "d = Doc (JObj [(''entry'', j), (''exp'', JNum expiry)])"
    using assms(2) by (auto simp: marshalKVEntry_doc)
  have [simp]: "j \<noteq> JNull" "k_unmarshalEntry K IdempotencyEntry0 j = Inr entry"
    using assms(1) j(1) by (auto simp: kernel_ok_def)
  have "in_int64 expiry" "expiry = (if ttl \<le> 0 then 0 else a_now clock + ttl)"
    using e assms(3-5) by (auto simp: idempotencyExpiry_cases in_int64_def split: if_splits)
  then show ?thesis
    using assms(3) by (auto simp: j(2) decodeKVEntry_def unmarshal_int64_def fun_eq_iff)
qed

text \<open>A concrete kernel, to evaluate the programs on.\<close>

definition sampleKernel :: kernel where
  "sampleKernel = \<lparr>k_DefaultIdempotencyLeaseTTL = 30 * Second,
     k_marshalEntry = (\<lambda>e. Inr (JObj [(''status'', JNum (ie_Status e)), (''body'', JStr (ie_Body e)),
       (''stored_at'', JNum (ie_StoredAt e)), (''request_hash'', JStr (ie_RequestHash e))])),
     k_unmarshalEntry = (\<lambda>_ j. case j of
         JObj [(_, JNum st), (_, JStr b), (_, JNum at), (_, JStr h)] \<Rightarrow>
           Inr \<lparr>ie_Status = st, ie_Body = b, ie_StoredAt = at, ie_RequestHash = h\<rparr>
       | _ \<Rightarrow> Inl (plain_error ''json: cannot unmarshal''))\<rparr>"

lemma sampleKernel_ok [simp]: "kernel_ok sampleKernel"
  by (auto simp: kernel_ok_def sampleKernel_def)

lemma sampleKernel_sel [simp]:
  "k_DefaultIdempotencyLeaseTTL sampleKernel = 30 * Second" "\<exists>j. k_marshalEntry sampleKernel e = Inr j"
  "\<not> isl (k_marshalEntry sampleKernel e)"
  "case_sum f g (k_marshalEntry sampleKernel e) = g (projr (k_marshalEntry sampleKernel e))"
  by (simp_all add: sampleKernel_def)

theorem entry_roundtrip_witness:
  "\<exists>d. replay (marshalKVEntry sampleKernel IdempotencyEntry0 Second)
        [(TimeNow, answer0\<lparr>a_now := 5\<rparr>)] = Some (Inr d) \<and>
     replay (decodeKVEntry sampleKernel d) [(TimeNow, answer0\<lparr>a_now := Second\<rparr>)]
       = Some (IdempotencyEntry0, True, None)"
proof -
  have ex: "\<exists>d. replay (marshalKVEntry sampleKernel IdempotencyEntry0 Second)
      [(TimeNow, answer0\<lparr>a_now := 5\<rparr>)] = Some (Inr d)"
    by (simp add: marshalKVEntry_doc idempotencyExpiry_cases in_int64_def)
  then obtain d where "replay (marshalKVEntry sampleKernel IdempotencyEntry0 Second)
      [(TimeNow, answer0\<lparr>a_now := 5\<rparr>)] = Some (Inr d)" ..
  from entry_roundtrip [OF sampleKernel_ok this] this show ?thesis
    by (auto simp: in_int64_def replay.simps)
qed

section \<open>What the methods write\<close>

text \<open>
  C2: \<open>Claim\<close> changes the bucket at most once, and exactly when it reports the claim as acquired.
  The one write stores the caller's fresh token, request hash and a lease counted from a clock reading
  under the claim key; it either creates the key or replaces, at the revision read, a claim for the
  same request whose lease had run out at that reading.
\<close>

theorem Claim_one_write:
  assumes "replay (Claim K c ctx key h ttl) tr = Some r"
  shows "(commits tr = [] \<and> (\<forall>cl. r = Inr cl \<longrightarrow> cl_State cl \<noteq> IdempotencyClaimAcquired)) \<or>
    (\<exists>token. r = Inr (acquired token) \<and> acquired_by K key h ttl tr token)"
  using assms by (rule Claim_write)

definition sampleCoordinator :: "KVIdempotencyCoordinator option" where
  "sampleCoordinator = Some \<lparr>kvc_kv = True\<rparr>"

definition not_found :: goerror where
  "not_found = sentinel_error ErrKeyNotFound"

lemma key_missing_not_found [simp]: "key_missing not_found" "\<not> errors_Is not_found ErrKeyExists"
  by (simp_all add: key_missing_def not_found_def sentinel_error_def)

lemma uninitialized_sample [simp]: "\<not> uninitialized sampleCoordinator"
  by (simp add: uninitialized_def sampleCoordinator_def)

definition sampleClaimTrace :: "event list" where
  "sampleClaimTrace =
    [(KvGet (entryPrefix @ ''k''), answer0\<lparr>a_item := Inl not_found\<rparr>), (TimeNow, answer0),
     (RandRead 16, answer0\<lparr>a_bytes := Inr ''A''\<rparr>), (KvCreate (claimPrefix @ ''k'') (marshalClaim
        \<lparr>cp_Token = ''41'', cp_RequestHash = ''h'', cp_ExpiresAt = 30 * Second\<rparr>), answer0)]"

lemma sample_claim:
  "ctx = NilCtx \<or> ctx = Background \<Longrightarrow>
   replay (Claim sampleKernel sampleCoordinator ctx ''k'' ''h'' 0) sampleClaimTrace = Some (Inr (acquired ''41''))"
  by (auto simp: sampleClaimTrace_def Claim_def Let_def loadEntry_def createClaim_def newKVClaimToken_def
      idempotencyContext_def ctx_Err_def replay.simps idempotencyExpiry_cases in_int64_def hex_EncodeToString_def
      hex_digit_def)

theorem Claim_one_write_witness:
  "acquired_by sampleKernel ''k'' ''h'' 0 sampleClaimTrace ''41''"
  using Claim_one_write [OF sample_claim [of NilCtx]] by simp

text \<open>
  C3: \<open>Complete\<close> commits at most three writes, always in the order of the source: the owned claim is
  extended, the result is stored, the claim is deleted at the very revision the extension produced.
  It reports success exactly when all three are committed, so a deleted claim implies a stored result.
\<close>

theorem Complete_order:
  assumes "replay (Complete K c ctx key token entry ttl) tr = Some r"
  shows "(commits tr = [] \<and> r \<noteq> None) \<or>
    (\<exists>q a rv. renewed_by (claimPrefix @ key) token (k_DefaultIdempotencyLeaseTTL K) tr q \<and> a_rev a = Inr rv \<and>
      ((commits tr = [(q, a)] \<and> r \<noteq> None) \<or>
       (\<exists>d b. entry_doc K entry ttl tr d \<and> ((commits tr = [(q, a), (KvPut (entryPrefix @ key) d, b)] \<and> r \<noteq> None) \<or>
         (\<exists>e. commits tr = [(q, a), (KvPut (entryPrefix @ key) d, b),
               (KvDelete (claimPrefix @ key) (Some rv), e)] \<and> r = None)))))"
  using assms by (rule Complete_writes)

definition sampleItem :: kv_item where
  "sampleItem = \<lparr>it_Key = claimPrefix @ ''k'',
     it_Value = marshalClaim \<lparr>cp_Token = ''t'', cp_RequestHash = ''h'', cp_ExpiresAt = Second\<rparr>,
     it_Revision = 7, it_Created = 0\<rparr>"

theorem Complete_order_witness:
  "\<exists>tr. replay (Complete sampleKernel sampleCoordinator NilCtx ''k'' ''t'' IdempotencyEntry0 0) tr = Some None \<and>
     length (commits tr) = 3"
proof -
  let ?cl = "\<lparr>cp_Token = ''t'', cp_RequestHash = ''h'', cp_ExpiresAt = 30 * Second\<rparr>"
  let ?d = "Doc (JObj [(''entry'', projr (k_marshalEntry sampleKernel IdempotencyEntry0)), (''exp'', JNum 0)])"
  let ?tr = "[(TimeNow, answer0), (KvGet (claimPrefix @ ''k''), answer0\<lparr>a_item := Inr sampleItem\<rparr>), (TimeNow, answer0),
     (KvUpdate (claimPrefix @ ''k'') (marshalClaim ?cl) 7, answer0\<lparr>a_rev := Inr 8\<rparr>),
     (KvPut (entryPrefix @ ''k'') ?d, answer0\<lparr>a_rev := Inr 9\<rparr>), (KvDelete (claimPrefix @ ''k'') (Some 8), answer0)]"
  have r: "replay (Complete sampleKernel sampleCoordinator NilCtx ''k'' ''t'' IdempotencyEntry0 0) ?tr = Some None"
    by (simp add: Complete_def Let_def extendClaimForCompletion_def renewOwnedClaim_def marshalKVEntry_def
        idempotencyContext_def ctx_Err_def replay.simps idempotencyExpiry_cases in_int64_def sampleItem_def)
  from Complete_order [OF this] r show ?thesis by auto
qed

text \<open>
  \<open>Release\<close> changes the bucket only by deleting a claim that carries the caller's token, at the
  revision at which it was read; a claim taken over by another token is left alone.
\<close>

theorem Release_own_claim:
  assumes "replay (Release c ctx key token) tr = Some r"
  shows "commits tr = [] \<or> (\<exists>ra it cl a. (KvGet (claimPrefix @ key), ra) \<in> set tr \<and> a_item ra = Inr it \<and>
     unmarshalClaim (it_Value it) = Inr cl \<and> cp_Token cl = token \<and> token \<noteq> [] \<and>
     commits tr = [(KvDelete (claimPrefix @ key) (Some (it_Revision it)), a)])"
  using assms by (rule Release_write)

theorem Release_own_claim_witness:
  "\<exists>tr a. replay (Release sampleCoordinator NilCtx ''k'' ''t'') tr = Some None \<and>
     commits tr = [(KvDelete (claimPrefix @ ''k'') (Some 7), a)]"
proof -
  let ?tr = "[(KvGet (claimPrefix @ ''k''), answer0\<lparr>a_item := Inr sampleItem\<rparr>),
     (KvDelete (claimPrefix @ ''k'') (Some 7), answer0)]"
  have r: "replay (Release sampleCoordinator NilCtx ''k'' ''t'') ?tr = Some None"
    by (simp add: Release_def Let_def idempotencyContext_def ctx_Err_def replay.simps in_int64_def sampleItem_def
        mapIdempotencyKVError_def MapError_def)
  from Release_own_claim [OF this] r show ?thesis by auto
qed

text \<open>
  \<open>RenewClaim\<close> succeeds exactly when it has committed one write, and that write only moves the
  expiry of a claim that carried the caller's token and was unexpired at a clock reading, at the
  revision read and with the new lease counted from that reading.
\<close>

theorem RenewClaim_owner:
  assumes "replay (RenewClaim K c ctx key token ttl) tr = Some r"
  shows "(commits tr = [] \<and> r \<noteq> None) \<or>
    (r = None \<and> (\<exists>q a. commits tr = [(q, a)] \<and> renewed_by (claimPrefix @ key) token (lease K ttl) tr q))"
  using assms by (rule RenewClaim_write)

theorem RenewClaim_owner_witness:
  "\<exists>tr q a. replay (RenewClaim sampleKernel sampleCoordinator NilCtx ''k'' ''t'' 0) tr = Some None \<and>
     commits tr = [(q, a)] \<and> renewed_by (claimPrefix @ ''k'') ''t'' (30 * Second) tr q"
proof -
  let ?cl = "\<lparr>cp_Token = ''t'', cp_RequestHash = ''h'', cp_ExpiresAt = 30 * Second\<rparr>"
  let ?tr = "[(KvGet (claimPrefix @ ''k''), answer0\<lparr>a_item := Inr sampleItem\<rparr>), (TimeNow, answer0),
     (KvUpdate (claimPrefix @ ''k'') (marshalClaim ?cl) 7, answer0\<lparr>a_rev := Inr 8\<rparr>)]"
  have r: "replay (RenewClaim sampleKernel sampleCoordinator NilCtx ''k'' ''t'' 0) ?tr = Some None"
    by (simp add: RenewClaim_def Let_def renewOwnedClaim_def
        idempotencyContext_def ctx_Err_def replay.simps idempotencyExpiry_cases in_int64_def sampleItem_def)
  from RenewClaim_owner [OF this] r show ?thesis by (auto simp: lease_def)
qed

section \<open>What the methods report\<close>

text \<open>
  An initialised \<open>Claim\<close> first loads the stored result and lets it decide.  A failed load is
  reported; a stored result of the same request, or one that records no request, is replayed as
  completed; one of another request is a conflict; in these cases nothing else is called.  Only when no
  result is stored may the claim be acquired.
\<close>

theorem Claim_after_load:
  assumes "\<not> uninitialized c" "key \<noteq> []" "ctx = NilCtx \<or> ctx = Background"
    and "replay (loadEntry K c Background key) tr1 = Some (entry, found, err)" "err \<noteq> None \<or> found"
  shows "replay (Claim K c ctx key h ttl) (tr1 @ tr2) =
    (if tr2 \<noteq> [] then None else Some (case err of
       Some e \<Rightarrow> Inl e
     | None \<Rightarrow> Inr (if ie_RequestHash entry \<noteq> [] \<and> ie_RequestHash entry \<noteq> h
         then claim_result IdempotencyClaimConflict
         else (claim_result IdempotencyClaimCompleted)\<lparr>cl_Entry := entry\<rparr>)))"
proof -
  have "idempotencyContext ctx = Background" using assms(3) by (auto simp: idempotencyContext_def)
  then show ?thesis
    using assms(1,2,5)
    by (auto simp: Claim_def Let_def ctx_Err_def replay_bind_append [OF assms(4)] replay.simps split: option.splits)
qed

theorem Claim_after_load_witness:
  "replay (Claim sampleKernel sampleCoordinator NilCtx ''k'' ''h'' 0)
     [(KvGet (entryPrefix @ ''k''), answer0\<lparr>a_item := Inr \<lparr>it_Key = [], it_Value = Doc (JObj
        [(''entry'', projr (k_marshalEntry sampleKernel (IdempotencyEntry0\<lparr>ie_RequestHash := ''other''\<rparr>))),
         (''exp'', JNum 0)]), it_Revision = 1, it_Created = 0\<rparr>\<rparr>)]
   = Some (Inr (claim_result IdempotencyClaimConflict))"
proof -
  let ?e = "IdempotencyEntry0\<lparr>ie_RequestHash := ''other''\<rparr>"
  let ?tr = "[(KvGet (entryPrefix @ ''k''), answer0\<lparr>a_item := Inr \<lparr>it_Key = [], it_Value = Doc (JObj
        [(''entry'', projr (k_marshalEntry sampleKernel ?e)), (''exp'', JNum 0)]),
        it_Revision = 1, it_Created = 0\<rparr>\<rparr>)]"
  have "replay (loadEntry sampleKernel sampleCoordinator Background ''k'') ?tr = Some (?e, True, None)"
    by (simp add: loadEntry_def ctx_Err_def replay.simps decodeKVEntry_def sampleKernel_def unmarshal_int64_def
        in_int64_def IdempotencyEntry0_def)
  from Claim_after_load [OF _ _ _ this, where ctx = NilCtx and h = "''h''" and ttl = 0 and ?tr2.0 = "[]"]
  show ?thesis by simp
qed

text \<open>
  A coordinator is handed out only for a bucket without a physical expiry: the last call of a
  successful construction is a status query that reports no time to live.
\<close>

theorem NewKVIdempotencyCoordinator_no_ttl:
  assumes "replay (NewKVIdempotencyCoordinator js_is_nil names) tr = Some (Inr c)"
  shows "\<exists>a t. last tr = (KvStatusTTL, a) \<and> a_ttl a = Inr t \<and> t \<le> 0 \<and> kvc_kv c"
  using assms
  by (auto simp: NewKVIdempotencyCoordinator_def removeIdempotencyBucketMaxAge_def Let_def trace_simps
      split: if_splits)

theorem NewKVIdempotencyCoordinator_no_ttl_witness:
  "\<exists>tr c a. replay (NewKVIdempotencyCoordinator False []) tr = Some (Inr c) \<and>
     last tr = (KvStatusTTL, a) \<and> length tr = 5"
proof -
  let ?sc = "\<lparr>sc_Name = ''KV_'' @ defaultIdempotencyBucket, sc_Subjects = [], sc_Storage = FileStorage,
     sc_Retention = LimitsPolicy, sc_Discard = DiscardNew, sc_MaxAge = Second, sc_Rest = 0\<rparr>"
  let ?tr = "[(JsKeyValue defaultIdempotencyBucket, answer0),
     (KvStatusTTL, answer0\<lparr>a_ttl := Inr Second\<rparr>), (JsStreamInfo (''KV_'' @ defaultIdempotencyBucket),
       answer0\<lparr>a_stream := Inr ?sc\<rparr>), (JsUpdateStream (?sc\<lparr>sc_MaxAge := 0\<rparr>), answer0),
     (KvStatusTTL, answer0\<lparr>a_ttl := Inr 0\<rparr>)]"
  have r: "replay (NewKVIdempotencyCoordinator False []) ?tr = Some (Inr \<lparr>kvc_kv = True\<rparr>)"
    by (simp add: NewKVIdempotencyCoordinator_def removeIdempotencyBucketMaxAge_def Let_def replay.simps)
  have "length ?tr = 5" by simp
  with NewKVIdempotencyCoordinator_no_ttl [OF r] r show ?thesis by blast
qed

end
