(* ===== verification/Idem_Exec.thy ===== *)
theory Idem_Exec
  imports Idem_KV
begin

text \<open>
  Idempotent execution of an action: \<open>src/tnats/idempotency.go\<close>.  A message is named by a hash of
  its subject and payload; a coordinator decides whether the action runs, its lease is renewed while
  it runs, and its outcome is completed or released.
\<close>

section \<open>The request hash\<close>

text \<open>\<open>copy(dst[off:], src)\<close> on a buffer long enough to hold what it copies, or truncated at its end.\<close>

definition copy_at :: "bytes \<Rightarrow> nat \<Rightarrow> bytes \<Rightarrow> bytes" where
  "copy_at dst off src =
     take off dst @ take (length dst - off) src @ drop (off + length src) dst"

definition msgHash :: "msg \<Rightarrow> string" where
  "msgHash m =
    (let subjectLen = PutUint64 (of_nat (length (m_Subject m)));
         totalLen = length subjectLen + length (m_Subject m) + length (m_Data m)
     in if totalLen \<le> 512 then
          (let stackBuf = replicate 512 (byte_of 0);
               stackBuf = copy_at stackBuf 0 subjectLen;
               stackBuf = copy_at stackBuf (length subjectLen) (m_Subject m);
               stackBuf = copy_at stackBuf (length subjectLen + length (m_Subject m)) (m_Data m)
           in hex_EncodeToString (Sum256 (take totalLen stackBuf)))
        else
          (let h = sha256_New;
               h = hash_Write h subjectLen;
               h = hash_Write h (m_Subject m);
               h = hash_Write h (m_Data m)
           in hex_EncodeToString (hash_Sum h [])))"

section \<open>Stores, coordinators and the configuration of an action\<close>

text \<open>
  The kernel's configuration, with the values of its \<open>Header\<close> and \<open>EffectiveLeaseTTL\<close> methods.
  The interfaces are records of methods; \<open>co_RenewClaim\<close> is there when the coordinator also is an
  \<open>IdempotencyLeaseRenewer\<close>.
\<close>

record IdempotencyConfig =
  ic_Enabled :: bool
  ic_Header :: string
  ic_KeyFunc :: "(bytes \<Rightarrow> string) option"
  ic_EffectiveLeaseTTL :: duration
  ic_TTL :: duration

record IdempotencyCoordinator =
  co_Claim :: "ctx \<Rightarrow> string \<Rightarrow> string \<Rightarrow> duration \<Rightarrow> (goerror + IdempotencyClaim) io"
  co_Complete :: "ctx \<Rightarrow> string \<Rightarrow> string \<Rightarrow> IdempotencyEntry \<Rightarrow> duration \<Rightarrow> goerror option io"
  co_Release :: "ctx \<Rightarrow> string \<Rightarrow> string \<Rightarrow> goerror option io"
  co_RenewClaim :: "(ctx \<Rightarrow> string \<Rightarrow> string \<Rightarrow> duration \<Rightarrow> goerror option io) option"

record LegacyStore =
  ls_Get :: "ctx \<Rightarrow> string \<Rightarrow> (IdempotencyEntry \<times> bool) io"
  ls_Set :: "ctx \<Rightarrow> string \<Rightarrow> IdempotencyEntry \<Rightarrow> duration \<Rightarrow> unit io"

datatype IdempotencyStore = Coordinating IdempotencyCoordinator | Legacy LegacyStore

text \<open>The coordinator of \<open>src/tnats/idempotency_kv.go\<close> behind that interface.\<close>

definition kvCoordinator :: "kernel \<Rightarrow> KVIdempotencyCoordinator option \<Rightarrow> IdempotencyCoordinator" where
  "kvCoordinator K c = \<lparr>co_Claim = Claim K c, co_Complete = Complete K c, co_Release = Release c,
     co_RenewClaim = Some (RenewClaim K c)\<rparr>"

section \<open>Replies\<close>

type_synonym reply = "bytes \<times> goerror option"

definition encode_fallback :: bytes where
  "encode_fallback = ''{\"error\":\"internal\",\"message\":\"failed to encode error response\"}''"

definition encodeError :: "goerror \<Rightarrow> reply io" where
  "encodeError err = codec_Marshal_Public err (\<lambda>r. case r of
      Inr encoded \<Rightarrow> Ret (encoded, Some err)
    | Inl marshalErr \<Rightarrow> json_Marshal_Public err (\<lambda>r. case r of
        Inr encoded \<Rightarrow> Ret (encoded, Some err)
      | Inl fallbackErr \<Rightarrow> Ret (encode_fallback, Some err)))"

section \<open>Lease renewal\<close>

abbreviation idempotencyFinalizeTimeout :: duration where
  "idempotencyFinalizeTimeout \<equiv> 5 * Second"

definition renewalInterval :: "duration \<Rightarrow> duration" where
  "renewalInterval leaseTTL = (let interval = leaseTTL div 3 in if interval \<le> 0 then leaseTTL else interval)"

text \<open>
  The renewal goroutine as far as \<open>n\<close> ticks take it: each tick renews the lease, and the first
  failure ends the goroutine with the mapped error.
\<close>

primrec renewLoop ::
  "(ctx \<Rightarrow> string \<Rightarrow> string \<Rightarrow> duration \<Rightarrow> goerror option io) \<Rightarrow> ctx \<Rightarrow> string \<Rightarrow> string \<Rightarrow> duration \<Rightarrow> nat \<Rightarrow>
     goerror option io" where
  "renewLoop renew ctx key token leaseTTL 0 = Ret None"
| "renewLoop renew ctx key token leaseTTL (Suc n) =
     bind (renew (WithTimeout (WithoutCancel ctx) (renewalInterval leaseTTL)) key token leaseTTL)
       (\<lambda>renewErr. case renewErr of
          Some e \<Rightarrow> Ret (Some (MapErr e))
        | None \<Rightarrow> renewLoop renew ctx key token leaseTTL n)"

text \<open>
  \<open>startCoordinatorLeaseRenewal\<close>: without a renewer or a lease there is no goroutine, whatever
  the ticker does.
\<close>

definition startCoordinatorLeaseRenewal ::
  "IdempotencyCoordinator \<Rightarrow> ctx \<Rightarrow> string \<Rightarrow> string \<Rightarrow> duration \<Rightarrow> nat \<Rightarrow> goerror option io" where
  "startCoordinatorLeaseRenewal co ctx key token leaseTTL ticks =
    (case co_RenewClaim co of
       None \<Rightarrow> Ret None
     | Some renew \<Rightarrow> if leaseTTL \<le> 0 then Ret None else renewLoop renew ctx key token leaseTTL ticks)"

section \<open>Execution under a coordinator\<close>

text \<open>
  The part of \<open>executeWithCoordinator\<close> after the claim is acquired, up to its deferred release;
  the second result is the flag \<open>completed\<close>.  The ticks of the first answer happen before renewal is
  stopped, so a failed renewal is reported; those of the second happen in a goroutine that is
  already told to stop, so its failure is not.  A panic of the action leaves by the deferred calls.
\<close>

definition executeAcquired ::
  "IdempotencyCoordinator \<Rightarrow> IdempotencyConfig \<Rightarrow> ctx \<Rightarrow> string \<Rightarrow> string \<Rightarrow> string \<Rightarrow> decoder \<Rightarrow>
     (reply outcome \<times> bool) io" where
  "executeAcquired co cfg ctx key reqHash token dec =
    (let leaseTTL = ic_EffectiveLeaseTTL cfg;
         fail = (\<lambda>e. bind (encodeError e) (\<lambda>r. Ret (Returned r, False)))
     in ex_Start (WithCancel ctx) dec (\<lambda>ticks.
        bind (startCoordinatorLeaseRenewal co ctx key token leaseTTL ticks) (\<lambda>renewalErr.
        ex_Finish (\<lambda>outcome late.
        bind (if renewalErr = None then startCoordinatorLeaseRenewal co ctx key token leaseTTL late
              else Ret None) (\<lambda>_.
        case outcome of
          Panicked \<Rightarrow> Ret (Panicked, False)
        | Returned result \<Rightarrow> (case renewalErr of
            Some e \<Rightarrow> fail e
          | None \<Rightarrow> (case result of
              Inl execErr \<Rightarrow> fail execErr
            | Inr res \<Rightarrow> codec_Marshal res (\<lambda>r. case r of
                Inl e \<Rightarrow> fail (app KindInternal ''failed to marshal idempotent response'' [e])
              | Inr replyBytes \<Rightarrow> time_Now (\<lambda>now.
                  bind (co_Complete co (WithTimeout (WithoutCancel ctx) idempotencyFinalizeTimeout) key token
                      \<lparr>ie_Status = 200, ie_Body = replyBytes, ie_StoredAt = now, ie_RequestHash = reqHash\<rparr>
                      (ic_TTL cfg)) (\<lambda>err. case err of
                    Some e \<Rightarrow> fail (app KindConflict ''idempotency outcome is indeterminate'' [e])
                  | None \<Rightarrow> Ret (Returned (replyBytes, None), True)))))))))))"

definition reused_key :: goerror where
  "reused_key = app KindConflict ''idempotency key already used with a different payload'' []"

definition executeWithCoordinator ::
  "IdempotencyCoordinator \<Rightarrow> IdempotencyConfig \<Rightarrow> ctx \<Rightarrow> string \<Rightarrow> string \<Rightarrow> decoder \<Rightarrow> reply outcome io" where
  "executeWithCoordinator co cfg ctx key reqHash dec =
    (let fail = (\<lambda>e. bind (encodeError e) (\<lambda>r. Ret (Returned r)))
     in bind (co_Claim co ctx key reqHash (ic_EffectiveLeaseTTL cfg)) (\<lambda>r. case r of
          Inl e \<Rightarrow> fail e
        | Inr claim \<Rightarrow> (case cl_State claim of
            IdempotencyClaimCompleted \<Rightarrow>
              if ie_RequestHash (cl_Entry claim) \<noteq> [] \<and> ie_RequestHash (cl_Entry claim) \<noteq> reqHash
              then fail reused_key
              else Ret (Returned (ie_Body (cl_Entry claim), None))
          | IdempotencyClaimConflict \<Rightarrow> fail reused_key
          | IdempotencyClaimInProgress \<Rightarrow>
              fail (app KindUnavailable ''an identical request is currently in progress'' [])
          | IdempotencyClaimAcquired \<Rightarrow>
              bind (executeAcquired co cfg ctx key reqHash (cl_Token claim) dec) (\<lambda>(result, completed).
                if completed then Ret result
                else bind (co_Release co (WithTimeout (WithoutCancel ctx) idempotencyFinalizeTimeout) key
                       (cl_Token claim)) (\<lambda>_. Ret result))
          | IdempotencyClaimUnknown _ \<Rightarrow>
              fail (app KindInternal ''invalid idempotency claim state'' []))))"

section \<open>Execution with a plain store\<close>

definition executeWithLegacyStore ::
  "LegacyStore \<Rightarrow> IdempotencyConfig \<Rightarrow> ctx \<Rightarrow> string \<Rightarrow> string \<Rightarrow> decoder \<Rightarrow> reply outcome io" where
  "executeWithLegacyStore store cfg ctx key reqHash dec =
    (let fail = (\<lambda>e. bind (encodeError e) (\<lambda>r. Ret (Returned r)))
     in bind (ls_Get store ctx key) (\<lambda>(entry, ok).
        if ok then
          (if ie_RequestHash entry \<noteq> [] \<and> ie_RequestHash entry \<noteq> reqHash then fail reused_key
           else Ret (Returned (ie_Body entry, None)))
        else bind (executeDecoded ctx dec) (\<lambda>outcome. case outcome of
            Panicked \<Rightarrow> Ret Panicked
          | Returned (Inl execErr) \<Rightarrow> fail execErr
          | Returned (Inr res) \<Rightarrow> codec_Marshal res (\<lambda>r. case r of
              Inl e \<Rightarrow> fail (app KindInternal ''failed to marshal idempotent response'' [e])
            | Inr replyBytes \<Rightarrow> time_Now (\<lambda>now.
                bind (ls_Set store ctx key
                    \<lparr>ie_Status = 200, ie_Body = replyBytes, ie_StoredAt = now, ie_RequestHash = reqHash\<rparr>
                    (ic_TTL cfg)) (\<lambda>_. Ret (Returned (replyBytes, None))))))))"

definition idempotencyKey :: "IdempotencyConfig \<Rightarrow> msg \<Rightarrow> string" where
  "idempotencyKey cfg m =
    (let key = (if m_Header m \<noteq> None then header_Get (m_Header m) (ic_Header cfg) else []);
         key = (if key = [] then (case ic_KeyFunc cfg of Some f \<Rightarrow> f (m_Data m) | None \<Rightarrow> key) else key)
     in if key = [] then msgHash m else key)"

definition executeWithIdempotency ::
  "IdempotencyStore \<Rightarrow> IdempotencyConfig \<Rightarrow> ctx \<Rightarrow> msg \<Rightarrow> decoder \<Rightarrow> reply outcome io" where
  "executeWithIdempotency store cfg ctx m dec =
    (let key = idempotencyKey cfg m; reqHash = msgHash m
     in case store of
          Coordinating coordinator \<Rightarrow> executeWithCoordinator coordinator cfg ctx key reqHash dec
        | Legacy legacy \<Rightarrow> executeWithLegacyStore legacy cfg ctx key reqHash dec)"

section \<open>The request hash names the request\<close>

text \<open>What is hashed: the length of the subject, the subject and the payload.\<close>

definition hash_preimage :: "msg \<Rightarrow> bytes" where
  "hash_preimage m = PutUint64 (of_nat (length (m_Subject m))) @ m_Subject m @ m_Data m"

lemma copy_at_append:
  "length p + length src \<le> n \<Longrightarrow> off = length p \<Longrightarrow>
   copy_at (p @ replicate (n - length p) z) off src = (p @ src) @ replicate (n - length (p @ src)) z"
  by (simp add: copy_at_def)

lemma msgHash_preimage: "msgHash m = hex_EncodeToString (Sum256 (hash_preimage m))"
proof (cases "8 + length (m_Subject m) + length (m_Data m) \<le> 512")
  case True
  let ?l = "PutUint64 (of_nat (length (m_Subject m)))" and ?z = "byte_of 0"
  have 1: "copy_at (replicate 512 ?z) 0 ?l = ?l @ replicate (512 - length ?l) ?z"
    using copy_at_append [of "[]" ?l 512 0 ?z] by simp
  have 2: "copy_at (?l @ replicate (512 - length ?l) ?z) (length ?l) (m_Subject m) =
      (?l @ m_Subject m) @ replicate (512 - length (?l @ m_Subject m)) ?z"
    using True by (intro copy_at_append) simp_all
  have 3: "copy_at ((?l @ m_Subject m) @ replicate (512 - length (?l @ m_Subject m)) ?z)
      (length ?l + length (m_Subject m)) (m_Data m) =
      ((?l @ m_Subject m) @ m_Data m) @ replicate (512 - length ((?l @ m_Subject m) @ m_Data m)) ?z"
    using True by (intro copy_at_append) simp_all
  show ?thesis
    using True unfolding msgHash_def Let_def 1 2 3 by (simp add: hash_preimage_def)
next
  case False
  then show ?thesis
    by (simp add: msgHash_def Let_def hash_preimage_def hash_Write_def hash_Sum_def sha256_New_def)
qed

lemma hash_preimage_inject:
  assumes "length (m_Subject m) < 2 ^ 64" "length (m_Subject m') < 2 ^ 64" "hash_preimage m = hash_preimage m'"
  shows "m_Subject m = m_Subject m' \<and> m_Data m = m_Data m'"
proof -
  have "(of_nat (length (m_Subject m)) :: u64) = of_nat (length (m_Subject m'))"
    and eq: "m_Subject m @ m_Data m = m_Subject m' @ m_Data m'"
    using assms(3) by (simp_all add: hash_preimage_def)
  then have "unat (of_nat (length (m_Subject m)) :: u64) = unat (of_nat (length (m_Subject m')) :: u64)"
    by simp
  then have "length (m_Subject m) = length (m_Subject m')"
    using assms(1,2) by (simp add: unat_of_nat)
  with eq show ?thesis by simp
qed

section \<open>The contract of a coordinator\<close>

lemma replay_case_state [trace_simps]:
  "replay (case st of IdempotencyClaimAcquired \<Rightarrow> p1 | IdempotencyClaimInProgress \<Rightarrow> p2
     | IdempotencyClaimCompleted \<Rightarrow> p3 | IdempotencyClaimConflict \<Rightarrow> p4 | IdempotencyClaimUnknown n \<Rightarrow> p5 n) tr = Some y \<longleftrightarrow>
   (st = IdempotencyClaimAcquired \<and> replay p1 tr = Some y) \<or> (st = IdempotencyClaimInProgress \<and> replay p2 tr = Some y) \<or>
   (st = IdempotencyClaimCompleted \<and> replay p3 tr = Some y) \<or> (st = IdempotencyClaimConflict \<and> replay p4 tr = Some y) \<or>
   (\<exists>n. st = IdempotencyClaimUnknown n \<and> replay (p5 n) tr = Some y)"
  by (cases st) auto

declare replay_case_outcome [trace_simps]

text \<open>A trace in which the action is not run.\<close>

abbreviation quiet :: "event list \<Rightarrow> bool" where
  "quiet tr \<equiv> requests is_exec tr = []"

lemma encodeError_trace:
  "replay (encodeError e) tr = Some r \<Longrightarrow> quiet tr \<and> commits tr = [] \<and> snd r = Some e"
  by (auto simp: encodeError_def trace_simps)

definition claim_acquired :: "goerror + IdempotencyClaim \<Rightarrow> bool" where
  "claim_acquired r \<longleftrightarrow> (case r of Inl _ \<Rightarrow> False | Inr cl \<Rightarrow> cl_State cl = IdempotencyClaimAcquired)"

definition finalizeCtx :: "ctx \<Rightarrow> ctx" where
  "finalizeCtx ctx = WithTimeout (WithoutCancel ctx) idempotencyFinalizeTimeout"

definition result_entry :: "bytes \<Rightarrow> instant \<Rightarrow> string \<Rightarrow> IdempotencyEntry" where
  "result_entry body now reqHash =
     \<lparr>ie_Status = 200, ie_Body = body, ie_StoredAt = now, ie_RequestHash = reqHash\<rparr>"

text \<open>
  What \<open>executeWithCoordinator\<close> relies on: no method runs the action, a claim that is not acquired
  changes nothing, and a successful completion stores its entry, which \<open>stored\<close> says of the
  completion's own trace.
\<close>

locale coordinator_contract =
  fixes co :: IdempotencyCoordinator
    and stored :: "string \<Rightarrow> IdempotencyEntry \<Rightarrow> duration \<Rightarrow> event list \<Rightarrow> bool"
  assumes claim_quiet: "replay (co_Claim co ctx key h ttl) tr = Some r \<Longrightarrow> quiet tr"
    and claim_refused: "replay (co_Claim co ctx key h ttl) tr = Some r \<Longrightarrow> \<not> claim_acquired r \<Longrightarrow> commits tr = []"
    and complete_quiet: "replay (co_Complete co ctx key token entry ttl) tr = Some e \<Longrightarrow> quiet tr"
    and complete_stores: "replay (co_Complete co ctx key token entry ttl) tr = Some None \<Longrightarrow> stored key entry ttl tr"
    and release_quiet: "replay (co_Release co ctx key token) tr = Some e \<Longrightarrow> quiet tr"
    and renew_quiet: "co_RenewClaim co = Some renew \<Longrightarrow> replay (renew ctx key token ttl) tr = Some e \<Longrightarrow> quiet tr"
begin

lemma renewLoop_quiet:
  assumes "co_RenewClaim co = Some renew"
  shows "replay (renewLoop renew ctx key token ttl n) tr = Some e \<Longrightarrow> quiet tr"
  by (induction n arbitrary: tr) (auto simp: trace_simps dest: renew_quiet [OF assms])

lemma renewal_quiet:
  "replay (startCoordinatorLeaseRenewal co ctx key token ttl n) tr = Some e \<Longrightarrow> quiet tr"
  by (auto simp: startCoordinatorLeaseRenewal_def trace_simps split: if_splits dest: renewLoop_quiet)

lemma complete_end:
  "replay (co_Complete co ctx key token entry ttl) tr = Some e \<Longrightarrow>
   quiet tr \<and> ends_with (co_Complete co ctx key token entry ttl) e tr"
  by (simp add: complete_quiet ends_withI)

lemma release_end:
  "replay (co_Release co ctx key token) tr = Some e \<Longrightarrow> quiet tr \<and> ends_with (co_Release co ctx key token) e tr"
  by (simp add: release_quiet ends_withI)

text \<open>An acquired claim leads to one run of the action, and its flag is set by a completion only.\<close>

lemma executeAcquired_trace:
  assumes "replay (executeAcquired co cfg ctx key h token dec) tr = Some (result, completed)"
  shows "length (requests is_exec tr) = 1 \<and>
    (if completed then \<exists>body now. result = Returned (body, None) \<and>
       ends_with (co_Complete co (finalizeCtx ctx) key token (result_entry body now h) (ic_TTL cfg)) None tr
     else \<forall>body. result \<noteq> Returned (body, None))"
  using assms unfolding finalizeCtx_def result_entry_def
  by (auto simp: executeAcquired_def Let_def trace_simps dest!: renewal_quiet encodeError_trace complete_end)
     (blast intro: ends_with_more)

text \<open>The run of an execution after its claim.\<close>

definition settled where
  "settled cfg ctx key h token tr result \<longleftrightarrow>
     (\<exists>body now. result = Returned (body, None) \<and>
        ends_with (co_Complete co (finalizeCtx ctx) key token (result_entry body now h) (ic_TTL cfg)) None tr) \<or>
     ((\<forall>body. result \<noteq> Returned (body, None)) \<and>
        (\<exists>e. ends_with (co_Release co (finalizeCtx ctx) key token) e tr))"

lemma executeWithCoordinator_trace:
  assumes "replay (executeWithCoordinator co cfg ctx key h dec) tr = Some result"
  obtains r tr1 tr2 where "tr = tr1 @ tr2"
    "replay (co_Claim co ctx key h (ic_EffectiveLeaseTTL cfg)) tr1 = Some r" "quiet tr1"
    "claim_acquired r \<Longrightarrow> length (requests is_exec tr2) = 1 \<and> settled cfg ctx key h (cl_Token (projr r)) tr2 result"
    "\<not> claim_acquired r \<Longrightarrow> quiet tr2 \<and> commits tr = [] \<and>
       (\<forall>body. result = Returned (body, None) \<longrightarrow> (\<exists>cl. r = Inr cl \<and> cl_State cl = IdempotencyClaimCompleted \<and>
          body = ie_Body (cl_Entry cl) \<and> ie_RequestHash (cl_Entry cl) \<in> {[], h}))"
proof -
  obtain r tr1 tr2 where 1: "tr = tr1 @ tr2" "replay (co_Claim co ctx key h (ic_EffectiveLeaseTTL cfg)) tr1 = Some r"
    and 2: "replay (case r of
          Inl e \<Rightarrow> bind (encodeError e) (\<lambda>r. Ret (Returned r))
        | Inr claim \<Rightarrow> (case cl_State claim of
            IdempotencyClaimCompleted \<Rightarrow>
              if ie_RequestHash (cl_Entry claim) \<noteq> [] \<and> ie_RequestHash (cl_Entry claim) \<noteq> h
              then bind (encodeError reused_key) (\<lambda>r. Ret (Returned r))
              else Ret (Returned (ie_Body (cl_Entry claim), None))
          | IdempotencyClaimConflict \<Rightarrow> bind (encodeError reused_key) (\<lambda>r. Ret (Returned r))
          | IdempotencyClaimInProgress \<Rightarrow>
              bind (encodeError (app KindUnavailable ''an identical request is currently in progress'' [])) (\<lambda>r. Ret (Returned r))
          | IdempotencyClaimAcquired \<Rightarrow>
              bind (executeAcquired co cfg ctx key h (cl_Token claim) dec) (\<lambda>(result, completed).
                if completed then Ret result
                else bind (co_Release co (finalizeCtx ctx) key (cl_Token claim)) (\<lambda>_. Ret result))
          | IdempotencyClaimUnknown _ \<Rightarrow>
              bind (encodeError (app KindInternal ''invalid idempotency claim state'' [])) (\<lambda>r. Ret (Returned r)))) tr2
        = Some result"
    using assms unfolding executeWithCoordinator_def finalizeCtx_def Let_def replay_bind
    by (elim exE conjE) (rule that [unfolded finalizeCtx_def], assumption+)
  show thesis
  proof (rule that [OF 1 claim_quiet [OF 1(2)]])
    assume "claim_acquired r"
    with 2 show "length (requests is_exec tr2) = 1 \<and> settled cfg ctx key h (cl_Token (projr r)) tr2 result"
      by (auto simp: claim_acquired_def settled_def trace_simps split: sum.splits if_splits
          dest!: executeAcquired_trace release_end)
  next
    assume "\<not> claim_acquired r"
    moreover from this 2 have "quiet tr2 \<and> commits tr2 = [] \<and>
       (\<forall>body. result = Returned (body, None) \<longrightarrow> (\<exists>cl. r = Inr cl \<and> cl_State cl = IdempotencyClaimCompleted \<and>
          body = ie_Body (cl_Entry cl) \<and> ie_RequestHash (cl_Entry cl) \<in> {[], h}))"
      by (auto simp: claim_acquired_def trace_simps dest!: encodeError_trace split: if_splits)
    ultimately show "quiet tr2 \<and> commits tr = [] \<and>
       (\<forall>body. result = Returned (body, None) \<longrightarrow> (\<exists>cl. r = Inr cl \<and> cl_State cl = IdempotencyClaimCompleted \<and>
          body = ie_Body (cl_Entry cl) \<and> ie_RequestHash (cl_Entry cl) \<in> {[], h}))"
      using claim_refused [OF 1(2)] 1(1) by simp
  qed
qed

end

section \<open>The bucket coordinator meets the contract\<close>

text \<open>The requests the coordinator makes.\<close>

fun kv_request :: "request \<Rightarrow> bool" where
  "kv_request TimeNow = True"
| "kv_request (CtxErr c) = True"
| "kv_request (RandRead n) = True"
| "kv_request (KvGet k) = True"
| "kv_request (KvPut k d) = True"
| "kv_request (KvCreate k d) = True"
| "kv_request (KvUpdate k d rv) = True"
| "kv_request (KvDelete k rv) = True"
| "kv_request _ = False"

lemma kv_helpers_only [simp]:
  "only_calls kv_request (mapIdempotencyKVError ctx e)" "only_calls kv_request (mapIdempotencyKVErr ctx e')"
  "only_calls kv_request (marshalKVEntry K entry ttl)" "only_calls kv_request newKVClaimToken"
  "only_calls kv_request (decodeKVEntry K d)"
  by (auto simp: mapIdempotencyKVError_def mapIdempotencyKVErr_def marshalKVEntry_def newKVClaimToken_def
      decodeKVEntry_def Let_def split: sum.split option.split data.split json.split)

lemma kv_claim_only [simp]:
  "only_calls kv_request (retryCreateClaim ctx k t d)" "only_calls kv_request (replaceExpiredClaim ctx k t d rv)"
  "only_calls kv_request (resolveExistingClaim ctx k h t now d it)" "only_calls kv_request (createClaim ctx k h t now d)"
  by (auto simp: retryCreateClaim_def replaceExpiredClaim_def resolveExistingClaim_def createClaim_def
      split: sum.split option.split)

lemma kv_methods_only:
  "only_calls kv_request (Claim K c ctx key h ttl)" "only_calls kv_request (Complete K c ctx key token entry ttl)"
  "only_calls kv_request (Release c ctx key token)" "only_calls kv_request (RenewClaim K c ctx key token ttl)"
  by (auto simp: Claim_def Complete_def Release_def RenewClaim_def loadEntry_def extendClaimForCompletion_def
      renewOwnedClaim_def Let_def split: sum.split option.split prod.split)

lemma kv_request_quiet: "only_calls kv_request p \<Longrightarrow> replay p tr = Some r \<Longrightarrow> quiet tr"
  by (rule only_calls_requests, erule only_calls_mono, erule kv_request.elims) simp_all

lemmas kv_quiet = kv_methods_only [THEN kv_request_quiet]

text \<open>A completion's trace that extends the claim, stores the entry's document and deletes the claim.\<close>

definition kv_stored :: "kernel \<Rightarrow> string \<Rightarrow> IdempotencyEntry \<Rightarrow> duration \<Rightarrow> event list \<Rightarrow> bool" where
  "kv_stored K key entry ttl tr \<longleftrightarrow> (\<exists>q a d b rv e.
     commits tr = [(q, a), (KvPut (entryPrefix @ key) d, b), (KvDelete (claimPrefix @ key) (Some rv), e)] \<and>
     a_rev a = Inr rv \<and> entry_doc K entry ttl tr d)"

interpretation kvco: coordinator_contract "kvCoordinator K c" "kv_stored K" for K c
proof unfold_locales
  fix ctx key h ttl tr r
  assume a: "replay (co_Claim (kvCoordinator K c) ctx key h ttl) tr = Some r"
  then show "quiet tr" by (simp add: kvCoordinator_def kv_quiet)
  assume "\<not> claim_acquired r"
  with a show "commits tr = []" by (auto simp: kvCoordinator_def claim_acquired_def dest!: Claim_write)
next
  fix ctx key token entry ttl tr
  show "replay (co_Complete (kvCoordinator K c) ctx key token entry ttl) tr = Some e \<Longrightarrow> quiet tr" for e
    by (simp add: kvCoordinator_def kv_quiet)
  assume "replay (co_Complete (kvCoordinator K c) ctx key token entry ttl) tr = Some None"
  then have "replay (Complete K c ctx key token entry ttl) tr = Some None" by (simp add: kvCoordinator_def)
  from Complete_writes [OF this] show "kv_stored K key entry ttl tr"
    unfolding kv_stored_def by blast
qed (auto simp: kvCoordinator_def intro: kv_quiet)

section \<open>Correctness of idempotent execution\<close>

text \<open>
  C38: The fast and the streaming branch of \<open>msgHash\<close> agree: both are the 64 hexadecimal digits of
  the SHA-256 digest of the subject's length, the subject and the payload.
\<close>

theorem msgHash_branches:
  "msgHash m = hex_EncodeToString (Sum256 (PutUint64 (of_nat (length (m_Subject m))) @ m_Subject m @ m_Data m))
   \<and> length (msgHash m) = 64"
  by (simp add: msgHash_preimage hash_preimage_def)

text \<open>
  Two messages have the same request hash only if they agree in subject and payload, or if their
  hashed texts are different inputs of SHA-256 with the same digest: the length prefix leaves no other
  way to confuse a subject with the payload after it.
\<close>

theorem msgHash_identifies:
  assumes "length (m_Subject m) < 2 ^ 64" "length (m_Subject m') < 2 ^ 64" "msgHash m = msgHash m'"
  shows "(m_Subject m = m_Subject m' \<and> m_Data m = m_Data m') \<or>
    (hash_preimage m \<noteq> hash_preimage m' \<and> Sum256 (hash_preimage m) = Sum256 (hash_preimage m'))"
  using assms hash_preimage_inject [OF assms(1,2)] by (auto simp: msgHash_preimage)

theorem msgHash_identifies_witness:
  "m_Subject \<lparr>m_Subject = ''a.b'', m_Reply = ''x'', m_Data = ''1'', m_Header = None\<rparr> =
   m_Subject \<lparr>m_Subject = ''a.b'', m_Reply = ''y'', m_Data = ''1'', m_Header = Some []\<rparr>"
  using msgHash_identifies [of "\<lparr>m_Subject = ''a.b'', m_Reply = ''x'', m_Data = ''1'', m_Header = None\<rparr>"
      "\<lparr>m_Subject = ''a.b'', m_Reply = ''y'', m_Data = ''1'', m_Header = Some []\<rparr>"]
  by (simp add: msgHash_preimage hash_preimage_def)

text \<open>
  C1: Under the bucket coordinator an execution starts with one claim.  The action runs exactly once
  if the claim is acquired and never otherwise; in that case nothing is written, and a reply without
  error is the stored body of a completed entry whose recorded hash is that of the request, or empty.
\<close>

theorem executeWithCoordinator_once:
  assumes "replay (executeWithCoordinator (kvCoordinator K c) cfg ctx key h dec) tr = Some result"
  shows "\<exists>tr1 tr2 r. tr = tr1 @ tr2 \<and> replay (Claim K c ctx key h (ic_EffectiveLeaseTTL cfg)) tr1 = Some r \<and>
    length (requests is_exec tr) = (if claim_acquired r then 1 else 0) \<and>
    (\<not> claim_acquired r \<longrightarrow> commits tr = [] \<and>
       (\<forall>body. result = Returned (body, None) \<longrightarrow> (\<exists>cl. r = Inr cl \<and> cl_State cl = IdempotencyClaimCompleted \<and>
          body = ie_Body (cl_Entry cl) \<and> ie_RequestHash (cl_Entry cl) \<in> {[], h})))"
  using assms
proof (rule kvco.executeWithCoordinator_trace)
  fix r tr1 tr2
  assume "tr = tr1 @ tr2"
    "replay (co_Claim (kvCoordinator K c) ctx key h (ic_EffectiveLeaseTTL cfg)) tr1 = Some r" "quiet tr1"
    "claim_acquired r \<Longrightarrow> length (requests is_exec tr2) = 1 \<and>
       kvco.settled K c cfg ctx key h (cl_Token (projr r)) tr2 result"
    "\<not> claim_acquired r \<Longrightarrow> quiet tr2 \<and> commits tr = [] \<and>
       (\<forall>body. result = Returned (body, None) \<longrightarrow> (\<exists>cl. r = Inr cl \<and> cl_State cl = IdempotencyClaimCompleted \<and>
          body = ie_Body (cl_Entry cl) \<and> ie_RequestHash (cl_Entry cl) \<in> {[], h}))"
  then show ?thesis by (intro exI [of _ tr1] exI [of _ tr2] exI [of _ r]) (auto simp: kvCoordinator_def)
qed

definition sampleConfig :: IdempotencyConfig where
  "sampleConfig = \<lparr>ic_Enabled = True, ic_Header = ''Idempotency-Key'', ic_KeyFunc = None,
     ic_EffectiveLeaseTTL = 0, ic_TTL = 0\<rparr>"

text \<open>A run whose action fails, and whose claim is gone when it is released.\<close>

definition sampleRun :: "event list" where
  "sampleRun = sampleClaimTrace @
    [(ExecuteDecoded (WithCancel Background) KeepZero, answer0),
     (ExecuteFinish, answer0\<lparr>a_exec := Returned (Inl (plain_error ''boom''))\<rparr>),
     (CodecMarshalPublic (plain_error ''boom''), answer0),
     (CtxErr (finalizeCtx Background), answer0),
     (KvGet (claimPrefix @ ''k''), answer0\<lparr>a_item := Inl not_found\<rparr>)]"

lemma sample_run:
  "replay (executeWithCoordinator (kvCoordinator sampleKernel sampleCoordinator) sampleConfig Background ''k'' ''h''
     KeepZero) sampleRun = Some (Returned ([], Some (plain_error ''boom'')))"
proof -
  have claim: "replay (co_Claim (kvCoordinator sampleKernel sampleCoordinator) Background ''k'' ''h''
      (ic_EffectiveLeaseTTL sampleConfig)) sampleClaimTrace = Some (Inr (acquired ''41''))"
    by (simp add: kvCoordinator_def sampleConfig_def sample_claim)
  show ?thesis
    unfolding executeWithCoordinator_def sampleRun_def Let_def replay_bind_append [OF claim]
    by (simp add: executeAcquired_def startCoordinatorLeaseRenewal_def kvCoordinator_def sampleConfig_def
        encodeError_def Release_def Let_def idempotencyContext_def ctx_Err_def finalizeCtx_def replay.simps)
qed

theorem executeWithCoordinator_once_witness:
  "length (requests is_exec sampleRun) = 1"
  using executeWithCoordinator_once [OF sample_run]
  by (simp add: sampleRun_def sampleClaimTrace_def)

text \<open>
  What a release that reports no error has established by its own trace: the claim it read is gone,
  belongs to another token, or was deleted at the revision at which it was read.
\<close>

definition given_up :: "string \<Rightarrow> string \<Rightarrow> event list \<Rightarrow> bool" where
  "given_up key token tr \<longleftrightarrow> (\<exists>ra. (KvGet (claimPrefix @ key), ra) \<in> set tr \<and>
     (case a_item ra of
        Inl e \<Rightarrow> key_missing e
      | Inr it \<Rightarrow> (\<exists>cl. unmarshalClaim (it_Value it) = Inr cl \<and>
          (cp_Token cl \<noteq> token \<or> (\<exists>a. (KvDelete (claimPrefix @ key) (Some (it_Revision it)), a) \<in> set tr \<and>
             (a_err a = None \<or> key_missing (the (a_err a))))))))"

lemma mapIdempotencyKVError_Some: "replay (mapIdempotencyKVError ctx (Some e)) tr \<noteq> Some None"
  by (auto simp: mapIdempotencyKVError_def MapError_def trace_simps)

lemma given_upI:
  "(KvGet (claimPrefix @ key), ra) \<in> set tr \<Longrightarrow> a_item ra = Inl e \<Longrightarrow> key_missing e \<Longrightarrow> given_up key token tr"
  "(KvGet (claimPrefix @ key), ra) \<in> set tr \<Longrightarrow> a_item ra = Inr it \<Longrightarrow> unmarshalClaim (it_Value it) = Inr cl \<Longrightarrow>
     cp_Token cl \<noteq> token \<Longrightarrow> given_up key token tr"
  "(KvGet (claimPrefix @ key), ra) \<in> set tr \<Longrightarrow> a_item ra = Inr it \<Longrightarrow> unmarshalClaim (it_Value it) = Inr cl \<Longrightarrow>
     (KvDelete (claimPrefix @ key) (Some (it_Revision it)), a) \<in> set tr \<Longrightarrow>
     a_err a = None \<or> key_missing (the (a_err a)) \<Longrightarrow> given_up key token tr"
  unfolding given_up_def by (force split: sum.split)+

lemma Release_given_up:
  assumes "replay (Release c ctx key token) tr = Some None"
  shows "given_up key token tr"
  using assms
  by (auto simp: Release_def Let_def trace_simps mapIdempotencyKVError_Some split: if_splits intro: given_upI)

text \<open>
  C31: An acquired claim is always settled under its own token.  Either the execution replies without
  error, and its trace ends in a completion with the token of the acquired claim that stored exactly
  that reply under the request's hash and deleted the claim; or it fails or panics, and its trace ends
  in a release with that token.  A release may itself fail, at the server or because its context
  ended, and then the claim stays until its lease runs out; one that reports no error found the claim
  gone or taken over by another token, or deleted it at the revision it read.
\<close>

theorem executeWithCoordinator_settles:
  assumes "replay (executeWithCoordinator (kvCoordinator K c) cfg ctx key h dec) tr = Some result"
    and "requests is_exec tr \<noteq> []"
  shows "\<exists>cl tr1 pre seg. tr = tr1 @ pre @ seg \<and>
    replay (Claim K c ctx key h (ic_EffectiveLeaseTTL cfg)) tr1 = Some (Inr cl) \<and> cl_State cl = IdempotencyClaimAcquired \<and>
    ((\<exists>body now. result = Returned (body, None) \<and>
        replay (Complete K c (finalizeCtx ctx) key (cl_Token cl) (result_entry body now h) (ic_TTL cfg)) seg = Some None \<and>
        kv_stored K key (result_entry body now h) (ic_TTL cfg) seg) \<or>
     ((\<forall>body. result \<noteq> Returned (body, None)) \<and>
        (\<exists>e. replay (Release c (finalizeCtx ctx) key (cl_Token cl)) seg = Some e \<and>
           (e = None \<longrightarrow> given_up key (cl_Token cl) seg))))"
  using assms(1)
proof (rule kvco.executeWithCoordinator_trace)
  fix r tr1 tr2
  assume tr: "tr = tr1 @ tr2" "quiet tr1"
    and claim: "replay (co_Claim (kvCoordinator K c) ctx key h (ic_EffectiveLeaseTTL cfg)) tr1 = Some r"
    and acq: "claim_acquired r \<Longrightarrow> length (requests is_exec tr2) = 1 \<and>
       kvco.settled K c cfg ctx key h (cl_Token (projr r)) tr2 result"
    and ref: "\<not> claim_acquired r \<Longrightarrow> quiet tr2 \<and> commits tr = [] \<and>
       (\<forall>body. result = Returned (body, None) \<longrightarrow> (\<exists>cl. r = Inr cl \<and> cl_State cl = IdempotencyClaimCompleted \<and>
          body = ie_Body (cl_Entry cl) \<and> ie_RequestHash (cl_Entry cl) \<in> {[], h}))"
  have "claim_acquired r" using assms(2) tr ref by auto
  then obtain cl where cl: "r = Inr cl" "cl_State cl = IdempotencyClaimAcquired"
    by (auto simp: claim_acquired_def split: sum.splits)
  with acq \<open>claim_acquired r\<close> have "kvco.settled K c cfg ctx key h (cl_Token cl) tr2 result" by simp
  then obtain pre seg where "tr2 = pre @ seg"
    "(\<exists>body now. result = Returned (body, None) \<and> replay (co_Complete (kvCoordinator K c) (finalizeCtx ctx) key (cl_Token cl)
        (result_entry body now h) (ic_TTL cfg)) seg = Some None) \<or>
     (\<forall>body. result \<noteq> Returned (body, None)) \<and> (\<exists>e. replay (co_Release (kvCoordinator K c) (finalizeCtx ctx) key (cl_Token cl)) seg = Some e)"
    unfolding kvco.settled_def ends_with_def by blast
  moreover from this(2) have "(\<exists>body now. result = Returned (body, None) \<and>
        replay (Complete K c (finalizeCtx ctx) key (cl_Token cl) (result_entry body now h) (ic_TTL cfg)) seg = Some None \<and>
        kv_stored K key (result_entry body now h) (ic_TTL cfg) seg) \<or>
     ((\<forall>body. result \<noteq> Returned (body, None)) \<and>
        (\<exists>e. replay (Release c (finalizeCtx ctx) key (cl_Token cl)) seg = Some e \<and>
           (e = None \<longrightarrow> given_up key (cl_Token cl) seg)))"
    using kvco.complete_stores [of K c] Release_given_up by (auto simp: kvCoordinator_def)
  moreover have "replay (Claim K c ctx key h (ic_EffectiveLeaseTTL cfg)) tr1 = Some (Inr cl)"
    using claim cl(1) by (simp add: kvCoordinator_def)
  ultimately show ?thesis
    using tr(1) cl(2) by (intro exI [of _ cl] exI [of _ tr1] exI [of _ pre] exI [of _ seg]) simp
qed

theorem executeWithCoordinator_settles_witness:
  "\<exists>cl tr1 pre seg e. sampleRun = tr1 @ pre @ seg \<and>
     replay (Claim sampleKernel sampleCoordinator Background ''k'' ''h'' 0) tr1 = Some (Inr cl) \<and>
     replay (Release sampleCoordinator (finalizeCtx Background) ''k'' (cl_Token cl)) seg = Some e"
proof -
  have "requests is_exec sampleRun \<noteq> []" by (simp add: sampleRun_def)
  from executeWithCoordinator_settles [OF sample_run this] show ?thesis
    by (simp add: sampleConfig_def) blast
qed

end
