(* ===== verification/Idem_Concurrency.thy ===== *)
theory Idem_Concurrency
  imports Idem_Exec
begin

text \<open>
  Coordinator calls of any number of processes on one bucket.  The bucket is the JetStream server's:
  its documented contract (compare-and-set on revisions, reads of values that were written) is the
  predicate \<open>bucket_step\<close>, under which a read may be stale and a write reported as failed may
  have taken effect.  The calls are the programs of \<open>Idem_KV\<close>, interleaved in any way and cut
  short anywhere.
\<close>

section \<open>The bucket\<close>

record bucket =
  bk_doc :: "string \<Rightarrow> data option"
  bk_rev :: "string \<Rightarrow> u64"
  bk_log :: "(string \<times> u64 \<times> data) list"
  bk_last :: u64

definition bucket0 :: bucket where
  "bucket0 = \<lparr>bk_doc = (\<lambda>_. None), bk_rev = (\<lambda>_. 0), bk_log = [], bk_last = 0\<rparr>"

fun kv_allowed :: "bucket \<Rightarrow> request \<Rightarrow> bool" where
  "kv_allowed b (KvCreate k d) = (bk_doc b k = None)"
| "kv_allowed b (KvUpdate k d rv) = (bk_rev b k = rv)"
| "kv_allowed b (KvPut k d) = True"
| "kv_allowed b (KvDelete k rv) = (case rv of None \<Rightarrow> True | Some r \<Rightarrow> bk_rev b k = r)"
| "kv_allowed b _ = False"

definition kv_write :: "bucket \<Rightarrow> string \<Rightarrow> data \<Rightarrow> u64 \<Rightarrow> bucket" where
  "kv_write b k d r = b\<lparr>bk_doc := (bk_doc b)(k := Some d), bk_rev := (bk_rev b)(k := r),
     bk_log := (k, r, d) # bk_log b, bk_last := r\<rparr>"

fun kv_effect :: "bucket \<Rightarrow> request \<Rightarrow> u64 \<Rightarrow> bucket" where
  "kv_effect b (KvCreate k d) r = kv_write b k d r"
| "kv_effect b (KvUpdate k d rv) r = kv_write b k d r"
| "kv_effect b (KvPut k d) r = kv_write b k d r"
| "kv_effect b (KvDelete k rv) r = b\<lparr>bk_doc := (bk_doc b)(k := None), bk_rev := (bk_rev b)(k := r), bk_last := r\<rparr>"
| "kv_effect b _ r = b"

text \<open>A write takes effect with a fresh revision, which is the one reported if one is reported.\<close>

definition takes_effect :: "bucket \<Rightarrow> request \<Rightarrow> answer \<Rightarrow> bucket \<Rightarrow> bool" where
  "takes_effect b q a b' \<longleftrightarrow> (\<exists>r. kv_allowed b q \<and> bk_last b < r \<and> b' = kv_effect b q r \<and>
     (committed (q, a) \<longrightarrow> (\<exists>k rv. q = KvDelete k rv) \<or> a_rev a = Inr r))"

definition bucket_step :: "bucket \<Rightarrow> request \<Rightarrow> answer \<Rightarrow> bucket \<Rightarrow> bool" where
  "bucket_step b q a b' \<longleftrightarrow>
     takes_effect b q a b' \<or>
     (b' = b \<and> \<not> committed (q, a) \<and>
      (\<forall>k it. q = KvGet k \<and> a_item a = Inr it \<longrightarrow> (k, it_Revision it, it_Value it) \<in> set (bk_log b)))"

section \<open>Interleaved calls\<close>

datatype coordinator_call =
    CallClaim ctx string string duration
  | CallComplete ctx string string IdempotencyEntry duration
  | CallRelease ctx string string
  | CallRenew ctx string string duration
  | CallGet ctx string
  | CallSet ctx string IdempotencyEntry duration

fun call_prog :: "kernel \<Rightarrow> KVIdempotencyCoordinator option \<Rightarrow> coordinator_call \<Rightarrow> unit io" where
  "call_prog K c (CallClaim ctx key h ttl) = bind (Claim K c ctx key h ttl) (\<lambda>_. Ret ())"
| "call_prog K c (CallComplete ctx key token entry ttl) = bind (Complete K c ctx key token entry ttl) (\<lambda>_. Ret ())"
| "call_prog K c (CallRelease ctx key token) = bind (Release c ctx key token) (\<lambda>_. Ret ())"
| "call_prog K c (CallRenew ctx key token ttl) = bind (RenewClaim K c ctx key token ttl) (\<lambda>_. Ret ())"
| "call_prog K c (CallGet ctx key) = bind (Get K c ctx key) (\<lambda>_. Ret ())"
| "call_prog K c (CallSet ctx key entry ttl) = SetKV K c ctx key entry ttl"

text \<open>The token a call presents; a claim presents none.\<close>

fun call_token :: "coordinator_call \<Rightarrow> string option" where
  "call_token (CallComplete ctx key token entry ttl) = Some token"
| "call_token (CallRelease ctx key token) = Some token"
| "call_token (CallRenew ctx key token ttl) = Some token"
| "call_token _ = None"

text \<open>A history lists the requests of all calls in the order the server sees them, by call.\<close>

type_synonym history = "(nat \<times> event) list"

definition proj :: "nat \<Rightarrow> history \<Rightarrow> event list" where
  "proj i H = map snd (filter (\<lambda>(j, _). j = i) H)"

definition interleaves :: "kernel \<Rightarrow> KVIdempotencyCoordinator option \<Rightarrow> (nat \<Rightarrow> coordinator_call) \<Rightarrow> history \<Rightarrow> bool" where
  "interleaves K c calls H \<longleftrightarrow> (\<forall>i. after (call_prog K c (calls i)) (proj i H) \<noteq> None)"

inductive serves :: "bucket \<Rightarrow> history \<Rightarrow> bucket \<Rightarrow> bool" where
  serves_Nil: "serves b [] b"
| serves_snoc: "serves b H b' \<Longrightarrow> bucket_step b' q a b'' \<Longrightarrow> serves b (H @ [(i, q, a)]) b''"

section \<open>The discipline of the coordinator's writes\<close>

text \<open>A document with its revision that the history has read or written.\<close>

definition seen :: "event list \<Rightarrow> string \<Rightarrow> u64 \<Rightarrow> data \<Rightarrow> bool" where
  "seen h k rv d \<longleftrightarrow>
     (\<exists>ra it. (KvGet k, ra) \<in> set h \<and> a_item ra = Inr it \<and> it_Revision it = rv \<and> it_Value it = d) \<or>
     (\<exists>rv0 a. (KvUpdate k d rv0, a) \<in> set h \<and> a_rev a = Inr rv)"

definition discipline :: "string option \<Rightarrow> event list \<Rightarrow> request \<Rightarrow> bool" where
  "discipline tok h q = (case q of
     KvUpdate k d rv \<Rightarrow> (\<exists>d0 cl clock. seen h k rv d0 \<and> unmarshalClaim d0 = Inr cl \<and> (TimeNow, clock) \<in> set h \<and>
       (case tok of
          None \<Rightarrow> cp_ExpiresAt cl \<le> a_now clock
        | Some t \<Rightarrow> cp_Token cl = t \<and> (\<exists>e. d = marshalClaim (cl\<lparr>cp_ExpiresAt := e\<rparr>) \<and> in_int64 e)))
   | KvDelete k rv \<Rightarrow> (\<exists>t r d cl. tok = Some t \<and> rv = Some r \<and> seen h k r d \<and> unmarshalClaim d = Inr cl \<and> cp_Token cl = t)
   | KvPut k d \<Rightarrow> (\<exists>key. k = entryPrefix @ key)
   | _ \<Rightarrow> True)"

lemma seenI_get: "(KvGet k, ra) \<in> set h \<Longrightarrow> a_item ra = Inr it \<Longrightarrow> seen h k (it_Revision it) (it_Value it)"
  and seenI_update: "(KvUpdate k d rv0, a) \<in> set h \<Longrightarrow> a_rev a = Inr rv \<Longrightarrow> seen h k rv d"
  unfolding seen_def by blast+

lemma discipline_simps [simp]:
  "discipline tok h TimeNow" "discipline tok h (CtxErr cx)" "discipline tok h (RandRead n)"
  "discipline tok h (KvGet k)" "discipline tok h (KvCreate k d)" "discipline tok h (KvPut (entryPrefix @ key) d)"
  by (simp_all add: discipline_def)

lemma discipline_takeover:
  "(KvGet k, ra) \<in> set h \<Longrightarrow> a_item ra = Inr it \<Longrightarrow> unmarshalClaim (it_Value it) = Inr cl \<Longrightarrow>
   (TimeNow, clock) \<in> set h \<Longrightarrow> cp_ExpiresAt cl \<le> a_now clock \<Longrightarrow> discipline None h (KvUpdate k d (it_Revision it))"
  by (auto simp: discipline_def dest: seenI_get)

lemma discipline_renew:
  "(KvGet k, ra) \<in> set h \<Longrightarrow> a_item ra = Inr it \<Longrightarrow> unmarshalClaim (it_Value it) = Inr cl \<Longrightarrow>
   (TimeNow, clock) \<in> set h \<Longrightarrow> in_int64 e \<Longrightarrow>
   discipline (Some (cp_Token cl)) h (KvUpdate k (marshalClaim (cl\<lparr>cp_ExpiresAt := e\<rparr>)) (it_Revision it))"
  by (auto simp: discipline_def dest: seenI_get)

lemma discipline_delete:
  "seen h k r d \<Longrightarrow> unmarshalClaim d = Inr cl \<Longrightarrow> cp_Token cl = t \<Longrightarrow> discipline (Some t) h (KvDelete k (Some r))"
  by (auto simp: discipline_def)

lemma guarded_ctx_Err [simp]:
  "guarded W (ctx_Err cx k) h \<longleftrightarrow> (if cx = Background then guarded W (k None) h
     else W h (CtxErr cx) \<and> (\<forall>a. guarded W (k (a_err a)) (h @ [(CtxErr cx, a)])))"
  by (simp add: ctx_Err_def)

lemma idempotencyExpiry_int64: "idempotencyExpiry now ttl = Inr e \<Longrightarrow> in_int64 e"
proof -
  have "in_int64 (wrap_int64 x)" for x
    using sint_range_size [of "word_of_int x :: u64"] by (simp add: in_int64_def wrap_int64_def word_size)
  then show "idempotencyExpiry now ttl = Inr e \<Longrightarrow> in_int64 e"
    by (auto simp: idempotencyExpiry_def in_int64_def split: if_splits)
qed

text \<open>Programs that read but do not write.\<close>

fun reads_only :: "request \<Rightarrow> bool" where
  "reads_only TimeNow = True"
| "reads_only (CtxErr cx) = True"
| "reads_only (RandRead n) = True"
| "reads_only (KvGet k) = True"
| "reads_only _ = False"

lemma reads_only_discipline: "reads_only q \<Longrightarrow> discipline tok h q"
  by (cases q) simp_all

lemma kv_readers [simp]:
  "only_calls reads_only (mapIdempotencyKVError ctx e)" "only_calls reads_only (mapIdempotencyKVErr ctx e')"
  "only_calls reads_only (marshalKVEntry K entry ttl)" "only_calls reads_only newKVClaimToken"
  "only_calls reads_only (decodeKVEntry K d)" "only_calls reads_only (loadEntry K c ctx key)"
proof -
  have d: "only_calls reads_only (decodeKVEntry K d)" for d
    by (auto simp: decodeKVEntry_def Let_def split: sum.split option.split data.split json.split)
  have m: "only_calls reads_only (mapIdempotencyKVError ctx e)" for e
    by (auto simp: mapIdempotencyKVError_def split: option.split)
  show "only_calls reads_only (mapIdempotencyKVError ctx e)" "only_calls reads_only (decodeKVEntry K d)"
    by (fact m d)+
  show "only_calls reads_only (mapIdempotencyKVErr ctx e')" "only_calls reads_only (marshalKVEntry K entry ttl)"
    "only_calls reads_only newKVClaimToken"
    by (auto simp: mapIdempotencyKVErr_def marshalKVEntry_def newKVClaimToken_def split: option.split sum.split)
  show "only_calls reads_only (loadEntry K c ctx key)"
    by (auto simp: loadEntry_def d m split: option.split sum.split)
qed

lemma readers_guarded [simp]: "only_calls reads_only p \<Longrightarrow> guarded (discipline tok) p h"
  by (erule guarded_only) (rule reads_only_discipline)

lemma retryCreateClaim_guarded [simp]: "guarded (discipline tok) (retryCreateClaim ctx k t d) h"
  by (auto simp: retryCreateClaim_def split: sum.split)

lemma replaceExpiredClaim_guarded:
  "discipline tok h (KvUpdate k d rv) \<Longrightarrow> guarded (discipline tok) (replaceExpiredClaim ctx k t d rv) h"
  by (auto simp: replaceExpiredClaim_def split: sum.split option.split)

lemma createClaim_guarded:
  assumes "(TimeNow, clock) \<in> set h"
  shows "guarded (discipline None) (createClaim ctx k rh t (a_now clock) d) h"
  using assms
  by (auto simp: createClaim_def resolveExistingClaim_def split: sum.split option.split intro!: replaceExpiredClaim_guarded)
     (auto intro: discipline_takeover [where clock = clock])

lemma Claim_guarded: "guarded (discipline None) (Claim K c ctx key rh ttl) h"
  by (auto simp: Claim_def Let_def split: sum.split option.split intro!: guarded_bind createClaim_guarded)

lemma renewOwnedClaim_guarded: "guarded (discipline (Some token)) (renewOwnedClaim ctx k token ttl) h"
  by (auto simp: renewOwnedClaim_def split: sum.split option.split
      intro!: discipline_renew dest: idempotencyExpiry_int64)

text \<open>What a successful renewal leaves behind: its own document at the revision it returns.\<close>

definition leaves_claim :: "string \<Rightarrow> string \<Rightarrow> u64 \<Rightarrow> event list \<Rightarrow> bool" where
  "leaves_claim k token rv h \<longleftrightarrow> (\<exists>d cl. seen h k rv d \<and> unmarshalClaim d = Inr cl \<and> cp_Token cl = token)"

lemma leaves_claimI:
  "(KvUpdate k (marshalClaim cl) rv0, a) \<in> set h \<Longrightarrow> a_rev a = Inr rv \<Longrightarrow> in_int64 (cp_ExpiresAt cl) \<Longrightarrow>
   leaves_claim k (cp_Token cl) rv h"
  unfolding leaves_claim_def by (blast intro: seenI_update unmarshal_marshal_claim)

lemma leaves_claim_mono: "leaves_claim k token rv h \<Longrightarrow> set h \<subseteq> set h' \<Longrightarrow> leaves_claim k token rv h'"
  unfolding leaves_claim_def seen_def by blast

lemma renewOwnedClaim_seen:
  assumes "replay (renewOwnedClaim ctx k token ttl) tr = Some (Inr rv)"
  shows "leaves_claim k token rv tr"
proof -
  obtain cl e rv0 a where "(KvUpdate k (marshalClaim (cl\<lparr>cp_ExpiresAt := e\<rparr>)) rv0, a) \<in> set tr"
    "a_rev a = Inr rv" "in_int64 e" "cp_Token cl = token"
    using assms
    by (auto simp: renewOwnedClaim_def trace_simps split: if_splits dest!: mapErr_trace idempotencyExpiry_int64)
  then show ?thesis using leaves_claimI [of k "cl\<lparr>cp_ExpiresAt := e\<rparr>" rv0 a tr rv] by simp
qed

lemma Complete_guarded: "guarded (discipline (Some token)) (Complete K c ctx key token entry ttl) h"
proof -
  have del: "discipline (Some token) h' (KvDelete k (Some rv))" if "leaves_claim k token rv h'" for h' k rv
    using that by (auto simp: leaves_claim_def intro: discipline_delete)
  show ?thesis
    by (auto simp: Complete_def extendClaimForCompletion_def Let_def split: sum.split option.split
        intro!: guarded_bind renewOwnedClaim_guarded del dest!: renewOwnedClaim_seen elim!: leaves_claim_mono)
qed

lemma Release_guarded: "guarded (discipline (Some token)) (Release c ctx key token) h"
  by (auto simp: Release_def Let_def split: sum.split option.split intro!: discipline_delete seenI_get)

lemma RenewClaim_guarded: "guarded (discipline (Some token)) (RenewClaim K c ctx key token ttl) h"
  by (auto simp: RenewClaim_def Let_def split: sum.split option.split intro!: guarded_bind renewOwnedClaim_guarded)

lemma Get_guarded: "guarded (discipline tok) (Get K c ctx key) h"
  by (auto simp: Get_def split: option.split intro!: guarded_bind)

lemma SetKV_guarded: "guarded (discipline tok) (SetKV K c ctx key entry ttl) h"
  by (auto simp: SetKV_def Let_def split: sum.split option.split intro!: guarded_bind)

lemma call_guarded: "guarded (discipline (call_token cc)) (call_prog K c cc) h"
  by (cases cc) (auto intro!: guarded_bind Claim_guarded Complete_guarded Release_guarded RenewClaim_guarded
      Get_guarded SetKV_guarded)

section \<open>What the bucket guarantees of its log\<close>

definition bucket_ok :: "bucket \<Rightarrow> bool" where
  "bucket_ok b \<longleftrightarrow>
     (\<forall>k d. bk_doc b k = Some d \<longrightarrow> (k, bk_rev b k, d) \<in> set (bk_log b)) \<and>
     (\<forall>k r d. (k, r, d) \<in> set (bk_log b) \<longrightarrow> r \<le> bk_last b) \<and>
     (\<forall>k r d d'. (k, r, d) \<in> set (bk_log b) \<longrightarrow> (k, r, d') \<in> set (bk_log b) \<longrightarrow> d = d')"

lemma bucket0_ok [simp]: "bucket_ok bucket0"
  by (simp add: bucket_ok_def bucket0_def)

lemma kv_write_ok: "bucket_ok b \<Longrightarrow> bk_last b < r \<Longrightarrow> bucket_ok (kv_write b k d r)"
  unfolding bucket_ok_def kv_write_def by (auto 4 3)

lemma kv_effect_ok: "bucket_ok b \<Longrightarrow> bk_last b < r \<Longrightarrow> bucket_ok (kv_effect b q r)"
proof (cases q)
  case (KvDelete k rv)
  then show "bucket_ok b \<Longrightarrow> bk_last b < r \<Longrightarrow> bucket_ok (kv_effect b q r)"
    unfolding bucket_ok_def by (auto 4 3)
qed (simp_all add: kv_write_ok)

lemma bucket_step_ok: "bucket_step b q a b' \<Longrightarrow> bucket_ok b \<Longrightarrow> bucket_ok b'"
  unfolding bucket_step_def takes_effect_def by (blast intro: kv_effect_ok)

lemma bucket_step_log: "bucket_step b q a b' \<Longrightarrow> set (bk_log b) \<subseteq> set (bk_log b')"
  by (cases q) (auto simp: bucket_step_def takes_effect_def kv_write_def)

lemma serves_ok: "serves b H b' \<Longrightarrow> bucket_ok b \<Longrightarrow> bucket_ok b'"
  by (induction rule: serves.induct) (auto intro: bucket_step_ok)

text \<open>Whatever a call has seen is in the log.\<close>

lemma proj_snoc: "proj i (H @ [(j, q, a)]) = (if j = i then proj i H @ [(q, a)] else proj i H)"
  by (simp add: proj_def)

lemma proj_mem: "e \<in> set (proj i H) \<Longrightarrow> (i, e) \<in> set H"
  by (auto simp: proj_def)

lemma seen_logged:
  "serves b H b' \<Longrightarrow> seen (proj i H) k rv d \<Longrightarrow> (k, rv, d) \<in> set (bk_log b')"
proof (induction rule: serves.induct)
  case (serves_Nil b)
  then show ?case by (simp add: proj_def seen_def)
next
  case (serves_snoc b H b' q a b'' j)
  show ?case
  proof (cases "seen (proj i H) k rv d")
    case True
    then show ?thesis using serves_snoc bucket_step_log by blast
  next
    case False
    then have "(q = KvGet k \<and> (\<exists>it. a_item a = Inr it \<and> it_Revision it = rv \<and> it_Value it = d)) \<or>
        (\<exists>rv0. q = KvUpdate k d rv0 \<and> a_rev a = Inr rv)"
      using serves_snoc.prems unfolding seen_def by (auto simp: proj_snoc split: if_splits)
    then show ?thesis using serves_snoc.hyps(2)
      by (auto simp: bucket_step_def takes_effect_def kv_write_def)
  qed
qed

section \<open>Leases are exclusive\<close>

lemma interleaves_discipline:
  assumes "interleaves K c calls (H @ (i, q, a) # H')"
  shows "discipline (call_token (calls i)) (proj i H) q"
proof -
  have "proj i (H @ (i, q, a) # H') = proj i H @ (q, a) # proj i H'" by (simp add: proj_def)
  then have "after (call_prog K c (calls i)) (proj i H @ (q, a) # proj i H') \<noteq> None"
    using assms unfolding interleaves_def by metis
  from guarded_after [OF call_guarded this, of "[]"] show ?thesis by simp
qed

lemma claim_not_entry [simp]: "claimPrefix @ key \<noteq> entryPrefix @ key'"
  by (simp add: claimPrefix_def entryPrefix_def)

text \<open>The only ways in which a step can change a claim document.\<close>

lemma claim_changes:
  assumes "interleaves K c calls (H @ (i, q, a) # H')" "serves bucket0 H b" "bucket_step b q a b'"
    and doc: "bk_doc b (claimPrefix @ key) = Some d" "unmarshalClaim d = Inr cl"
    and change: "bk_doc b' (claimPrefix @ key) \<noteq> Some d"
  shows "call_token (calls i) = Some (cp_Token cl) \<or>
    (call_token (calls i) = None \<and> (\<exists>clock. (TimeNow, clock) \<in> set (proj i H) \<and> cp_ExpiresAt cl \<le> a_now clock))"
proof -
  let ?k = "claimPrefix @ key"
  note W = interleaves_discipline [OF assms(1)]
  have ok: "bucket_ok b" using serves_ok [OF assms(2)] by simp
  have same: "d' = d" if "seen (proj i H) ?k (bk_rev b ?k) d'" for d'
    using seen_logged [OF assms(2) that] ok doc(1) unfolding bucket_ok_def by blast
  from assms(3) change doc(1) have "takes_effect b q a b'" by (auto simp: bucket_step_def)
  then obtain r where r: "kv_allowed b q" "b' = kv_effect b q r" by (auto simp: takes_effect_def)
  show ?thesis
  proof (cases q)
    case (KvUpdate k d' rv)
    with r change have [simp]: "k = ?k" and rv: "rv = bk_rev b ?k"
      using doc(1) by (auto simp: kv_write_def split: if_splits)
    from W [unfolded KvUpdate] obtain d0 cl0 clock where
      "seen (proj i H) ?k (bk_rev b ?k) d0" "unmarshalClaim d0 = Inr cl0" "(TimeNow, clock) \<in> set (proj i H)"
      and tok: "case call_token (calls i) of None \<Rightarrow> cp_ExpiresAt cl0 \<le> a_now clock | Some t \<Rightarrow> cp_Token cl0 = t \<and>
          (\<exists>e. d' = marshalClaim (cl0\<lparr>cp_ExpiresAt := e\<rparr>) \<and> in_int64 e)"
      by (auto simp: discipline_def rv)
    moreover from this(1,2) have "cl0 = cl" using same doc(2) by auto
    ultimately show ?thesis by (auto split: option.splits)
  next
    case (KvDelete k rv)
    with r change doc(1) have [simp]: "k = ?k" by (auto split: if_splits)
    from W [unfolded KvDelete] r KvDelete same doc(2) show ?thesis
      by (auto simp: discipline_def)
  next
    case (KvPut k d')
    with r change doc(1) W show ?thesis by (auto simp: kv_write_def discipline_def split: if_splits)
  next
    case (KvCreate k d')
    with r change doc(1) show ?thesis by (auto simp: kv_write_def split: if_splits)
  qed (use r(1) in simp_all)
qed

lemma serves_append:
  "serves b H b' \<Longrightarrow> serves b' H' b'' \<Longrightarrow> serves b (H @ H') b''"
proof (rotate_tac, induction rule: serves.induct)
  case (serves_snoc b0 H0 b1 q a b2 i)
  then show ?case by (metis append_assoc serves.serves_snoc)
qed simp

lemma interleaves_prefix: "interleaves K c calls (H @ H') \<Longrightarrow> interleaves K c calls H"
  unfolding interleaves_def
proof
  fix i
  assume "\<forall>i. after (call_prog K c (calls i)) (proj i (H @ H')) \<noteq> None"
  then have "after (call_prog K c (calls i)) (proj i H @ proj i H') \<noteq> None" by (auto simp: proj_def)
  then show "after (call_prog K c (calls i)) (proj i H) \<noteq> None" by (auto simp: after_append split: option.splits)
qed

text \<open>
  C4: Leases are exclusive.  However any number of coordinator calls interleave on one bucket, a claim
  document stays as it is while no call presenting its token is served and every clock reading so far is
  before its expiry: nobody but the owner can renew, delete or replace a live claim.
\<close>

theorem lease_exclusive:
  assumes "interleaves K c calls (H @ H')" "serves bucket0 H b" "serves b H' b'"
    and "bk_doc b (claimPrefix @ key) = Some d" "unmarshalClaim d = Inr cl"
    and "\<forall>(i, q, a) \<in> set H'. call_token (calls i) \<noteq> Some (cp_Token cl)"
    and "\<forall>(i, q, a) \<in> set (H @ H'). q = TimeNow \<longrightarrow> a_now a < cp_ExpiresAt cl"
  shows "bk_doc b' (claimPrefix @ key) = Some d"
  using assms(3,1,2,4-)
proof (induction rule: serves.induct)
  case (serves_snoc b H' b1 q a b2 i)
  have "interleaves K c calls (H @ H')"
    using serves_snoc.prems(1) interleaves_prefix [of K c calls "H @ H'" "[(i, q, a)]"] by simp
  then have d1: "bk_doc b1 (claimPrefix @ key) = Some d" using serves_snoc by simp
  show ?case
  proof (rule ccontr)
    assume "bk_doc b2 (claimPrefix @ key) \<noteq> Some d"
    then have "call_token (calls i) = Some (cp_Token cl) \<or> (call_token (calls i) = None \<and>
        (\<exists>clock. (TimeNow, clock) \<in> set (proj i (H @ H')) \<and> cp_ExpiresAt cl \<le> a_now clock))"
      using claim_changes [of K c calls "H @ H'" i q a "[]", OF _ serves_append [OF serves_snoc.prems(2)
          serves_snoc.hyps(1)] serves_snoc.hyps(2) d1] serves_snoc.prems by simp
    moreover have "call_token (calls i) \<noteq> Some (cp_Token cl)" using serves_snoc.prems(5) by simp
    ultimately obtain clock where "(TimeNow, clock) \<in> set (proj i (H @ H'))" "cp_ExpiresAt cl \<le> a_now clock"
      by blast
    moreover from proj_mem [OF this(1)] have "a_now clock < cp_ExpiresAt cl"
      using bspec [OF serves_snoc.prems(6), of "(i, TimeNow, clock)"] by auto
    ultimately show False by simp
  qed
qed

section \<open>Concrete histories\<close>

lemma serves_Cons: "bucket_step b q a b1 \<Longrightarrow> serves b1 H b' \<Longrightarrow> serves b ((i, q, a) # H) b'"
  using serves_append [OF serves_snoc [OF serves_Nil]] by fastforce

text \<open>A bucket in memory that serves a history, if its answers are those of such a bucket.\<close>

definition next_rev :: "bucket \<Rightarrow> request \<Rightarrow> answer \<Rightarrow> u64" where
  "next_rev b q a = (case q of KvDelete k rv \<Rightarrow> bk_last b + 1 | _ \<Rightarrow> (case a_rev a of Inr r \<Rightarrow> r | Inl _ \<Rightarrow> 0))"

fun serve :: "bucket \<Rightarrow> history \<Rightarrow> bucket option" where
  "serve b [] = Some b"
| "serve b ((i, q, a) # H) =
    (if committed (q, a) then
       (if kv_allowed b q \<and> bk_last b < next_rev b q a then serve (kv_effect b q (next_rev b q a)) H else None)
     else (case q of
         KvGet k \<Rightarrow> (case a_item a of
             Inr it \<Rightarrow> if (k, it_Revision it, it_Value it) \<in> set (bk_log b) then serve b H else None
           | Inl _ \<Rightarrow> serve b H)
       | _ \<Rightarrow> serve b H))"

lemma committed_rev: "committed (q, a) \<Longrightarrow> (\<exists>k rv. q = KvDelete k rv) \<or> a_rev a = Inr (next_rev b q a)"
  by (cases q) (auto simp: next_rev_def split: sum.splits)

lemma serve_serves: "serve b H = Some b' \<Longrightarrow> serves b H b'"
proof (induction b H rule: serve.induct)
  case (1 b)
  then show ?case by (simp add: serves_Nil)
next
  case (2 b i q a H)
  show ?case
  proof (cases "committed (q, a)")
    case True
    let ?r = "next_rev b q a"
    from True 2 have "kv_allowed b q" "bk_last b < ?r" "serves (kv_effect b q ?r) H b'"
      by (auto split: if_splits)
    moreover from this committed_rev [OF True] have "bucket_step b q a (kv_effect b q ?r)"
      unfolding bucket_step_def takes_effect_def by blast
    ultimately show ?thesis by (blast intro: serves_Cons)
  next
    case False
    with 2 have "bucket_step b q a b" "serves b H b'"
      by (auto simp: bucket_step_def split: request.splits sum.splits if_splits)
    then show ?thesis by (rule serves_Cons)
  qed
qed

lemma interleaves_done:
  assumes "\<And>i. proj i H = [] \<or> (\<exists>x. replay (call_prog K c (calls i)) (proj i H) = Some x)"
  shows "interleaves K c calls H"
  unfolding interleaves_def
proof
  fix i
  show "after (call_prog K c (calls i)) (proj i H) \<noteq> None"
    using assms [of i] by (auto simp: replay_after)
qed

text \<open>The part of a claim before its first write, with the time and the random bytes it reads, and that write.\<close>

definition at_time :: "instant \<Rightarrow> answer" where
  "at_time t = answer0\<lparr>a_now := t\<rparr>"

definition claim_prelude :: "string \<Rightarrow> instant \<Rightarrow> bytes \<Rightarrow> event list" where
  "claim_prelude key t rnd = [(KvGet (entryPrefix @ key), answer0\<lparr>a_item := Inl not_found\<rparr>), (TimeNow, at_time t),
     (RandRead 16, answer0\<lparr>a_bytes := Inr rnd\<rparr>)]"

definition claim_create :: "string \<Rightarrow> kvClaimPayload \<Rightarrow> u64 \<Rightarrow> event" where
  "claim_create key cl r = (KvCreate (claimPrefix @ key) (marshalClaim cl), answer0\<lparr>a_rev := Inr r\<rparr>)"

definition kv_item_of :: "data \<Rightarrow> u64 \<Rightarrow> kv_item" where
  "kv_item_of d r = \<lparr>it_Key = [], it_Value = d, it_Revision = r, it_Created = 0\<rparr>"

text \<open>A completion at time \<open>t\<close> that finds a claim at revision 1 and extends it to \<open>cl'\<close>.\<close>

definition complete_events :: "string \<Rightarrow> instant \<Rightarrow> kvClaimPayload \<Rightarrow> kvClaimPayload \<Rightarrow> data \<Rightarrow> event list" where
  "complete_events key t cl cl' d = [(TimeNow, at_time t),
     (KvGet (claimPrefix @ key), answer0\<lparr>a_item := Inr (kv_item_of (marshalClaim cl) 1)\<rparr>),
     (TimeNow, at_time t), (KvUpdate (claimPrefix @ key) (marshalClaim cl') 1, answer0\<lparr>a_rev := Inr 2\<rparr>),
     (KvPut (entryPrefix @ key) d, answer0\<lparr>a_rev := Inr 3\<rparr>), (KvDelete (claimPrefix @ key) (Some 2), answer0)]"

text \<open>Clock readings, in order, at which a claim, another claim and the completion of that one are possible.\<close>

definition race_times :: "kernel \<Rightarrow> duration \<Rightarrow> duration \<Rightarrow> instant \<Rightarrow> instant \<Rightarrow> instant \<Rightarrow> bool" where
  "race_times K ttl ettl t0 t1 t2 \<longleftrightarrow> 0 \<le> t0 \<and> t0 \<le> t1 \<and> t1 \<le> t2 \<and> t2 < t1 + lease K ttl \<and> t1 + lease K ttl \<le> maxInt64 \<and>
     0 < k_DefaultIdempotencyLeaseTTL K \<and> t2 + k_DefaultIdempotencyLeaseTTL K \<le> maxInt64 \<and> in_int64 ettl \<and> t2 + ettl \<le> maxInt64"

lemma race_expiry:
  assumes "race_times K ttl ettl t0 t1 t2"
  shows "t \<in> {t0, t1} \<Longrightarrow> idempotencyExpiry t (lease K ttl) = Inr (t + lease K ttl)"
    and "idempotencyExpiry t2 (k_DefaultIdempotencyLeaseTTL K) = Inr (t2 + k_DefaultIdempotencyLeaseTTL K)"
    and "idempotencyExpiry t2 ettl = Inr (if ettl \<le> 0 then 0 else t2 + ettl)"
    and "0 < t1 + lease K ttl" "t2 < t1 + lease K ttl" "in_int64 (t1 + lease K ttl)"
  using assms by (auto simp: race_times_def in_int64_def idempotencyExpiry_cases)

lemma claim_run:
  assumes "\<not> uninitialized c" "key \<noteq> []" "idempotencyExpiry t (lease K ttl) = Inr e"
  shows "replay (Claim K c Background key h ttl)
      (claim_prelude key t rnd @ [claim_create key (claim_of (hex_EncodeToString rnd) h e) r]) =
    Some (Inr (acquired (hex_EncodeToString rnd)))"
  using assms
  by (simp add: claim_prelude_def claim_create_def claim_of_def at_time_def Claim_def Let_def loadEntry_def createClaim_def
      newKVClaimToken_def idempotencyContext_def ctx_Err_def replay.simps lease_def [symmetric])

lemma complete_run:
  assumes "\<not> uninitialized c" "key \<noteq> []" "token \<noteq> []" "k_marshalEntry K entry = Inr j"
    and "idempotencyExpiry t ettl = Inr exp" "idempotencyExpiry t (k_DefaultIdempotencyLeaseTTL K) = Inr e'"
    and "in_int64 e" "0 < e" "t < e"
  shows "replay (Complete K c Background key token entry ettl)
      (complete_events key t (claim_of token h e) (claim_of token h e') (Doc (JObj [(''entry'', j), (''exp'', JNum exp)]))) =
    Some None"
  using assms
  by (simp add: complete_events_def at_time_def claim_of_def kv_item_of_def Complete_def Let_def
      extendClaimForCompletion_def renewOwnedClaim_def marshalKVEntry_def idempotencyContext_def ctx_Err_def replay.simps)

lemma entry_not_claim [simp]: "entryPrefix @ key \<noteq> claimPrefix @ key'"
  using claim_not_entry [of key' key] by metis

lemma prefixes_differ [simp]: "claimPrefix \<noteq> entryPrefix" "entryPrefix \<noteq> claimPrefix"
  by (simp_all add: claimPrefix_def entryPrefix_def)

text \<open>Call 0 is overtaken between its look-up and its write by a whole claim and completion.\<close>

definition overtaking ::
  "string \<Rightarrow> instant \<Rightarrow> bytes \<Rightarrow> instant \<Rightarrow> bytes \<Rightarrow> instant \<Rightarrow> kvClaimPayload \<Rightarrow> kvClaimPayload \<Rightarrow> data \<Rightarrow> history" where
  "overtaking key t0 rnd0 t1 rnd1 t2 cl cl' d = map (Pair 0) (claim_prelude key t0 rnd0) @
     map (Pair 1) (claim_prelude key t1 rnd1 @ [claim_create key cl 1]) @ map (Pair 2) (complete_events key t2 cl cl' d)"

lemma overtaking_proj:
  assumes "H = overtaking key t0 rnd0 t1 rnd1 t2 cl cl' d"
  shows "proj 0 (H @ [(0, e)]) = claim_prelude key t0 rnd0 @ [e]"
    and "proj 1 (H @ [(0, e)]) = claim_prelude key t1 rnd1 @ [claim_create key cl 1]" "proj 1 (H @ [(0, e)]) = proj 1 H"
    and "proj 2 (H @ [(0, e)]) = complete_events key t2 cl cl' d" "proj 2 (H @ [(0, e)]) = proj 2 H"
    and "i > 2 \<Longrightarrow> proj i (H @ [(0, e)]) = []"
  by (simp_all add: assms proj_def overtaking_def filter_map o_def)

lemma overtaking_serve:
  "\<exists>b. serve bucket0 (overtaking key t0 rnd0 t1 rnd1 t2 cl cl' d) = Some b \<and>
     bk_doc b (entryPrefix @ key) = Some d \<and> bk_doc b (claimPrefix @ key) = None \<and> bk_last b = 4"
  unfolding overtaking_def claim_prelude_def complete_events_def claim_create_def
  by (simp add: bucket0_def kv_write_def next_rev_def kv_item_of_def)




text \<open>A second claim that finds the first one in its way.\<close>

definition samplePayload :: "bytes \<Rightarrow> kvClaimPayload" where
  "samplePayload rnd = claim_of (hex_EncodeToString rnd) ''h'' (30 * Second)"

definition lateClaim :: history where
  "lateClaim = map (Pair 0) (claim_prelude ''k'' 0 ''B'') @ [(0, KvCreate (claimPrefix @ ''k'') (marshalClaim (samplePayload ''B'')),
     answer0\<lparr>a_rev := Inl (sentinel_error ErrKeyExists)\<rparr>)]"

definition firstClaim :: history where
  "firstClaim = map (Pair 1) (claim_prelude ''k'' 0 ''A'' @ [claim_create ''k'' (samplePayload ''A'') 1])"

lemma late_interleaves:
  "interleaves sampleKernel sampleCoordinator (\<lambda>_. CallClaim Background ''k'' ''h'' 0) (firstClaim @ lateClaim)"
  unfolding interleaves_def
proof
  fix i :: nat
  consider "i = 0" | "i = 1" | "i > 1" by linarith
  then show "after (call_prog sampleKernel sampleCoordinator (CallClaim Background ''k'' ''h'' 0))
      (proj i (firstClaim @ lateClaim)) \<noteq> None"
    by cases (simp_all add: proj_def firstClaim_def lateClaim_def filter_map o_def claim_prelude_def claim_create_def
        samplePayload_def claim_of_def at_time_def Claim_def Let_def loadEntry_def createClaim_def newKVClaimToken_def
        idempotencyContext_def ctx_Err_def idempotencyExpiry_cases in_int64_def)
qed

theorem lease_exclusive_witness:
  "\<exists>b b'. serves bucket0 firstClaim b \<and> serves b lateClaim b' \<and>
     bk_doc b' (claimPrefix @ ''k'') = Some (marshalClaim (samplePayload ''A''))"
proof -
  obtain b where b: "serve bucket0 firstClaim = Some b" "bk_doc b (claimPrefix @ ''k'') = Some (marshalClaim (samplePayload ''A''))"
    "serve b lateClaim = Some b"
    unfolding firstClaim_def lateClaim_def claim_prelude_def claim_create_def
    by (simp add: bucket0_def kv_write_def next_rev_def)
  have cl: "unmarshalClaim (marshalClaim (samplePayload ''A'')) = Inr (samplePayload ''A'')"
    by (simp add: samplePayload_def claim_of_def in_int64_def)
  have "\<forall>(i, q, a) \<in> set (firstClaim @ lateClaim). q = TimeNow \<longrightarrow> a_now a < cp_ExpiresAt (samplePayload ''A'')"
    by (simp add: firstClaim_def lateClaim_def claim_prelude_def claim_create_def samplePayload_def claim_of_def at_time_def)
  from lease_exclusive [OF late_interleaves serve_serves [OF b(1)] serve_serves [OF b(3)] b(2) cl _ this]
  show ?thesis using serve_serves [OF b(1)] serve_serves [OF b(3)] by auto
qed

end
