(* ===== verification/Contexts.thy ===== *)
theory Contexts
  imports Effects
begin

text \<open>
  Identifiers that travel with a message: \<open>src/tnats/tnats_context.go\<close>.  The names of the headers
  and the reading of an identifier from a context belong to other modules and are parameters.
\<close>

record header_names =
  hn_RequestID :: string
  hn_ExecutionID :: string
  hn_identityExecutionID :: string
  hn_TraceID :: string
  hn_SpanID :: string

record RequestScope =
  rs_Endpoint :: string
  rs_RequestID :: string
  rs_TraceID :: string
  rs_SpanID :: string

text \<open>\<open>Header.Set\<close> replaces the values of a name.\<close>

fun header_Set :: "header \<Rightarrow> string \<Rightarrow> string \<Rightarrow> header" where
  "header_Set [] k v = [(k, [v])]"
| "header_Set ((k', vs) # h) k v = (if k' = k then (k, [v]) # h else (k', vs) # header_Set h k v)"

definition set_nonempty :: "string \<Rightarrow> string \<Rightarrow> header \<Rightarrow> header" where
  "set_nonempty k v h = (if v \<noteq> [] then header_Set h k v else h)"

definition injectContextHeaders :: "header_names \<Rightarrow> (id_kind \<Rightarrow> ctx \<Rightarrow> string) \<Rightarrow> ctx \<Rightarrow> msg \<Rightarrow> msg" where
  "injectContextHeaders hn ids ctx m =
    (let reqID = ids RequestID ctx; execID = ids ExecutionID ctx;
         traceID = ids TraceID ctx; spanID = ids SpanID ctx
     in if reqID = [] \<and> execID = [] \<and> traceID = [] \<and> spanID = [] then m
        else (let h = (case m_Header m of None \<Rightarrow> [] | Some h \<Rightarrow> h);
                  h = set_nonempty (hn_RequestID hn) reqID h;
                  h = set_nonempty (hn_ExecutionID hn) execID h;
                  h = set_nonempty (hn_TraceID hn) traceID h;
                  h = set_nonempty (hn_SpanID hn) spanID h
              in m\<lparr>m_Header := Some h\<rparr>))"

definition extractContextHeaders ::
  "header_names \<Rightarrow> ctx \<Rightarrow> msg \<Rightarrow> RequestScope \<Rightarrow> ctx \<times> RequestScope" where
  "extractContextHeaders hn ctx m scope =
    (if m_Header m = None then (ctx, scope)
     else (let get = header_Get (m_Header m);
               reqID = get (hn_RequestID hn);
               (ctx, scope) = (if reqID \<noteq> [] then (WithID ctx RequestID reqID, scope\<lparr>rs_RequestID := reqID\<rparr>)
                               else (ctx, scope));
               execID = get (hn_identityExecutionID hn);
               ctx = (if execID \<noteq> [] then WithID ctx ExecutionID execID else ctx);
               traceID = get (hn_TraceID hn);
               (ctx, scope) = (if traceID \<noteq> [] then (WithID ctx TraceID traceID, scope\<lparr>rs_TraceID := traceID\<rparr>)
                               else (ctx, scope));
               spanID = get (hn_SpanID hn)
           in (if spanID \<noteq> [] then (WithID ctx SpanID spanID, scope\<lparr>rs_SpanID := spanID\<rparr>)
               else (ctx, scope))))"

section \<open>Identifiers survive the message\<close>

text \<open>
  What is relied on of the other modules: a set identifier is read back, and no two kinds of
  identifier share a header name.  The execution identifier is written under the name of one module
  and read under the name of another; whether these agree is not assumed.
\<close>

definition ids_ok :: "(id_kind \<Rightarrow> ctx \<Rightarrow> string) \<Rightarrow> bool" where
  "ids_ok ids \<longleftrightarrow> (\<forall>k k' c v. ids k (WithID c k' v) = (if k' = k then v else ids k c))"

definition names_ok :: "header_names \<Rightarrow> bool" where
  "names_ok hn \<longleftrightarrow> distinct [hn_RequestID hn, hn_ExecutionID hn, hn_TraceID hn, hn_SpanID hn] \<and>
     hn_identityExecutionID hn \<notin> {hn_RequestID hn, hn_TraceID hn, hn_SpanID hn}"

text \<open>The header an identifier is written to, and the one it is read from.\<close>

fun written_name :: "header_names \<Rightarrow> id_kind \<Rightarrow> string" where
  "written_name hn RequestID = hn_RequestID hn"
| "written_name hn ExecutionID = hn_ExecutionID hn"
| "written_name hn TraceID = hn_TraceID hn"
| "written_name hn SpanID = hn_SpanID hn"

fun read_name :: "header_names \<Rightarrow> id_kind \<Rightarrow> string" where
  "read_name hn ExecutionID = hn_identityExecutionID hn"
| "read_name hn k = written_name hn k"

lemma header_Get_Set: "header_Get (Some (header_Set h k v)) k' = (if k' = k then v else header_Get (Some h) k')"
  by (induction h k v rule: header_Set.induct) (auto simp: header_Get_def)

lemma header_Get_set_nonempty [simp]:
  "header_Get (Some (set_nonempty k v h)) k' = (if k' = k \<and> v \<noteq> [] then v else header_Get (Some h) k')"
  by (simp add: set_nonempty_def header_Get_Set)

lemma header_Get_Nil [simp]: "header_Get (Some []) k = []" "header_Get None k = []"
  by (simp_all add: header_Get_def)

lemma extract_ids:
  assumes "ids_ok ids"
  shows "ids k (fst (extractContextHeaders hn ctx m scope)) =
    (let v = header_Get (m_Header m) (read_name hn k) in if v \<noteq> [] then v else ids k ctx)"
  using assms by (cases k) (auto simp: extractContextHeaders_def ids_ok_def Let_def)

lemma inject_header:
  assumes "names_ok hn"
  shows "header_Get (m_Header (injectContextHeaders hn ids ctx m)) (read_name hn k) =
    (if read_name hn k = written_name hn k \<and> ids k ctx \<noteq> [] then ids k ctx
     else header_Get (m_Header m) (read_name hn k))"
  using assms
  by (cases k; cases "m_Header m") (auto simp: injectContextHeaders_def Let_def names_ok_def)

text \<open>
  C39: Identifiers travel with a message.  Request, trace and span identifiers of the sender's context
  are those of the receiver's context after \<open>injectContextHeaders\<close> and \<open>extractContextHeaders\<close>.  The
  execution identifier is, if the two modules name its header alike; if they do not, the sender's is
  lost.  Where nothing is sent, a header the message already had counts, and without one the receiver
  keeps its own.
\<close>

theorem context_roundtrip:
  assumes "ids_ok ids" "names_ok hn"
  shows "ids k (fst (extractContextHeaders hn base (injectContextHeaders hn ids ctx m) scope)) =
    (if ids k ctx \<noteq> [] \<and> (k = ExecutionID \<longrightarrow> hn_identityExecutionID hn = hn_ExecutionID hn) then ids k ctx
     else if header_Get (m_Header m) (read_name hn k) \<noteq> [] then header_Get (m_Header m) (read_name hn k)
     else ids k base)"
  unfolding extract_ids [OF assms(1)] inject_header [OF assms(2)]
  by (cases k) (auto simp: Let_def)

text \<open>Reading identifiers by the nearest one set, and a choice of names.\<close>

fun id_of :: "id_kind \<Rightarrow> ctx \<Rightarrow> string" where
  "id_of k (WithID c k' v) = (if k' = k then v else id_of k c)"
| "id_of k (WithTimeout c d) = id_of k c"
| "id_of k (WithCancel c) = id_of k c"
| "id_of k (WithoutCancel c) = id_of k c"
| "id_of k (Scoped c) = id_of k c"
| "id_of k (WithTrace c t s) = (case k of TraceID \<Rightarrow> t | SpanID \<Rightarrow> s | _ \<Rightarrow> id_of k c)"
| "id_of k _ = []"

definition tripNames :: "string \<Rightarrow> header_names" where
  "tripNames readID = \<lparr>hn_RequestID = ''X-Request-Id'', hn_ExecutionID = ''X-Execution-Id'',
     hn_identityExecutionID = readID, hn_TraceID = ''X-Trace-Id'', hn_SpanID = ''X-Span-Id''\<rparr>"

definition sampleSent :: "string \<Rightarrow> id_kind \<Rightarrow> string" where
  "sampleSent readID k = id_of k (fst (extractContextHeaders (tripNames readID) (WithID Background ExecutionID ''e0'')
     (injectContextHeaders (tripNames readID) id_of (WithID (WithID Background TraceID ''t1'') ExecutionID ''e1'')
        \<lparr>m_Subject = ''s'', m_Reply = [], m_Data = [], m_Header = None\<rparr>)
     \<lparr>rs_Endpoint = [], rs_RequestID = [], rs_TraceID = [], rs_SpanID = []\<rparr>))"

theorem context_roundtrip_witness:
  "sampleSent ''X-Execution-Id'' TraceID = ''t1'' \<and> sampleSent ''X-Execution-Id'' ExecutionID = ''e1'' \<and>
   sampleSent ''Other'' TraceID = ''t1'' \<and> sampleSent ''Other'' ExecutionID = ''e0''"
proof -
  have ids: "ids_ok id_of" by (simp add: ids_ok_def)
  have names: "names_ok (tripNames ''X-Execution-Id'')" "names_ok (tripNames ''Other'')"
    by (simp_all add: names_ok_def tripNames_def)
  show ?thesis
    unfolding sampleSent_def context_roundtrip [OF ids names(1)] context_roundtrip [OF ids names(2)]
    by (simp add: tripNames_def)
qed

end
