(* ===== verification/Streams.thy ===== *)
theory Streams
  imports Bindings Subjects "HOL-Library.Sublist"
begin

text \<open>
  Provisioning of streams and consumers and the pull loop: \<open>src/tnats/tnats_stream.go\<close>,
  \<open>src/tnats/consumer.go\<close> and \<open>src/tnats/tnats_durable.go\<close>.
\<close>

section \<open>Streams\<close>

abbreviation ErrStreamNotFound :: sentinel where "ErrStreamNotFound \<equiv> NatsErr ''ErrStreamNotFound''"
abbreviation ErrStreamNameAlreadyInUse :: sentinel where
  "ErrStreamNameAlreadyInUse \<equiv> NatsErr ''ErrStreamNameAlreadyInUse''"

definition streamConfig :: "string \<Rightarrow> string list \<Rightarrow> StreamConfig" where
  "streamConfig name subjects = \<lparr>sc_Name = name, sc_Subjects = subjects, sc_Storage = FileStorage,
     sc_Retention = LimitsPolicy, sc_Discard = DiscardOld, sc_MaxAge = 7 * 24 * 3600 * Second, sc_Rest = 0\<rparr>"

definition subject_configured :: "string list \<Rightarrow> string \<Rightarrow> bool" where
  "subject_configured configured subject \<longleftrightarrow>
     list_ex (\<lambda>c. c = subject \<or> subjectPatternCovers c subject) configured"

text \<open>The subjects of a stream with the missing ones appended, and whether there were any.\<close>

fun mergeSubjects :: "string list \<Rightarrow> string list \<Rightarrow> string list \<times> bool" where
  "mergeSubjects configured [] = (configured, False)"
| "mergeSubjects configured (subject # rest) =
    (if subject_configured configured subject then mergeSubjects configured rest
     else (fst (mergeSubjects (configured @ [subject]) rest), True))"

definition modified :: "(StreamConfig \<Rightarrow> StreamConfig) option \<Rightarrow> StreamConfig \<Rightarrow> StreamConfig" where
  "modified modifier cfg = (case modifier of None \<Rightarrow> cfg | Some f \<Rightarrow> f cfg)"

text \<open>
  The rounds of \<open>ensureStream\<close>, of which the source allows three.  The modifier is the option
  \<open>WithStreamConfigModifier\<close> of the transport, \<open>None\<close> if it is not set.
\<close>

primrec ensureStreamRounds ::
  "(StreamConfig \<Rightarrow> StreamConfig) option \<Rightarrow> string \<Rightarrow> string list \<Rightarrow> nat \<Rightarrow> goerror option io" where
  "ensureStreamRounds modifier name subjects 0 =
     Ret (Some (app KindConflict ''nats: stream configuration changed repeatedly during provisioning'' []))"
| "ensureStreamRounds modifier name subjects (Suc n) = js_StreamInfo name (\<lambda>info. case info of
      Inl err \<Rightarrow>
        if errors_Is err ErrStreamNotFound then
          js_AddStream (modified modifier (streamConfig name subjects)) (\<lambda>addErr. case addErr of
                None \<Rightarrow> Ret None
              | Some e \<Rightarrow>
                  if errors_Is e ErrStreamNameAlreadyInUse then ensureStreamRounds modifier name subjects n
                  else Ret (Some (MapErr e)))
        else Ret (Some (MapErr err))
    | Inr config \<Rightarrow>
        (let (merged, updated) = mergeSubjects (sc_Subjects config) subjects
         in if \<not> updated then Ret None
            else js_UpdateStream (config\<lparr>sc_Subjects := merged\<rparr>) (\<lambda>updateErr. case updateErr of
                Some e \<Rightarrow> Ret (Some (MapErr e))
              | None \<Rightarrow> ensureStreamRounds modifier name subjects n)))"

definition ensureStream ::
  "(StreamConfig \<Rightarrow> StreamConfig) option \<Rightarrow> string \<Rightarrow> string list \<Rightarrow> goerror option io" where
  "ensureStream modifier name subjects =
    (if subjects = [] then Ret None else ensureStreamRounds modifier name subjects 3)"

definition ensureDurableInfra :: "(StreamConfig \<Rightarrow> StreamConfig) option \<Rightarrow> DurableBinding \<Rightarrow> goerror option io" where
  "ensureDurableInfra modifier b =
    bind (ensureStream modifier (db_Stream b) [db_Subject b]) (\<lambda>err. case err of
        Some e \<Rightarrow> Ret (Some e)
      | None \<Rightarrow> ensureStream modifier (db_Stream b @ ''_DLQ'') [db_DeadLetterSubject b])"

definition ensureConsumerInfra :: "(StreamConfig \<Rightarrow> StreamConfig) option \<Rightarrow> ConsumerBinding \<Rightarrow> goerror option io" where
  "ensureConsumerInfra modifier b =
    (let subjects = (if length (cb_FilterSubjects b) > 0 then cb_FilterSubjects b else [cb_Subject b])
     in bind (ensureStream modifier (cb_Stream b) subjects) (\<lambda>err. case err of
          Some e \<Rightarrow> Ret (Some e)
        | None \<Rightarrow>
            if cb_DeadLetterSubject b \<noteq> []
            then ensureStream modifier (cb_Stream b @ ''_DLQ'') [cb_DeadLetterSubject b]
            else Ret None))"

section \<open>Consumers\<close>

definition applyAckPolicyOpts :: "subopt list \<Rightarrow> AckPolicy \<Rightarrow> subopt list" where
  "applyAckPolicyOpts opts p =
    (if p = AckNone then opts @ [OptAckNone]
     else if p = AckAll then opts @ [OptAckAll]
     else opts @ [OptAckExplicit])"

definition applyDeliverPolicyOpts :: "subopt list \<Rightarrow> ConsumerBinding \<Rightarrow> subopt list" where
  "applyDeliverPolicyOpts opts b =
    (let p = cb_DeliverPolicy b
     in if p = DeliverLast then opts @ [OptDeliverLast]
        else if p = DeliverNew then opts @ [OptDeliverNew]
        else if p = DeliverByStartSequence then opts @ [OptStartSequence (cb_OptStartSeq b)]
        else if p = DeliverByStartTime then opts @ [OptStartTime (cb_OptStartTime b)]
        else if p = DeliverLastPerSubject then opts @ [OptDeliverLastPerSubject]
        else opts @ [OptDeliverAll])"

definition applyReplayPolicyOpts :: "subopt list \<Rightarrow> ReplayPolicy \<Rightarrow> subopt list" where
  "applyReplayPolicyOpts opts p =
    (if p = ReplayOriginal then opts @ [OptReplayOriginal] else opts @ [OptReplayInstant])"

definition ensureUnlimitedConsumerDeliveries :: "string \<Rightarrow> string \<Rightarrow> goerror option io" where
  "ensureUnlimitedConsumerDeliveries stream durable = js_ConsumerInfo stream durable (\<lambda>info. case info of
      Inl e \<Rightarrow> Ret (Some (MapErr e))
    | Inr config \<Rightarrow>
        if cc_MaxDeliver config = -1 then Ret None
        else js_UpdateConsumer stream (config\<lparr>cc_MaxDeliver := -1\<rparr>) (\<lambda>err. case err of
            Some e \<Rightarrow> Ret (Some (MapErr e)) | None \<Rightarrow> Ret None))"

definition consumerOptions :: "ConsumerBinding \<Rightarrow> subopt list" where
  "consumerOptions b =
    (let opts = [BindStream (cb_Stream b), OptAckWait (cb_AckWait b), OptMaxDeliver (-1),
                 OptMaxAckPending (cb_MaxAckPending b)];
         opts = (if length (cb_FilterSubjects b) > 0 then opts @ [ConsumerFilterSubjects (cb_FilterSubjects b)] else opts);
         opts = applyAckPolicyOpts opts (cb_AckPolicy b);
         opts = applyDeliverPolicyOpts opts b;
         opts = applyReplayPolicyOpts opts (cb_ReplayPolicy b);
         opts = (if length (cb_BackOff b) > 0 then opts @ [OptBackOff (cb_BackOff b)] else opts);
         opts = (if cb_RateLimitBits b > 0 then opts @ [OptRateLimit (cb_RateLimitBits b)] else opts)
     in if cb_HeadersOnly b then opts @ [OptHeadersOnly] else opts)"

text \<open>The part shared by both kinds of subscription: subscribe, lift the server's delivery limit, or undo.\<close>

definition pullSubscription :: "string \<Rightarrow> string \<Rightarrow> string \<Rightarrow> subopt list \<Rightarrow> goerror option io" where
  "pullSubscription subject stream durable opts = js_PullSubscribe subject durable opts (\<lambda>err. case err of
      Some e \<Rightarrow> Ret (Some (MapErr e))
    | None \<Rightarrow> bind (ensureUnlimitedConsumerDeliveries stream durable) (\<lambda>err. case err of
        Some e \<Rightarrow> sub_Unsubscribe (\<lambda>_. Ret (Some e))
      | None \<Rightarrow> Ret None))"

definition consumerSubject :: "ConsumerBinding \<Rightarrow> string" where
  "consumerSubject b = (if length (cb_FilterSubjects b) > 0 then [] else cb_Subject b)"

definition openConsumerSubscription :: "ConsumerBinding \<Rightarrow> goerror option io" where
  "openConsumerSubscription b =
    pullSubscription (consumerSubject b) (cb_Stream b) (cb_Durable b)
      (consumerOptions b)"

text \<open>What the transport keeps of its pull subscriptions: their number and that of the workers started.\<close>

record pull_state =
  ps_subs :: nat
  ps_workers :: nat

definition start_worker :: "pull_state \<Rightarrow> pull_state" where
  "start_worker st = st\<lparr>ps_subs := Suc (ps_subs st), ps_workers := Suc (ps_workers st)\<rparr>"

definition subscribeConsumer ::
  "(StreamConfig \<Rightarrow> StreamConfig) option \<Rightarrow> ConsumerBinding \<Rightarrow> pull_state \<Rightarrow> (goerror option \<times> pull_state) io" where
  "subscribeConsumer modifier b st =
    (case validateConsumerBinding b of
       Some e \<Rightarrow> Ret (Some e, st)
     | None \<Rightarrow> bind (ensureConsumerInfra modifier b) (\<lambda>err. case err of
         Some e \<Rightarrow> Ret (Some e, st)
       | None \<Rightarrow> bind (openConsumerSubscription b) (\<lambda>err. case err of
           Some e \<Rightarrow> Ret (Some e, st)
         | None \<Rightarrow> Ret (None, start_worker st))))"

definition durableOptions :: "DurableBinding \<Rightarrow> subopt list" where
  "durableOptions b = [BindStream (db_Stream b), OptAckExplicit, OptAckWait (db_AckWait b), OptMaxDeliver (-1),
     OptMaxAckPending (db_MaxAckPending b)]"

definition subscribeDurable ::
  "(StreamConfig \<Rightarrow> StreamConfig) option \<Rightarrow> DurableBinding \<Rightarrow> pull_state \<Rightarrow> (goerror option \<times> pull_state) io" where
  "subscribeDurable modifier b st =
    (case validateDurableBinding b of
       Some e \<Rightarrow> Ret (Some e, st)
     | None \<Rightarrow> bind (ensureDurableInfra modifier b) (\<lambda>err. case err of
         Some e \<Rightarrow> Ret (Some e, st)
       | None \<Rightarrow> bind (pullSubscription (db_Subject b) (db_Stream b) (db_Durable b) (durableOptions b)) (\<lambda>err. case err of
           Some e \<Rightarrow> Ret (Some e, st)
         | None \<Rightarrow> Ret (None, start_worker st))))"

section \<open>The pull loop\<close>

text \<open>
  \<open>runFetchLoop\<close> for at most \<open>n\<close> rounds.  \<open>Some\<close> tells how the loop ended: it returned,
  after the deferred unsubscription, or the handler panicked; \<open>None\<close> is a loop still running.
\<close>

primrec handle_all :: "(msg \<Rightarrow> unit outcome io) \<Rightarrow> msg list \<Rightarrow> unit outcome io" where
  "handle_all handle [] = Ret (Returned ())"
| "handle_all handle (m # ms) = bind (handle m) (\<lambda>r. case r of
      Panicked \<Rightarrow> Ret Panicked | Returned _ \<Rightarrow> handle_all handle ms)"

primrec fetchRounds ::
  "(msg \<Rightarrow> unit outcome io) \<Rightarrow> ctx \<Rightarrow> duration \<Rightarrow> nat \<Rightarrow> nat \<Rightarrow> unit outcome option io" where
  "fetchRounds handle ctx fetchTimeout fetchBatchSize 0 = Ret None"
| "fetchRounds handle ctx fetchTimeout fetchBatchSize (Suc n) =
    (let continue = fetchRounds handle ctx fetchTimeout fetchBatchSize n
     in ctx_Err ctx (\<lambda>ctxErr. case ctxErr of
        Some _ \<Rightarrow> Ret (Some (Returned ()))
      | None \<Rightarrow> sub_Fetch (WithTimeout ctx fetchTimeout) fetchBatchSize (\<lambda>r. case r of
          Inr msgs \<Rightarrow> bind (handle_all handle msgs) (\<lambda>r. case r of
              Panicked \<Rightarrow> Ret (Some Panicked) | Returned _ \<Rightarrow> continue)
        | Inl err \<Rightarrow>
            if errors_Is err (NatsErr ''ErrTimeout'') \<or> errors_Is err (ContextErr ''DeadlineExceeded'') then continue
            else ctx_Err ctx (\<lambda>ctxErr.
              if ctxErr \<noteq> None \<or> errors_Is err (ContextErr ''Canceled'') then Ret (Some (Returned ()))
              else nc_IsClosed (\<lambda>closed.
                if closed then Ret (Some (Returned ()))
                else await_Retry ctx (50 * Millisecond) (\<lambda>ended.
                  if ended then Ret (Some (Returned ())) else continue))))))"

definition runFetchLoop ::
  "(msg \<Rightarrow> unit outcome io) \<Rightarrow> ctx \<Rightarrow> duration \<Rightarrow> nat \<Rightarrow> nat \<Rightarrow> unit outcome option io" where
  "runFetchLoop handle ctx fetchTimeout fetchBatchSize n =
    bind (fetchRounds handle ctx fetchTimeout fetchBatchSize n) (\<lambda>r. case r of
        None \<Rightarrow> Ret None
      | Some result \<Rightarrow> sub_Unsubscribe (\<lambda>_. Ret (Some result)))"

section \<open>What provisioning guarantees\<close>

lemma subject_configured_append [simp]:
  "subject_configured (xs @ ys) s \<longleftrightarrow> subject_configured xs s \<or> subject_configured ys s"
  by (simp add: subject_configured_def)

lemma mergeSubjects_unchanged:
  "snd (mergeSubjects configured subjects) \<longleftrightarrow> \<not> list_all (subject_configured configured) subjects"
  by (induction configured subjects rule: mergeSubjects.induct) auto

lemma mergeSubjects_extends:
  "\<exists>new. fst (mergeSubjects configured subjects) = configured @ new \<and> set new \<subseteq> set subjects
     \<and> list_all (\<lambda>s. \<not> subject_configured configured s) new"
proof (induction configured subjects rule: mergeSubjects.induct)
  case (2 configured s rest)
  show ?case
  proof (cases "subject_configured configured s")
    case True
    then show ?thesis using 2 by fastforce
  next
    case False
    then obtain new where "fst (mergeSubjects (configured @ [s]) rest) = (configured @ [s]) @ new"
      "set new \<subseteq> set rest" "list_all (\<lambda>t. \<not> subject_configured (configured @ [s]) t) new"
      using 2 by blast
    then show ?thesis using False
      by (intro exI [of _ "s # new"]) (auto simp: list_all_iff)
  qed
qed simp

lemma mergeSubjects_covers: "list_all (subject_configured (fst (mergeSubjects configured subjects))) subjects"
proof (induction configured subjects rule: mergeSubjects.induct)
  case (2 configured s rest)
  obtain new where new: "fst (mergeSubjects configured rest) = configured @ new"
    using mergeSubjects_extends by blast
  obtain new' where new': "fst (mergeSubjects (configured @ [s]) rest) = (configured @ [s]) @ new'"
    using mergeSubjects_extends by blast
  have "subject_configured [s] s" by (simp add: subject_configured_def)
  then show ?case using 2 new new' by (cases "subject_configured configured s") (simp_all add: list_all_iff subject_configured_def)
qed simp

lemma configured_takes:
  assumes "subject_configured configured subject" "wf_pattern (toks subject)"
  shows "stream_takes configured subject \<or> full_wildcard_gap configured subject"
  using assms stream_takes_listed stream_takes_covered by (fastforce simp: subject_configured_def list_ex_iff)

text \<open>A modifier that leaves a stream its name and its subjects, whatever else it changes.\<close>

definition keeps_subjects :: "(StreamConfig \<Rightarrow> StreamConfig) option \<Rightarrow> bool" where
  "keeps_subjects modifier \<longleftrightarrow> (\<forall>cfg. sc_Name (modified modifier cfg) = sc_Name cfg \<and>
     set (sc_Subjects cfg) \<subseteq> set (sc_Subjects (modified modifier cfg)))"

text \<open>
  The two ways in which a provisioning ends well.  By its last call a stream of that name was created,
  or its description was read, with subjects that take every message of the wanted ones.
\<close>

definition provisioned :: "string \<Rightarrow> string list \<Rightarrow> event list \<Rightarrow> bool" where
  "provisioned name subjects tr \<longleftrightarrow> (\<exists>pre q a config. tr = pre @ [(q, a)] \<and>
     (q = JsAddStream config \<and> sc_Name config = name \<and> a_err a = None \<or> q = JsStreamInfo name \<and> a_stream a = Inr config) \<and>
     (\<forall>s \<in> set subjects. wf_pattern (toks s) \<longrightarrow>
        stream_takes (sc_Subjects config) s \<or> full_wildcard_gap (sc_Subjects config) s))"

lemma provisioned_more [intro]: "provisioned name subjects tr \<Longrightarrow> provisioned name subjects (e # tr)"
  unfolding provisioned_def by (metis append_Cons)

lemma provisioned_created:
  assumes "keeps_subjects modifier" "a_err a = None"
  shows "provisioned name subjects [(JsAddStream (modified modifier (streamConfig name subjects)), a)]"
proof -
  let ?cfg = "modified modifier (streamConfig name subjects)"
  have "sc_Name ?cfg = name" "set subjects \<subseteq> set (sc_Subjects ?cfg)"
    using assms(1) [unfolded keeps_subjects_def, THEN spec, of "streamConfig name subjects"]
    by (simp_all add: streamConfig_def)
  then show ?thesis using assms(2) stream_takes_listed unfolding provisioned_def by fastforce
qed

lemma provisioned_read:
  "a_stream a = Inr config \<Longrightarrow> list_all (subject_configured (sc_Subjects config)) subjects \<Longrightarrow>
     provisioned name subjects [(JsStreamInfo name, a)]"
  using configured_takes unfolding provisioned_def by (fastforce simp: list_all_iff)

lemma ensureStreamRounds_provisioned:
  assumes "keeps_subjects modifier"
  shows "replay (ensureStreamRounds modifier name subjects n) tr = Some None \<Longrightarrow> provisioned name subjects tr"
proof (induction n arbitrary: tr)
  case (Suc n)
  then show ?case
    by (auto simp: trace_simps case_prod_beta mergeSubjects_unchanged
        intro!: provisioned_created [OF assms] provisioned_read split: if_splits)
qed (simp add: trace_simps)

lemma ensureStreamRounds_length:
  "replay (ensureStreamRounds modifier name subjects n) tr = Some r \<Longrightarrow> length tr \<le> 2 * n"
proof (induction n arbitrary: tr)
  case (Suc n)
  then show ?case
    by (auto simp: trace_simps case_prod_beta split: if_splits)
qed (simp add: trace_simps)

text \<open>
  The rule for the calls that change a stream.  Creation follows a reading that found no stream;
  an update follows a reading and appends to the subjects just read, and to nothing else, some of
  the wanted ones that were not covered.
\<close>

definition provisioning_rule ::
  "(StreamConfig \<Rightarrow> StreamConfig) option \<Rightarrow> string \<Rightarrow> string list \<Rightarrow> event list \<Rightarrow> request \<Rightarrow> bool" where
  "provisioning_rule modifier name subjects h q \<longleftrightarrow>
     q = JsStreamInfo name \<or>
     (\<exists>pre a e. h = pre @ [(JsStreamInfo name, a)] \<and> a_stream a = Inl e \<and> errors_Is e ErrStreamNotFound \<and>
        q = JsAddStream (modified modifier (streamConfig name subjects))) \<or>
     (\<exists>pre a config new. h = pre @ [(JsStreamInfo name, a)] \<and> a_stream a = Inr config \<and>
        q = JsUpdateStream (config\<lparr>sc_Subjects := sc_Subjects config @ new\<rparr>) \<and> new \<noteq> [] \<and>
        set new \<subseteq> set subjects \<and> list_all (\<lambda>s. \<not> subject_configured (sc_Subjects config) s) new)"

lemma merge_rule:
  assumes "a_stream a = Inr config" and "snd (mergeSubjects (sc_Subjects config) subjects)"
  shows "provisioning_rule modifier name subjects (h @ [(JsStreamInfo name, a)])
    (JsUpdateStream (config\<lparr>sc_Subjects := fst (mergeSubjects (sc_Subjects config) subjects)\<rparr>))"
proof -
  obtain new where new: "fst (mergeSubjects (sc_Subjects config) subjects) = sc_Subjects config @ new"
    "set new \<subseteq> set subjects" "list_all (\<lambda>s. \<not> subject_configured (sc_Subjects config) s) new"
    using mergeSubjects_extends by blast
  have "new \<noteq> []"
    using assms(2) mergeSubjects_covers [of "sc_Subjects config" subjects] new(1)
    by (auto simp: mergeSubjects_unchanged)
  then show ?thesis using assms new unfolding provisioning_rule_def by auto
qed

lemma ensureStreamRounds_guarded:
  "guarded (provisioning_rule modifier name subjects) (ensureStreamRounds modifier name subjects n) h"
proof (induction n arbitrary: h)
  case (Suc n)
  then show ?case
    by (auto simp: case_prod_beta Let_def merge_rule split: sum.split option.split)
      (auto simp: provisioning_rule_def)
qed simp

lemma ensureStream_guarded: "guarded (provisioning_rule modifier name subjects) (ensureStream modifier name subjects) h"
  by (simp add: ensureStream_def ensureStreamRounds_guarded)

text \<open>
  C21: Provisioning a stream makes at most six calls, whatever the server answers, and does not report
  success falsely.  When \<open>ensureStream\<close> succeeds, and the configured modifier takes neither its name nor
  a subject from a stream, its last call created the stream or read its description with subjects that
  take the wanted ones: every message that can be published on a wanted, well-formed subject matches
  a subject of the stream.  The one exception is a wanted subject with a full wildcard that a
  configured subject without one meets token by token (a defect of \<open>subjectPatternCovers\<close>).
\<close>

theorem ensureStream_covers:
  assumes "replay (ensureStream modifier name subjects) tr = Some r" and "subjects \<noteq> []"
  shows "length tr \<le> 6 \<and> (r = None \<and> keeps_subjects modifier \<longrightarrow> (\<exists>pre q a config. tr = pre @ [(q, a)] \<and>
     (q = JsAddStream config \<and> sc_Name config = name \<and> a_err a = None \<or> q = JsStreamInfo name \<and> a_stream a = Inr config) \<and>
     (\<forall>s \<in> set subjects. wf_pattern (toks s) \<longrightarrow>
        (\<forall>xs. literal_subject xs \<and> wild_match (toks s) xs \<longrightarrow> (\<exists>c \<in> set (sc_Subjects config). wild_match (toks c) xs)) \<or>
        ''>'' \<in> set (toks s) \<and> (\<exists>c \<in> set (sc_Subjects config). ''>'' \<notin> set (toks c) \<and> wild_match (toks c) (toks s)))))"
proof -
  have "replay (ensureStreamRounds modifier name subjects 3) tr = Some r"
    using assms by (simp add: ensureStream_def)
  then show ?thesis
    using ensureStreamRounds_length [of modifier name subjects 3 tr r]
      ensureStreamRounds_provisioned [of modifier name subjects 3 tr]
    unfolding provisioned_def stream_takes_def full_wildcard_gap_def by auto
qed

definition stream_info :: "string \<Rightarrow> string list \<Rightarrow> event" where
  "stream_info name subjects = (JsStreamInfo name, answer0\<lparr>a_stream := Inr (streamConfig name subjects)\<rparr>)"

definition sampleProvisioning :: "event list" where
  "sampleProvisioning = [stream_info ''S'' [''a.*''],
     (JsUpdateStream (streamConfig ''S'' [''a.*'', ''b'']), answer0), stream_info ''S'' [''a.*'', ''b'']]"

lemma sampleProvisioning_run:
  "replay (ensureStream None ''S'' [''a.x'', ''b'']) sampleProvisioning = Some None"
proof -
  have "\<not> subject_configured [''a.*''] ''b''" "subject_configured [''a.*''] ''a.x''"
    "subject_configured [''a.*'', ''b''] ''a.x''" "subject_configured [''a.*'', ''b''] ''b''"
    by code_simp+
  then show ?thesis
    by (simp add: ensureStream_def numeral_3_eq_3 sampleProvisioning_def stream_info_def replay.simps streamConfig_def)
qed

theorem ensureStream_covers_witness:
  "length sampleProvisioning \<le> 6 \<and> literal_subject [''a'', ''x''] \<and> wild_match (toks ''a.x'') [''a'', ''x''] \<and>
   (\<exists>c \<in> set [''a.*'', ''b'']. wild_match (toks c) [''a'', ''x''])"
proof -
  have "keeps_subjects None" by (simp add: keeps_subjects_def modified_def)
  moreover have "toks ''a.x'' = [''a'', ''x'']" by (simp add: toks.simps)
  ultimately show ?thesis
    using ensureStream_covers [OF sampleProvisioning_run]
    by (simp add: sampleProvisioning_def stream_info_def streamConfig_def wf_pattern_def literal_subject_def)
qed

text \<open>
  C22: Provisioning never takes anything away. Every call of \<open>ensureStream\<close> that changes a stream
  is justified by the call right before it: a stream is created only after a reading that found
  none, and an update keeps the configuration just read except that wanted subjects which it did
  not cover are appended to its subjects.
\<close>

theorem ensureStream_extends:
  assumes "after (ensureStream modifier name subjects) (tr1 @ (q, a) # tr2) \<noteq> None"
  shows "provisioning_rule modifier name subjects tr1 q"
  using guarded_after [OF ensureStream_guarded [where h = "[]"] assms] by simp

theorem ensureStream_extends_witness:
  "provisioning_rule None ''S'' [''a.x'', ''b''] [stream_info ''S'' [''a.*'']]
     (JsUpdateStream (streamConfig ''S'' [''a.*'', ''b'']))"
proof (rule ensureStream_extends)
  show "after (ensureStream None ''S'' [''a.x'', ''b''])
    ([stream_info ''S'' [''a.*'']] @ (JsUpdateStream (streamConfig ''S'' [''a.*'', ''b'']), answer0)
      # [stream_info ''S'' [''a.*'', ''b'']]) \<noteq> None"
    using sampleProvisioning_run by (simp add: sampleProvisioning_def replay_after)
qed

section \<open>What a subscription guarantees\<close>

text \<open>A trace that ends with the server's delivery limit of the consumer known to be lifted.\<close>

definition unlimited :: "string \<Rightarrow> string \<Rightarrow> event list \<Rightarrow> bool" where
  "unlimited stream durable tr \<longleftrightarrow>
     (\<exists>pre a config. tr = pre @ [(JsConsumerInfo stream durable, a)] \<and> a_consumer a = Inr config \<and>
        cc_MaxDeliver config = -1) \<or>
     (\<exists>pre a config b. tr = pre @ [(JsConsumerInfo stream durable, a),
          (JsUpdateConsumer stream (config\<lparr>cc_MaxDeliver := -1\<rparr>), b)] \<and>
        a_consumer a = Inr config \<and> a_err b = None)"

lemma unlimited_more [intro, simp]: "unlimited stream durable tr \<Longrightarrow> unlimited stream durable (tr' @ tr)"
  unfolding unlimited_def by (metis append_assoc)

lemma unlimited_Cons [intro, simp]: "unlimited stream durable tr \<Longrightarrow> unlimited stream durable (e # tr)"
  using unlimited_more [of stream durable tr "[e]"] by simp

lemma ensureUnlimited_trace:
  "replay (ensureUnlimitedConsumerDeliveries stream durable) tr = Some None \<Longrightarrow> unlimited stream durable tr"
  by (auto simp: ensureUnlimitedConsumerDeliveries_def trace_simps unlimited_def split: if_splits)

text \<open>The requests of the three stages.\<close>

fun is_subscribe :: "request \<Rightarrow> bool" where
  "is_subscribe (JsPullSubscribe s d opts) = True" | "is_subscribe _ = False"

lemma ensureStream_no_subscribe: "only_calls (\<lambda>q. \<not> is_subscribe q) (ensureStream modifier name subjects)"
proof -
  have "only_calls (\<lambda>q. \<not> is_subscribe q) (ensureStreamRounds modifier name subjects n)" for n
    by (induction n) (auto simp: case_prod_beta Let_def split: sum.split option.split)
  then show ?thesis by (simp add: ensureStream_def)
qed

lemma infra_no_subscribe:
  "only_calls (\<lambda>q. \<not> is_subscribe q) (ensureConsumerInfra modifier b)"
  "only_calls (\<lambda>q. \<not> is_subscribe q) (ensureDurableInfra modifier d)"
  by (auto simp: ensureConsumerInfra_def ensureDurableInfra_def Let_def ensureStream_no_subscribe
      intro!: only_calls_bind split: option.split)

lemma unlimited_no_subscribe:
  "only_calls (\<lambda>q. \<not> is_subscribe q) (ensureUnlimitedConsumerDeliveries stream durable)"
  by (auto simp: ensureUnlimitedConsumerDeliveries_def split: sum.split option.split)

text \<open>
  A trace in which the given subscription is the only one attempted, and is accepted and kept if
  the flag is set; otherwise it is refused, or given back by the last call.
\<close>

definition subscription :: "bool \<Rightarrow> request \<Rightarrow> event list \<Rightarrow> bool" where
  "subscription kept q tr \<longleftrightarrow>
     (\<exists>pre a post. tr = pre @ (q, a) # post \<and> requests is_subscribe (pre @ post) = [] \<and>
        (if kept then a_err a = None \<and> (\<forall>(p, b) \<in> set post. p \<noteq> SubUnsubscribe)
         else a_err a = None \<longrightarrow> (\<exists>post' b. post = post' @ [(SubUnsubscribe, b)])))"

lemma subscription_more:
  "subscription kept q tr \<Longrightarrow> requests is_subscribe tr' = [] \<Longrightarrow> subscription kept q (tr' @ tr)"
  unfolding subscription_def by (metis append_assoc append_Nil requests_simps(3))

lemma ensureUnlimited_quiet:
  assumes "replay (ensureUnlimitedConsumerDeliveries stream durable) tr = Some x"
  shows "requests is_subscribe tr = [] \<and> (\<forall>(p, b) \<in> set tr. p \<noteq> SubUnsubscribe)"
proof -
  have "only_calls (\<lambda>q. q \<noteq> SubUnsubscribe) (ensureUnlimitedConsumerDeliveries stream durable)"
    by (auto simp: ensureUnlimitedConsumerDeliveries_def split: sum.split option.split)
  from only_calls_replay [OF this assms] only_calls_requests [OF unlimited_no_subscribe assms]
  show ?thesis by blast
qed

lemma pullSubscription_trace:
  assumes "replay (pullSubscription subject stream durable opts) tr = Some r"
  shows "subscription (r = None) (JsPullSubscribe subject durable opts) tr
    \<and> (r = None \<longrightarrow> unlimited stream durable tr)"
proof -
  let ?q = "JsPullSubscribe subject durable opts"
  from assms consider e a where "r = Some e" "tr = [(?q, a)]" "a_err a \<noteq> None"
    | e a tr' b where "r = Some e" "tr = (?q, a) # tr' @ [(SubUnsubscribe, b)]" "requests is_subscribe tr' = []"
    | a tr' where "r = None" "tr = (?q, a) # tr'" "a_err a = None"
      "replay (ensureUnlimitedConsumerDeliveries stream durable) tr' = Some None"
    unfolding pullSubscription_def by (auto simp: trace_simps dest: ensureUnlimited_quiet)
  then show ?thesis
  proof cases
    case 1
    then show ?thesis by (auto simp: subscription_def intro!: exI [of _ "[]"])
  next
    case 2
    then show ?thesis unfolding subscription_def by (intro conjI exI [of _ "[]"]) auto
  next
    case 3
    then show ?thesis using ensureUnlimited_quiet [OF 3(4)] ensureUnlimited_trace [OF 3(4)]
      unfolding subscription_def by (intro conjI exI [of _ "[]"]) auto
  qed
qed

text \<open>
  The two kinds of binding subscribe the same way: validate, provision, subscribe, start a worker.
\<close>

definition subscribe_stages ::
  "goerror option \<Rightarrow> goerror option io \<Rightarrow> goerror option io \<Rightarrow> pull_state \<Rightarrow> (goerror option \<times> pull_state) io" where
  "subscribe_stages invalid infra open st = (case invalid of
       Some e \<Rightarrow> Ret (Some e, st)
     | None \<Rightarrow> bind infra (\<lambda>err. case err of
         Some e \<Rightarrow> Ret (Some e, st)
       | None \<Rightarrow> bind open (\<lambda>err. case err of
           Some e \<Rightarrow> Ret (Some e, st)
         | None \<Rightarrow> Ret (None, start_worker st))))"

text \<open>What the stages guarantee, for the subscription request they make.\<close>

definition all_or_nothing ::
  "goerror option \<Rightarrow> request \<Rightarrow> string \<Rightarrow> string \<Rightarrow> pull_state \<Rightarrow> event list \<Rightarrow> goerror option \<Rightarrow> pull_state \<Rightarrow> bool" where
  "all_or_nothing invalid q stream durable st tr r st' \<longleftrightarrow>
     (if invalid \<noteq> None then tr = [] \<and> r = invalid \<and> st' = st
      else if r = None
      then subscription True q tr \<and> unlimited stream durable tr \<and> st' = start_worker st
      else (requests is_subscribe tr = [] \<or> subscription False q tr) \<and> st' = st)"

lemma subscribe_stages_trace:
  assumes "replay (subscribe_stages invalid infra (pullSubscription subject stream durable opts) st) tr = Some (r, st')"
    and "only_calls (\<lambda>q. \<not> is_subscribe q) infra"
  shows "all_or_nothing invalid (JsPullSubscribe subject durable opts) stream durable st tr r st'"
proof -
  let ?p = "pullSubscription subject stream durable opts"
  have q: "requests is_subscribe tr' = []" if "replay infra tr' = Some x" for tr' x
    by (rule only_calls_requests [OF assms(2) that])
  from assms(1) consider "invalid \<noteq> None" "tr = []" "r = invalid" "st' = st"
    | e where "invalid = None" "replay infra tr = Some (Some e)" "r = Some e" "st' = st"
    | tr1 tr2 where "invalid = None" "tr = tr1 @ tr2" "replay infra tr1 = Some None" "replay ?p tr2 = Some r"
      "st' = (if r = None then start_worker st else st)"
    unfolding subscribe_stages_def by (auto simp: trace_simps)
  then show ?thesis
  proof cases
    case 3
    then show ?thesis using pullSubscription_trace [OF 3(4)] q [OF 3(3)]
      by (auto simp: all_or_nothing_def intro: subscription_more)
  qed (auto simp: all_or_nothing_def dest: q)
qed

lemma subscribeConsumer_stages:
  "subscribeConsumer modifier b st =
     subscribe_stages (validateConsumerBinding b) (ensureConsumerInfra modifier b) (openConsumerSubscription b) st"
  by (simp add: subscribeConsumer_def subscribe_stages_def)

lemma subscribeDurable_stages:
  "subscribeDurable modifier b st =
     subscribe_stages (validateDurableBinding b) (ensureDurableInfra modifier b)
       (pullSubscription (db_Subject b) (db_Stream b) (db_Durable b) (durableOptions b)) st"
  by (simp add: subscribeDurable_def subscribe_stages_def)

text \<open>
  C23: Subscribing a consumer is all or nothing. An invalid binding makes no call at all. On
  success the one subscription is kept, the trace ends with the server's own delivery limit lifted,
  so that only the transport counts deliveries, and one worker is started. On failure no worker is
  started and a subscription that was already accepted is given back by the last call.
\<close>

theorem subscribeConsumer_atomic:
  assumes "replay (subscribeConsumer modifier b st) tr = Some (r, st')"
  shows "all_or_nothing (validateConsumerBinding b)
    (JsPullSubscribe (consumerSubject b) (cb_Durable b) (consumerOptions b)) (cb_Stream b) (cb_Durable b) st tr r st'"
  using subscribe_stages_trace [OF assms [unfolded subscribeConsumer_stages openConsumerSubscription_def] infra_no_subscribe(1)] .

text \<open>The same for durable bindings.\<close>

lemma subscribeDurable_atomic:
  assumes "replay (subscribeDurable modifier b st) tr = Some (r, st')"
  shows "all_or_nothing (validateDurableBinding b)
    (JsPullSubscribe (db_Subject b) (db_Durable b) (durableOptions b)) (db_Stream b) (db_Durable b) st tr r st'"
  by (rule subscribe_stages_trace [OF assms [unfolded subscribeDurable_stages] infra_no_subscribe(2)])

definition pullBinding :: ConsumerBinding where
  "pullBinding = Consumer ''S'' ''a'' ''d''"

definition pullTrace :: "event list" where
  "pullTrace = [stream_info ''S'' [''a''], (JsPullSubscribe ''a'' ''d'' (consumerOptions pullBinding), answer0),
     (JsConsumerInfo ''S'' ''d'', answer0\<lparr>a_consumer := Inr \<lparr>cc_MaxDeliver = 5, cc_Rest = 0\<rparr>\<rparr>),
     (JsUpdateConsumer ''S'' \<lparr>cc_MaxDeliver = -1, cc_Rest = 0\<rparr>, answer0\<lparr>a_err := Some (plain_error ''denied'')\<rparr>),
     (SubUnsubscribe, answer0)]"

theorem subscribeConsumer_atomic_witness:
  "validateConsumerBinding pullBinding = None \<and>
   subscription False (JsPullSubscribe (consumerSubject pullBinding) ''d'' (consumerOptions pullBinding)) pullTrace"
proof -
  have "subject_configured [''a''] ''a''" by (simp add: subject_configured_def)
  then have "replay (subscribeConsumer None pullBinding \<lparr>ps_subs = 0, ps_workers = 0\<rparr>) pullTrace
      = Some (Some (MapErr (plain_error ''denied'')), \<lparr>ps_subs = 0, ps_workers = 0\<rparr>)"
    by (simp add: subscribeConsumer_def pullBinding_def pullTrace_def Consumer_def ConsumerBinding0_def
        validateConsumerBinding_def policy_defs ensureConsumerInfra_def ensureStream_def numeral_3_eq_3
        stream_info_def replay.simps streamConfig_def openConsumerSubscription_def pullSubscription_def
        ensureUnlimitedConsumerDeliveries_def Let_def consumerSubject_def)
  moreover have "validateConsumerBinding pullBinding = None"
    by (simp add: pullBinding_def Consumer_def ConsumerBinding0_def validateConsumerBinding_def policy_defs)
  moreover have "requests is_subscribe pullTrace \<noteq> []" by (simp add: pullTrace_def stream_info_def)
  ultimately show ?thesis using subscribeConsumer_atomic [of None pullBinding]
    by (fastforce simp: all_or_nothing_def pullBinding_def Consumer_def)
qed

section \<open>What the pull loop guarantees\<close>

text \<open>The messages a trace has fetched, in order.\<close>

definition fetched :: "event list \<Rightarrow> msg list" where
  "fetched tr = concat (map (\<lambda>(q, a). if is_fetch q then (case a_msgs a of Inr ms \<Rightarrow> ms | Inl _ \<Rightarrow> []) else []) tr)"

lemma fetched_simps [simp]:
  "fetched [] = []" "fetched (tr1 @ tr2) = fetched tr1 @ fetched tr2"
  "fetched ((q, a) # tr) = (if is_fetch q then (case a_msgs a of Inr ms \<Rightarrow> ms | Inl _ \<Rightarrow> []) else []) @ fetched tr"
  by (simp_all add: fetched_def)

text \<open>
  The reasons for which the loop may end: its context has ended, the fetch was cancelled, the
  connection is closed, or the context ended during the pause after a failed fetch.
\<close>

definition stop_reason :: "ctx \<Rightarrow> event list \<Rightarrow> bool" where
  "stop_reason ctx tr \<longleftrightarrow>
     (\<exists>pre a. tr = pre @ [(CtxErr ctx, a)] \<and> a_err a \<noteq> None) \<or>
     (\<exists>pre c n f a e. tr = pre @ [(SubFetch c n, f), (CtxErr ctx, a)] \<and> a_msgs f = Inl e \<and>
        errors_Is e (ContextErr ''Canceled'')) \<or>
     (\<exists>pre a. tr = pre @ [(ConnIsClosed, a)] \<and> a_flag a) \<or>
     (\<exists>pre d a. tr = pre @ [(AwaitRetry ctx d, a)] \<and> a_flag a)"

lemma stop_reason_more: "stop_reason ctx tr \<Longrightarrow> stop_reason ctx (tr' @ tr)"
  unfolding stop_reason_def by (elim disjE exE conjE) (metis append_assoc)+

lemma stop_reason_Cons: "stop_reason ctx tr \<Longrightarrow> stop_reason ctx (e # tr)"
  using stop_reason_more [of ctx tr "[e]"] by simp

lemma stop_reasonI:
  "a_err a \<noteq> None \<Longrightarrow> stop_reason ctx [(CtxErr ctx, a)]"
  "a_msgs f = Inl e \<Longrightarrow> errors_Is e (ContextErr ''Canceled'') \<Longrightarrow> stop_reason ctx [(SubFetch c n, f), (CtxErr ctx, a)]"
  "a_flag a \<Longrightarrow> stop_reason ctx [(ConnIsClosed, a)]"
  "a_flag a \<Longrightarrow> stop_reason ctx [(AwaitRetry ctx d, a)]"
  unfolding stop_reason_def by auto

text \<open>Complete runs of the handler on a list of messages, found in this order in a trace.\<close>

definition handled :: "(msg \<Rightarrow> unit outcome io) \<Rightarrow> msg list \<Rightarrow> event list \<Rightarrow> bool" where
  "handled handle ms tr \<longleftrightarrow> (\<exists>segs. list_all2 (\<lambda>m seg. replay (handle m) seg = Some (Returned ())) ms segs \<and> subseq (concat segs) tr)"

lemma handled_Nil: "handled handle [] tr"
  unfolding handled_def by (rule exI [of _ "[]"]) simp

lemma handled_append: "handled handle ms tr \<Longrightarrow> handled handle ms' tr' \<Longrightarrow> handled handle (ms @ ms') (tr @ tr')"
  unfolding handled_def by (metis concat_append list_all2_appendI list_emb_append_mono)

lemma handled_Cons: "handled handle ms tr \<Longrightarrow> handled handle ms (e # tr)"
  unfolding handled_def by auto

locale pull_worker =
  fixes handle :: "msg \<Rightarrow> unit outcome io" and applies :: bool
  assumes no_fetch: "applies \<Longrightarrow> only_calls (\<lambda>q. \<not> is_fetch q) (handle m)"
begin

lemma handle_all_trace:
  "replay (handle_all handle ms) tr = Some (Returned ()) \<Longrightarrow> applies \<Longrightarrow> handled handle ms tr \<and> fetched tr = []"
proof (induction ms arbitrary: tr)
  case Nil
  then show ?case by (simp add: trace_simps handled_Nil)
next
  case (Cons m ms)
  then obtain tr1 tr2 where tr: "tr = tr1 @ tr2" "replay (handle m) tr1 = Some (Returned ())"
    "replay (handle_all handle ms) tr2 = Some (Returned ())"
    by (auto simp: trace_simps replay_case_outcome)
  have "fetched tr1 = []"
    using only_calls_replay [OF no_fetch [OF Cons.prems(2)] tr(2)] by (auto simp: fetched_def)
  moreover have "handled handle [m] tr1"
    unfolding handled_def by (rule exI [of _ "[tr1]"]) (simp add: tr(2))
  ultimately show ?case using Cons tr handled_append [of handle "[m]" tr1 ms tr2] by simp
qed

lemma fetchRounds_trace:
  "replay (fetchRounds handle ctx d b n) tr = Some (Some (Returned ())) \<Longrightarrow> ctx \<noteq> Background \<Longrightarrow> applies \<Longrightarrow>
   stop_reason ctx tr \<and> handled handle (fetched tr) tr"
proof (induction n arbitrary: tr)
  case (Suc n)
  have IH: "replay (fetchRounds handle ctx d b n) tr = Some (Some (Returned ())) \<Longrightarrow>
    stop_reason ctx tr \<and> handled handle (fetched tr) tr" for tr
    using Suc.IH Suc.prems by blast
  have batch: "stop_reason ctx (tr1 @ tr2) \<and> handled handle (ms @ fetched tr1 @ fetched tr2) (tr1 @ tr2)"
    if "replay (handle_all handle ms) tr1 = Some (Returned ())"
      "replay (fetchRounds handle ctx d b n) tr2 = Some (Some (Returned ()))" for ms tr1 tr2
    using handle_all_trace [OF that(1) Suc.prems(3)] IH [OF that(2)]
    by (simp add: handled_append stop_reason_more)
  show ?case using Suc.prems
    by (auto simp: trace_simps replay_case_outcome intro!: handled_Cons handled_Nil dest: IH batch
        intro: stop_reasonI stop_reason_Cons)
      (blast dest: IH intro: stop_reasonI stop_reason_Cons)+
qed (simp add: trace_simps)

lemma runFetchLoop_trace:
  assumes "replay (runFetchLoop handle ctx d b n) tr = Some (Some (Returned ()))" "ctx \<noteq> Background" applies
  shows "\<exists>pre a. tr = pre @ [(SubUnsubscribe, a)] \<and> stop_reason ctx pre \<and> handled handle (fetched tr) pre"
  using assms(1) fetchRounds_trace [OF _ assms(2,3)] unfolding runFetchLoop_def
  by (auto simp: trace_simps)

end

end
