(* ===== verification/Delivery.thy ===== *)
theory Delivery
  imports Streams Bindings Contexts Idem_Exec
begin

text \<open>
  Handling one delivery of a message: \<open>handleConsumerMessage\<close> and its helpers of
  \<open>src/tnats/consumer.go\<close>, \<open>handleDurableMessage\<close> of \<open>src/tnats/tnats_durable.go\<close>.  A handler
  runs the action, unless the delivery limit is passed, and settles the delivery: it acknowledges it,
  asks for a redelivery, or publishes a dead letter and terminates the message.
\<close>

section \<open>Delivery limits and retry delays\<close>

definition maxDeliveryLimit :: "int \<Rightarrow> u64 \<times> bool" where
  "maxDeliveryLimit maxDeliver = (if maxDeliver \<le> 0 then (0, False) else (word_of_int maxDeliver, True))"

definition maxDeliverReached :: "u64 \<Rightarrow> int \<Rightarrow> bool" where
  "maxDeliverReached deliveries maxDeliver =
    (let (limit, ok) = maxDeliveryLimit maxDeliver in \<not> ok \<or> deliveries \<ge> limit)"

definition maxDeliverExceeded :: "u64 \<Rightarrow> int \<Rightarrow> bool" where
  "maxDeliverExceeded deliveries maxDeliver =
    (let (limit, ok) = maxDeliveryLimit maxDeliver in \<not> ok \<or> deliveries > limit)"

definition backoffIndex :: "u64 \<Rightarrow> int \<Rightarrow> int" where
  "backoffIndex deliveries count =
    (if count \<le> 1 \<or> deliveries \<le> 1 then 0
     else (let last = count - 1; lastDelivery = word_of_int last
           in if deliveries - 1 \<ge> lastDelivery then last else sint (deliveries - 1)))"

definition consumerRetryDelay :: "ConsumerBinding \<Rightarrow> u64 \<Rightarrow> goerror \<Rightarrow> duration" where
  "consumerRetryDelay b deliveries execErr =
    (let delay = retryAfter execErr
     in if delay > 0 then delay
        else if length (cb_BackOff b) > 0
        then cb_BackOff b ! nat (backoffIndex deliveries (int (length (cb_BackOff b))))
        else Second)"

definition durableRetryDelay :: "goerror \<Rightarrow> duration \<Rightarrow> duration" where
  "durableRetryDelay err fallback = (let delay = retryAfter err in if delay > 0 then delay else fallback)"

section \<open>Dead letters\<close>

abbreviation defaultShutdownTimeout :: duration where "defaultShutdownTimeout \<equiv> 5 * Second"

definition deadLetterID :: "msg_metadata \<Rightarrow> string" where
  "deadLetterID info = md_Stream info @ '':'' @ decimal (unat (md_StreamSeq info))"

definition first_values :: "header option \<Rightarrow> (string \<times> string) list" where
  "first_values h = (case h of None \<Rightarrow> [] | Some m \<Rightarrow>
     concat (map (\<lambda>(k, vv). case vv of [] \<Rightarrow> [] | v # _ \<Rightarrow> [(k, v)]) m))"

definition dlqConsumerMessage ::
  "ctx \<Rightarrow> ConsumerBinding \<Rightarrow> msg \<Rightarrow> goerror \<Rightarrow> u64 \<Rightarrow> bool \<Rightarrow> goerror option io" where
  "dlqConsumerMessage ctx b m execErr deliveries terminate = time_Now (\<lambda>now.
    let dead = \<lparr>dl_Stream = cb_Stream b, dl_Subject = m_Subject m, dl_Durable = cb_Durable b,
                dl_Deliveries = deliveries, dl_FailedAt = now, dl_Error = execErr, dl_Payload = m_Data m,
                dl_Headers = first_values (m_Header m)\<rparr>
    in json_Marshal_dead dead (\<lambda>r. case r of
         Inl e \<Rightarrow> Ret (Some (Wrapf ''marshal dead-letter message'' e))
       | Inr payload \<Rightarrow> msg_Metadata m (\<lambda>r. case r of
           Inl e \<Rightarrow> Ret (Some (MapErr e))
         | Inr metaInfo \<Rightarrow>
             js_PublishMsg ctx \<lparr>m_Subject = cb_DeadLetterSubject b, m_Reply = [], m_Data = payload, m_Header = Some []\<rparr>
               (Some (deadLetterID metaInfo)) (\<lambda>err. case err of
               Some e \<Rightarrow> Ret (Some (MapErr e))
             | None \<Rightarrow>
                 if terminate then msg_Term ctx m (\<lambda>err. case err of
                     Some e \<Rightarrow> Ret (Some (MapErr e)) | None \<Rightarrow> Ret None)
                 else Ret None))))"

section \<open>Handlers\<close>

definition message_decoder :: "msg \<Rightarrow> decoder" where
  "message_decoder m = (if length (m_Data m) = 0 then KeepZero else Unmarshal (m_Data m))"

definition request_ctx :: "header_names \<Rightarrow> ctx \<Rightarrow> string \<Rightarrow> msg \<Rightarrow> ctx" where
  "request_ctx hn ctx endpoint m = fst (extractContextHeaders hn (Scoped ctx) m
     \<lparr>rs_Endpoint = endpoint @ m_Subject m, rs_RequestID = [], rs_TraceID = [], rs_SpanID = []\<rparr>)"

text \<open>
  The action's error, with or without idempotency; \<open>None\<close> as configuration stands for a nil
  description of the action.
\<close>

definition runAction ::
  "IdempotencyStore \<Rightarrow> IdempotencyConfig option \<Rightarrow> ctx \<Rightarrow> msg \<Rightarrow> decoder \<Rightarrow> goerror option outcome io" where
  "runAction store meta reqCtx m decoder =
    (if (case meta of None \<Rightarrow> False | Some cfg \<Rightarrow> ic_Enabled cfg)
     then bind (executeWithIdempotency store (the meta) reqCtx m decoder) (\<lambda>r. case r of
            Panicked \<Rightarrow> Ret Panicked | Returned reply \<Rightarrow> Ret (Returned (snd reply)))
     else bind (executeDecoded reqCtx decoder) (\<lambda>r. case r of
            Panicked \<Rightarrow> Ret Panicked
          | Returned (Inl e) \<Rightarrow> Ret (Returned (Some e))
          | Returned (Inr _) \<Rightarrow> Ret (Returned None)))"

definition ackCtx :: "ctx \<Rightarrow> ctx" where
  "ackCtx ctx = WithTimeout (WithoutCancel ctx) defaultShutdownTimeout"

definition nakConsumerMessage :: "ctx \<Rightarrow> ConsumerBinding \<Rightarrow> msg \<Rightarrow> u64 \<Rightarrow> goerror \<Rightarrow> unit outcome io" where
  "nakConsumerMessage ctx b m deliveries execErr =
     msg_NakWithDelay ctx m (consumerRetryDelay b deliveries execErr) (\<lambda>_. Ret (Returned ()))"

text \<open>
  A handler returns nothing; \<open>Panicked\<close> is a panic of the action that leaves the handler.
\<close>

definition handleConsumerMessage ::
  "header_names \<Rightarrow> IdempotencyStore \<Rightarrow> ctx \<Rightarrow> ConsumerBinding \<Rightarrow> IdempotencyConfig option \<Rightarrow> msg \<Rightarrow> unit outcome io" where
  "handleConsumerMessage hn store ctx b meta m =
    (let reqCtx = request_ctx hn ctx ''nats.consumer.'' m;
         decoder = message_decoder m;
         dead_letter = (\<lambda>err deliveries nakErr.
           bind (dlqConsumerMessage (ackCtx ctx) b m err deliveries True) (\<lambda>r. case r of
             Some e \<Rightarrow> nakConsumerMessage (ackCtx ctx) b m deliveries (nakErr e)
           | None \<Rightarrow> Ret (Returned ())));
         terminate = msg_Term (ackCtx ctx) m (\<lambda>_. Ret (Returned ()));
         execute = (\<lambda>deliveries.
           bind (runAction store meta reqCtx m decoder) (\<lambda>outcome. case outcome of
             Panicked \<Rightarrow> Ret Panicked
           | Returned None \<Rightarrow>
               if cb_AckPolicy b = AckNone then Ret (Returned ())
               else msg_AckSync (ackCtx ctx) m (\<lambda>_. Ret (Returned ()))
           | Returned (Some execErr) \<Rightarrow>
               if cb_AckPolicy b = AckNone then
                 (if cb_DeadLetterSubject b \<noteq> []
                  then bind (dlqConsumerMessage (ackCtx ctx) b m execErr 1 False) (\<lambda>_. Ret (Returned ()))
                  else Ret (Returned ()))
               else if maxDeliverReached deliveries (cb_MaxDeliver b) then
                 (if cb_DeadLetterSubject b \<noteq> [] then dead_letter execErr deliveries (\<lambda>_. execErr)
                  else terminate)
               else nakConsumerMessage (ackCtx ctx) b m deliveries execErr))
     in if cb_AckPolicy b \<noteq> AckNone then
          msg_Metadata m (\<lambda>r. case r of
            Inl metadataErr \<Rightarrow> nakConsumerMessage (ackCtx ctx) b m 1 (MapErr metadataErr)
          | Inr metaInfo \<Rightarrow>
              (let deliveries = md_NumDelivered metaInfo
               in if maxDeliverExceeded deliveries (cb_MaxDeliver b) then
                    (if cb_DeadLetterSubject b \<noteq> []
                     then dead_letter (app KindInternal
                            ''consumer delivery limit exceeded; retrying dead-letter handling'' []) deliveries (\<lambda>e. e)
                     else terminate)
                  else execute deliveries))
        else execute 1)"

definition handleDurableMessage ::
  "header_names \<Rightarrow> IdempotencyStore \<Rightarrow> ctx \<Rightarrow> DurableBinding \<Rightarrow> IdempotencyConfig option \<Rightarrow> msg \<Rightarrow> unit outcome io" where
  "handleDurableMessage hn store ctx b meta m =
    (let reqCtx = request_ctx hn ctx ''nats.durable.'' m;
         decoder = message_decoder m;
         nak = (\<lambda>delay. msg_NakWithDelay (ackCtx ctx) m delay (\<lambda>_. Ret (Returned ())));
         binding = ConsumerBinding0\<lparr>cb_Stream := db_Stream b, cb_Durable := db_Durable b,
           cb_DeadLetterSubject := db_DeadLetterSubject b\<rparr>
     in msg_Metadata m (\<lambda>r. case r of
          Inl metadataErr \<Rightarrow> nak (durableRetryDelay (MapErr metadataErr) (db_RetryDelay b))
        | Inr metaInfo \<Rightarrow>
            (let deliveries = md_NumDelivered metaInfo
             in if maxDeliverExceeded deliveries (db_MaxDeliver b) then
                  bind (dlqConsumerMessage (ackCtx ctx) binding m (app KindInternal
                      ''durable delivery limit exceeded; retrying dead-letter handling'' []) deliveries True)
                    (\<lambda>r. case r of
                       Some e \<Rightarrow> nak (durableRetryDelay e (db_RetryDelay b))
                     | None \<Rightarrow> Ret (Returned ()))
                else bind (runAction store meta reqCtx m decoder) (\<lambda>outcome. case outcome of
                    Panicked \<Rightarrow> Ret Panicked
                  | Returned None \<Rightarrow> msg_AckSync (ackCtx ctx) m (\<lambda>_. Ret (Returned ()))
                  | Returned (Some execErr) \<Rightarrow>
                      if \<not> maxDeliverReached deliveries (db_MaxDeliver b)
                      then nak (durableRetryDelay execErr (db_RetryDelay b))
                      else bind (dlqConsumerMessage (ackCtx ctx) binding m execErr deliveries True)
                        (\<lambda>r. case r of
                           Some e \<Rightarrow> nak (db_RetryDelay b)
                         | None \<Rightarrow> Ret (Returned ()))))))"

section \<open>Limits and delays\<close>

lemma word_limit: "0 < n \<Longrightarrow> in_int64 n \<Longrightarrow> uint (word_of_int n :: u64) = n"
  by (simp add: in_int64_def uint_word_of_int)

lemma maxDeliverReached_iff:
  "0 < maxDeliver \<Longrightarrow> in_int64 maxDeliver \<Longrightarrow> maxDeliverReached deliveries maxDeliver \<longleftrightarrow> maxDeliver \<le> uint deliveries"
  by (simp add: maxDeliverReached_def maxDeliveryLimit_def word_le_def word_limit)

lemma maxDeliverExceeded_iff:
  "0 < maxDeliver \<Longrightarrow> in_int64 maxDeliver \<Longrightarrow> maxDeliverExceeded deliveries maxDeliver \<longleftrightarrow> maxDeliver < uint deliveries"
  by (simp add: maxDeliverExceeded_def maxDeliveryLimit_def word_less_def word_limit)

lemma not_exceeded_limit: "\<not> maxDeliverExceeded deliveries maxDeliver \<Longrightarrow> uint deliveries \<le> maxDeliver"
proof -
  assume "\<not> maxDeliverExceeded deliveries maxDeliver"
  then have "0 < maxDeliver" "uint deliveries \<le> uint (word_of_int maxDeliver :: u64)"
    by (auto simp: maxDeliverExceeded_def maxDeliveryLimit_def word_less_def split: if_splits)
  then show ?thesis by (simp add: uint_word_of_int) (smt (verit) zmod_le_nonneg_dividend)
qed

lemma backoffIndex_eq:
  assumes "in_int64 count"
  shows "backoffIndex deliveries count = max 0 (min (uint deliveries) count - 1)"
proof (cases "count \<le> 1 \<or> deliveries \<le> 1")
  case True
  have "deliveries \<le> 1 \<longleftrightarrow> uint deliveries \<le> 1" by (simp add: word_le_def)
  with True show ?thesis by (auto simp: backoffIndex_def)
next
  case False
  then have c: "1 < count" and d: "1 < uint deliveries" by (auto simp: word_le_def)
  have m: "uint (deliveries - 1) = uint deliveries - 1"
    using d by (simp add: uint_minus_simple_alt [THEN iffD1] word_le_def)
  have l: "uint (word_of_int (count - 1) :: u64) = count - 1"
    using c assms by (intro word_limit) (simp_all add: in_int64_def)
  have "sint (deliveries - 1) = uint deliveries - 1" if "uint deliveries < count"
    using that m d assms by (simp add: sint_uint in_int64_def signed_take_bit_int_eq_self)
  with False c d m l show ?thesis
    by (simp add: backoffIndex_def Let_def word_le_def)
qed

lemma backoffIndex_range:
  assumes "xs \<noteq> []" "in_int64 (int (length xs))"
  shows "nat (backoffIndex deliveries (int (length xs))) < length xs"
  using assms by (simp add: backoffIndex_eq) (cases xs, auto)

lemma consumerRetryDelay_pos:
  assumes "validateConsumerBinding b = None" "in_int64 (cb_MaxDeliver b)"
  shows "0 < consumerRetryDelay b deliveries e"
proof (cases "cb_BackOff b = [] \<or> 0 < retryAfter e")
  case True
  then show ?thesis by (auto simp: consumerRetryDelay_def Let_def)
next
  case False
  have v: "list_all (\<lambda>d. 0 < d) (cb_BackOff b)" "int (length (cb_BackOff b)) \<le> cb_MaxDeliver b"
    using assms(1) by (auto simp: validateConsumerBinding_def Let_def list_ex_iff list_all_iff not_le split: if_splits)
  have "in_int64 (int (length (cb_BackOff b)))" using v(2) assms(2) by (simp add: in_int64_def)
  then have "cb_BackOff b ! nat (backoffIndex deliveries (int (length (cb_BackOff b)))) \<in> set (cb_BackOff b)"
    using False by (intro nth_mem backoffIndex_range) simp_all
  with v(1) False show ?thesis by (simp add: consumerRetryDelay_def list_all_iff Let_def)
qed

lemma durableRetryDelay_pos: "0 < fallback \<Longrightarrow> 0 < durableRetryDelay e fallback"
  by (simp add: durableRetryDelay_def Let_def)

section \<open>Running the action\<close>

text \<open>Requests that neither run the action nor publish nor settle nor fetch.\<close>

definition store_call :: "request \<Rightarrow> bool" where
  "store_call q \<longleftrightarrow> \<not> is_exec q \<and> q \<noteq> ExecuteFinish \<and> \<not> is_publish q \<and> \<not> is_settle q \<and> \<not> is_fetch q"

definition store_ok :: "IdempotencyStore \<Rightarrow> bool" where
  "store_ok store \<longleftrightarrow> (case store of
     Coordinating co \<Rightarrow> (\<forall>c k h l. only_calls store_call (co_Claim co c k h l)) \<and>
       (\<forall>c k t e l. only_calls store_call (co_Complete co c k t e l)) \<and>
       (\<forall>c k t. only_calls store_call (co_Release co c k t)) \<and>
       (\<forall>renew c k t l. co_RenewClaim co = Some renew \<longrightarrow> only_calls store_call (renew c k t l))
   | Legacy ls \<Rightarrow> (\<forall>c k. only_calls store_call (ls_Get ls c k)) \<and> (\<forall>c k e l. only_calls store_call (ls_Set ls c k e l)))"

lemma kv_store_ok: "store_ok (Coordinating (kvCoordinator K c))"
proof -
  have "store_call q" if "kv_request q" for q
    using that by (rule kv_request.elims) (simp_all add: store_call_def is_settle_def)
  then show ?thesis
    using kv_methods_only [THEN only_calls_mono] by (auto simp: store_ok_def kvCoordinator_def)
qed

text \<open>All calls of a run, and its successful outcomes.\<close>

definition run_call :: "request \<Rightarrow> bool" where
  "run_call q \<longleftrightarrow> store_call q \<or> is_exec q \<or> q = ExecuteFinish"

lemma store_call_simps [simp]:
  "store_call TimeNow" "store_call (CodecMarshal v)" "store_call (CodecMarshalPublic e)" "store_call (JsonMarshalPublic e)"
  "\<not> store_call (ExecuteDecoded c d)" "\<not> store_call ExecuteFinish"
  by (simp_all add: store_call_def is_settle_def)

lemma encodeError_store: "only_calls store_call (encodeError e)"
  by (auto simp: encodeError_def split: sum.split)

lemma renewal_store:
  assumes "store_ok (Coordinating co)"
  shows "only_calls store_call (startCoordinatorLeaseRenewal co ctx k t l n)"
proof -
  have "only_calls store_call (renewLoop renew ctx k t l n)" if "co_RenewClaim co = Some renew" for renew
    using assms that by (induction n) (auto simp: store_ok_def split: option.split)
  then show ?thesis by (auto simp: startCoordinatorLeaseRenewal_def split: option.split)
qed

lemma no_finish: "only_calls store_call p \<Longrightarrow> replay p tr = Some x \<Longrightarrow> (ExecuteFinish, a) \<notin> set tr"
  using only_calls_replay [of store_call p tr x ExecuteFinish a] by auto

lemma store_quiet: "only_calls store_call p \<Longrightarrow> replay p tr = Some x \<Longrightarrow> quiet tr"
  by (rule only_calls_requests, erule only_calls_mono) (simp add: store_call_def)

text \<open>The outcome of the action in a trace that runs it at most once.\<close>

definition ran_well :: "event list \<Rightarrow> bool" where
  "ran_well tr \<longleftrightarrow> (\<forall>a. (ExecuteFinish, a) \<in> set tr \<longrightarrow> (\<exists>v. a_exec a = Returned (Inr v)))"

lemma ran_well_simps [simp]:
  "ran_well []" "ran_well (tr1 @ tr2) \<longleftrightarrow> ran_well tr1 \<and> ran_well tr2"
  "ran_well ((q, a) # tr) \<longleftrightarrow> (q = ExecuteFinish \<longrightarrow> (\<exists>v. a_exec a = Returned (Inr v))) \<and> ran_well tr"
  by (auto simp: ran_well_def)

lemma store_ran_well: "only_calls store_call p \<Longrightarrow> replay p tr = Some x \<Longrightarrow> ran_well tr"
  by (auto simp: ran_well_def dest: no_finish)

lemma store_trace: "only_calls store_call p \<Longrightarrow> replay p tr = Some x \<Longrightarrow> quiet tr \<and> ran_well tr"
  by (simp add: store_quiet store_ran_well)

lemma executeAcquired_well:
  assumes ok: "store_ok (Coordinating co)"
    and "replay (executeAcquired co cfg ctx key h token dc) tr = Some (Returned (body, None), completed)"
  shows "ran_well tr"
proof -
  have c: "only_calls store_call (co_Complete co c' k' t' e' l')" for c' k' t' e' l' using ok by (simp add: store_ok_def)
  show ?thesis
    using assms(2) 
    by (auto simp: executeAcquired_def Let_def trace_simps
        dest!: encodeError_trace store_trace [OF renewal_store [OF ok]] store_trace [OF c])
qed

lemma store_run: "only_calls store_call p \<Longrightarrow> only_calls run_call p"
  by (erule only_calls_mono) (simp add: run_call_def)

lemma run_call_simps [simp]:
  "run_call (ExecuteDecoded c d)" "run_call ExecuteFinish" "run_call TimeNow" "run_call (CodecMarshal v)"
  by (simp_all add: run_call_def)

lemma executeWithCoordinator_calls:
  assumes ok: "store_ok (Coordinating co)"
  shows "only_calls run_call (executeWithCoordinator co cfg ctx key h dc)"
proof -
  have s: "only_calls run_call (co_Claim co c k h l)" "only_calls run_call (co_Complete co c k t e l)"
    "only_calls run_call (co_Release co c k t)" for c k h l t e
    using ok by (auto simp: store_ok_def intro: store_run)
  note r = store_run [OF renewal_store [OF ok]] store_run [OF encodeError_store]
  have "only_calls run_call (executeAcquired co cfg ctx key h token dc)" for token
    by (auto simp: executeAcquired_def Let_def s r split: sum.split option.split outcome.split intro!: only_calls_bind)
  then show ?thesis
    by (auto simp: executeWithCoordinator_def Let_def s r intro!: only_calls_bind
        split: sum.split IdempotencyClaimState.split)
qed

lemma executeWithCoordinator_well:
  assumes ok: "store_ok (Coordinating co)"
    and "replay (executeWithCoordinator co cfg ctx key h dc) tr = Some result"
  shows "length (requests is_exec tr) \<le> 1 \<and> (\<forall>body. result = Returned (body, None) \<longrightarrow> ran_well tr)"
proof -
  have s: "only_calls store_call (co_Claim co c k h l)" "only_calls store_call (co_Complete co c k t e l)"
    "only_calls store_call (co_Release co c k t)" for c k h l t e
    using ok by (auto simp: store_ok_def)
  have "length (requests is_exec tr') \<le> 1 \<and> (\<forall>body. r = Returned (body, None) \<longrightarrow> ran_well tr')"
    if "replay (executeAcquired co cfg ctx key h token dc) tr' = Some (r, completed)" for r tr' token completed
    using that executeAcquired_well [OF ok, of cfg ctx key h token dc tr' _ completed]
    by (auto simp: executeAcquired_def Let_def trace_simps
        dest!: encodeError_trace store_trace [OF renewal_store [OF ok]] store_trace [OF s(2)])
  then show ?thesis
    using assms(2) unfolding executeWithCoordinator_def Let_def
    by (auto simp: trace_simps dest!: encodeError_trace store_trace [OF s(1)] store_trace [OF s(3)] split: if_splits)
qed

lemma executeDecoded_calls: "only_calls run_call (executeDecoded ctx dc)"
  by (simp add: executeDecoded_def)

lemma executeWithLegacyStore_calls:
  assumes "store_ok (Legacy ls)"
  shows "only_calls run_call (executeWithLegacyStore ls cfg ctx key h dc)"
proof -
  have s: "only_calls run_call (ls_Get ls c k)" "only_calls run_call (ls_Set ls c k e l)" for c k e l
    using assms by (auto simp: store_ok_def intro: store_run)
  show ?thesis
    by (auto simp: executeWithLegacyStore_def Let_def s executeDecoded_calls store_run [OF encodeError_store]
        intro!: only_calls_bind split: sum.split outcome.split)
qed

lemma executeWithLegacyStore_well:
  assumes ok: "store_ok (Legacy ls)"
    and "replay (executeWithLegacyStore ls cfg ctx key h dc) tr = Some result"
  shows "length (requests is_exec tr) \<le> 1 \<and> (\<forall>body. result = Returned (body, None) \<longrightarrow> ran_well tr)"
proof -
  have s: "only_calls store_call (ls_Get ls c k)" "only_calls store_call (ls_Set ls c k e l)" for c k e l
    using ok by (auto simp: store_ok_def)
  show ?thesis
    using assms(2)
    by (auto simp: executeWithLegacyStore_def Let_def executeDecoded_def trace_simps
        dest!: encodeError_trace store_trace [OF s(1)] store_trace [OF s(2)] split: if_splits sum.splits)
qed

lemma runAction_calls: "store_ok store \<Longrightarrow> only_calls run_call (runAction store meta ctx m dc)"
  by (cases store)
     (auto simp: runAction_def executeWithIdempotency_def Let_def executeDecoded_calls executeWithCoordinator_calls
      executeWithLegacyStore_calls intro!: only_calls_bind split: outcome.split sum.split option.split)

lemma executeWithIdempotency_well:
  assumes "store_ok store" "replay (executeWithIdempotency store cfg ctx m dc) tr = Some r"
  shows "length (requests is_exec tr) \<le> 1 \<and> (\<forall>body. r = Returned (body, None) \<longrightarrow> ran_well tr)"
  using assms by (cases store) (auto simp: executeWithIdempotency_def Let_def
      dest: executeWithCoordinator_well executeWithLegacyStore_well)

lemma runAction_well:
  assumes "store_ok store" "replay (runAction store meta ctx m dc) tr = Some outcome"
  shows "length (requests is_exec tr) \<le> 1 \<and> (outcome = Returned None \<longrightarrow> ran_well tr)"
proof (cases "case meta of None \<Rightarrow> False | Some cfg \<Rightarrow> ic_Enabled cfg")
  case True
  with assms(2) obtain r where r: "replay (executeWithIdempotency store (the meta) ctx m dc) tr = Some r"
    and "outcome = (case r of Panicked \<Rightarrow> Panicked | Returned reply \<Rightarrow> Returned (snd reply))"
    by (auto simp: runAction_def trace_simps)
  with executeWithIdempotency_well [OF assms(1) r] show ?thesis by (cases r) auto
next
  case False
  then show ?thesis using assms(2)
    by (auto simp: runAction_def executeDecoded_def trace_simps split: sum.splits)
qed

section \<open>The discipline of a delivery\<close>

text \<open>
  What a handler may do after the calls \<open>h\<close>: run the action within the delivery limit, acknowledge
  only if no run has failed, ask for redelivery after a positive delay, and terminate only at or past
  the limit and, where there is a dead-letter subject, after a dead letter was published there.
\<close>

definition delivered_as :: "msg \<Rightarrow> event list \<Rightarrow> int \<Rightarrow> bool" where
  "delivered_as m h n \<longleftrightarrow> (\<exists>a info. (MsgMetadata m, a) \<in> set h \<and> a_meta a = Inr info \<and> n = uint (md_NumDelivered info))"

definition delivery_rule :: "int \<Rightarrow> string \<Rightarrow> msg \<Rightarrow> event list \<Rightarrow> request \<Rightarrow> bool" where
  "delivery_rule limit dlq m h q = (case q of
     ExecuteDecoded c d \<Rightarrow> (\<exists>n \<le> limit. delivered_as m h n)
   | MsgAckSync c m' \<Rightarrow> m' = m \<and> ran_well h
   | MsgNakWithDelay c m' d \<Rightarrow> m' = m \<and> 0 < d
   | MsgTerm c m' \<Rightarrow> m' = m \<and> (\<exists>n \<ge> limit. delivered_as m h n) \<and>
       (dlq \<noteq> [] \<longrightarrow> (\<exists>c' dm i a. (JsPublishMsg c' dm i, a) \<in> set h \<and> m_Subject dm = dlq \<and> a_err a = None))
   | JsPublishMsg c dm i \<Rightarrow> m_Subject dm = dlq \<and> dlq \<noteq> []
   | _ \<Rightarrow> True)"

lemma delivered_as_mono: "delivered_as m h n \<Longrightarrow> set h \<subseteq> set h' \<Longrightarrow> delivered_as m h' n"
  unfolding delivered_as_def by blast

lemma delivery_rule_store: "store_call q \<Longrightarrow> delivery_rule limit dlq m h q"
  by (cases q) (auto simp: delivery_rule_def store_call_def is_settle_def)

lemma delivery_rule_run:
  "run_call q \<Longrightarrow> delivered_as m h n \<Longrightarrow> n \<le> limit \<Longrightarrow> delivery_rule limit dlq m h q"
  by (cases q) (auto simp: delivery_rule_def run_call_def store_call_def is_settle_def)

lemma delivery_rule_simps [simp]:
  "delivery_rule limit dlq m h TimeNow" "delivery_rule limit dlq m h (MarshalDeadLetter d)"
  "delivery_rule limit dlq m h (MsgMetadata m')"
  by (simp_all add: delivery_rule_def)

lemma dlq_guarded:
  assumes "cb_DeadLetterSubject b \<noteq> []" "delivered_as m h n" "limit \<le> n"
  shows "guarded (delivery_rule limit (cb_DeadLetterSubject b) m) (dlqConsumerMessage ctx b m e deliveries t) h"
proof -
  have tm: "delivery_rule limit (cb_DeadLetterSubject b) m h' (MsgTerm c m)"
    if "set h \<subseteq> set h'" "(JsPublishMsg c' dm i, a) \<in> set h'" "m_Subject dm = cb_DeadLetterSubject b" "a_err a = None"
    for h' c c' dm i a
    using that assms delivered_as_mono [OF assms(2)] unfolding delivery_rule_def by auto
  have pub: "delivery_rule limit (cb_DeadLetterSubject b) m h' (JsPublishMsg c dm i)"
    if "m_Subject dm = cb_DeadLetterSubject b" for h' c dm i
    using that assms(1) by (simp add: delivery_rule_def)
  show ?thesis
    by (auto simp: dlqConsumerMessage_def Let_def split: sum.split option.split intro!: pub)
       (rule tm, auto)
qed

lemma run_guarded:
  assumes "store_ok store" "delivered_as m h n" "n \<le> limit"
  shows "guarded (delivery_rule limit dlq m) (runAction store meta ctx m dc) h"
  by (rule guarded_only [OF runAction_calls [OF assms(1)]])
     (use assms in \<open>auto intro: delivery_rule_run delivered_as_mono\<close>)

lemma nak_rule: "0 < d \<Longrightarrow> delivery_rule limit dlq m h (MsgNakWithDelay c m d)"
  and ack_rule: "ran_well h \<Longrightarrow> delivery_rule limit dlq m h (MsgAckSync c m)"
  and term_rule: "delivered_as m h n \<Longrightarrow> limit \<le> n \<Longrightarrow> delivery_rule limit [] m h (MsgTerm c m)"
  by (auto simp: delivery_rule_def)

lemma delivered_asI: "a_meta a = Inr info \<Longrightarrow> delivered_as m ((MsgMetadata m, a) # h) (uint (md_NumDelivered info))"
  by (auto simp: delivered_as_def)

lemma validate_limits:
  "validateConsumerBinding b = None \<Longrightarrow> 0 < cb_MaxDeliver b"
  "validateDurableBinding d = None \<Longrightarrow> 0 < db_MaxDeliver d \<and> 0 < db_RetryDelay d \<and> db_DeadLetterSubject d \<noteq> []"
  by (auto simp: validateConsumerBinding_def validateDurableBinding_def Let_def split: if_splits)

text \<open>The same on the histories of a handler, which begin with the metadata of the message.\<close>

lemma handler_rules:
  assumes "0 < limit" "in_int64 limit"
  defines "n \<equiv> \<lambda>r. md_NumDelivered (projr (a_meta r))"
  shows "\<not> isl (a_meta r) \<Longrightarrow> store_ok store \<Longrightarrow> \<not> maxDeliverExceeded (n r) limit \<Longrightarrow>
      guarded (delivery_rule limit dlq m) (runAction store meta ctx m dc) ((MsgMetadata m, r) # h)"
    and "\<not> isl (a_meta r) \<Longrightarrow> maxDeliverExceeded (n r) limit \<or> maxDeliverReached (n r) limit \<Longrightarrow>
      cb_DeadLetterSubject b \<noteq> [] \<Longrightarrow> guarded (delivery_rule limit (cb_DeadLetterSubject b) m)
        (dlqConsumerMessage c b m e d t) ((MsgMetadata m, r) # h)"
    and "\<not> isl (a_meta r) \<Longrightarrow> maxDeliverExceeded (n r) limit \<or> maxDeliverReached (n r) limit \<Longrightarrow>
      delivery_rule limit [] m ((MsgMetadata m, r) # h) (MsgTerm c m)"
proof -
  note iffs = maxDeliverReached_iff [OF assms(1,2)] maxDeliverExceeded_iff [OF assms(1,2)]
  have d: "delivered_as m ((MsgMetadata m, r) # h) (uint (n r))" if "\<not> isl (a_meta r)" for r h m
    using that unfolding n_def by (cases "a_meta r") (auto intro: delivered_asI)
  show "\<not> isl (a_meta r) \<Longrightarrow> store_ok store \<Longrightarrow> \<not> maxDeliverExceeded (n r) limit \<Longrightarrow>
      guarded (delivery_rule limit dlq m) (runAction store meta ctx m dc) ((MsgMetadata m, r) # h)"
    by (rule run_guarded [OF _ d]) (auto simp: iffs)
  show "\<not> isl (a_meta r) \<Longrightarrow> maxDeliverExceeded (n r) limit \<or> maxDeliverReached (n r) limit \<Longrightarrow>
      cb_DeadLetterSubject b \<noteq> [] \<Longrightarrow> guarded (delivery_rule limit (cb_DeadLetterSubject b) m)
        (dlqConsumerMessage c b m e d t) ((MsgMetadata m, r) # h)"
    by (rule dlq_guarded [OF _ d]) (auto simp: iffs)
  show "\<not> isl (a_meta r) \<Longrightarrow> maxDeliverExceeded (n r) limit \<or> maxDeliverReached (n r) limit \<Longrightarrow>
      delivery_rule limit [] m ((MsgMetadata m, r) # h) (MsgTerm c m)"
    by (rule term_rule [OF d]) (auto simp: iffs)
qed

lemma runAction_ack:
  "replay (runAction store meta ctx m dc) tr = Some (Returned None) \<Longrightarrow> store_ok store \<Longrightarrow>
   delivery_rule limit dlq m' ((MsgMetadata m, r) # tr) (MsgAckSync c m')"
  by (auto intro!: ack_rule dest: runAction_well)

lemma handleConsumerMessage_guarded:
  assumes v: "validateConsumerBinding b = None" "in_int64 (cb_MaxDeliver b)" and "cb_AckPolicy b \<noteq> AckNone" "store_ok store"
  shows "guarded (delivery_rule (cb_MaxDeliver b) (cb_DeadLetterSubject b) m) (handleConsumerMessage hn store ctx b meta m) []"
proof -
  note rules = handler_rules [OF validate_limits(1) [OF v(1)] v(2)]
  have nak: "guarded (delivery_rule (cb_MaxDeliver b) dlq m) (nakConsumerMessage c b m d e) h" for dlq c d e h
    by (simp add: nakConsumerMessage_def nak_rule consumerRetryDelay_pos [OF v])
  show ?thesis
    using assms(3,4)
    by (auto simp: handleConsumerMessage_def Let_def split: sum.split option.split outcome.split
        intro!: nak guarded_bind rules runAction_ack)
qed

text \<open>Without acknowledgement the handler only runs the action: the validation rules out a dead-letter subject.\<close>

lemma handleConsumerMessage_AckNone:
  assumes "validateConsumerBinding b = None" "cb_AckPolicy b = AckNone" "store_ok store"
  shows "only_calls run_call (handleConsumerMessage hn store ctx b meta m)"
proof -
  have "cb_DeadLetterSubject b = []"
    using assms(1,2) by (auto simp: validateConsumerBinding_def split: if_splits)
  with assms(2) show ?thesis
    by (auto simp: handleConsumerMessage_def Let_def runAction_calls [OF assms(3)]
        split: outcome.split option.split intro!: only_calls_bind)
qed

lemma handleDurableMessage_guarded:
  assumes v: "validateDurableBinding b = None" "in_int64 (db_MaxDeliver b)" and "store_ok store"
  shows "guarded (delivery_rule (db_MaxDeliver b) (db_DeadLetterSubject b) m) (handleDurableMessage hn store ctx b meta m) []"
proof -
  note v2 = validate_limits(2) [OF v(1)]
  note rules = handler_rules [OF conjunct1 [OF v2] v(2)]
  let ?b = "ConsumerBinding0\<lparr>cb_Stream := db_Stream b, cb_Durable := db_Durable b, cb_DeadLetterSubject := db_DeadLetterSubject b\<rparr>"
  have dl: "guarded (delivery_rule (db_MaxDeliver b) (db_DeadLetterSubject b) m) (dlqConsumerMessage c ?b m e d t) ((MsgMetadata m, r) # h)"
    if "\<not> isl (a_meta r)" "maxDeliverExceeded (md_NumDelivered (projr (a_meta r))) (db_MaxDeliver b) \<or>
      maxDeliverReached (md_NumDelivered (projr (a_meta r))) (db_MaxDeliver b)" for c e d t r h
    using rules(2) [OF that, of ?b] v2 by simp
  show ?thesis
    using assms(3) v2
    by (auto simp: handleDurableMessage_def Let_def durableRetryDelay_pos split: sum.split option.split outcome.split
        intro!: nak_rule guarded_bind rules(1) dl runAction_ack)
qed

section \<open>Settling a delivery\<close>

text \<open>The settlements the server confirmed.\<close>

definition settlements :: "event list \<Rightarrow> event list" where
  "settlements tr = filter (\<lambda>(q, a). is_settle q \<and> a_err a = None) tr"

lemma settlements_simps [simp]:
  "settlements [] = []" "settlements (tr1 @ tr2) = settlements tr1 @ settlements tr2"
  "settlements ((q, a) # tr) = (if is_settle q \<and> a_err a = None then (q, a) # settlements tr else settlements tr)"
  by (simp_all add: settlements_def)

lemma is_settle_simps [simp]:
  "is_settle (MsgAckSync c m)" "is_settle (MsgNakWithDelay c m d)" "is_settle (MsgTerm c m)"
  "\<not> is_settle TimeNow" "\<not> is_settle (MarshalDeadLetter dl)" "\<not> is_settle (MsgMetadata m)" "\<not> is_settle (JsPublishMsg c dm i)"
  by (simp_all add: is_settle_def)

lemma no_settlements: "requests is_settle tr = [] \<Longrightarrow> settlements tr = []"
  by (auto simp: requests_def settlements_def filter_empty_conv)

lemma dlq_trace:
  "replay (dlqConsumerMessage ctx b m e d t) tr = Some r \<Longrightarrow>
   quiet tr \<and> length (settlements tr) = (if t \<and> r = None then 1 else 0) \<and> (\<not> t \<longrightarrow> requests is_settle tr = []) \<and>
   (t \<and> r = None \<longrightarrow> requests is_settle tr \<noteq> [])"
  by (auto simp: dlqConsumerMessage_def trace_simps split: if_splits)

lemma run_trace:
  assumes "store_ok store" "replay (runAction store meta ctx m dc) tr = Some r"
  shows "length (requests is_exec tr) \<le> 1 \<and> requests is_settle tr = [] \<and> settlements tr = []"
proof -
  have "only_calls (\<lambda>q. \<not> is_settle q) (runAction store meta ctx m dc)"
    by (rule only_calls_mono [OF runAction_calls [OF assms(1)]])
       (auto simp: run_call_def store_call_def is_settle_def elim: is_exec.elims)
  from only_calls_requests [OF this assms(2)] no_settlements runAction_well [OF assms] show ?thesis by auto
qed

lemma handleConsumerMessage_settles:
  assumes "store_ok store" "replay (handleConsumerMessage hn store ctx b meta m) tr = Some result"
  shows "length (requests is_exec tr) \<le> 1 \<and>
    (if cb_AckPolicy b = AckNone \<or> result = Panicked then requests is_settle tr = []
     else requests is_settle tr \<noteq> [] \<and> length (settlements tr) \<le> 1)"
  using assms(2)
  by (auto simp: handleConsumerMessage_def nakConsumerMessage_def Let_def trace_simps split: if_splits option.splits
      dest!: run_trace [OF assms(1)] dlq_trace)

lemma handleDurableMessage_settles:
  assumes "store_ok store" "replay (handleDurableMessage hn store ctx b meta m) tr = Some result"
  shows "length (requests is_exec tr) \<le> 1 \<and>
    (if result = Panicked then requests is_settle tr = []
     else requests is_settle tr \<noteq> [] \<and> length (settlements tr) \<le> 1)"
  using assms(2)
  by (auto simp: handleDurableMessage_def Let_def trace_simps split: if_splits option.splits
      dest!: run_trace [OF assms(1)] dlq_trace)

section \<open>Handlers over redeliveries\<close>

text \<open>
  Deliveries of one message, each with its number and the complete trace of its handler.  The server
  counts deliveries from 1 upwards and reports the same number as often as it is asked.
\<close>

definition redeliveries :: "(msg \<Rightarrow> unit outcome io) \<Rightarrow> msg \<Rightarrow> (nat \<times> event list) list \<Rightarrow> bool" where
  "redeliveries handle m ds \<longleftrightarrow> sorted_wrt (<) (map fst ds) \<and>
     (\<forall>(n, tr) \<in> set ds. 0 < n \<and> (\<exists>r. replay (handle m) tr = Some r) \<and> (\<forall>k. delivered_as m tr k \<longrightarrow> k = int n))"

definition executions :: "(nat \<times> event list) list \<Rightarrow> nat" where
  "executions ds = sum_list (map (\<lambda>(n, tr). length (requests is_exec tr)) ds)"

lemma executions_le:
  "\<forall>(n, tr) \<in> set ds. length (requests is_exec tr) \<le> 1 \<Longrightarrow>
   executions ds = length (filter (\<lambda>(n, tr). requests is_exec tr \<noteq> []) ds)"
proof (induction ds)
  case (Cons d ds)
  obtain n tr where [simp]: "d = (n, tr)" by (cases d)
  have "length (requests is_exec tr) \<le> 1" using Cons.prems by simp
  then have "length (requests is_exec tr) = (if requests is_exec tr \<noteq> [] then 1 else 0)"
    by (cases "requests is_exec tr") auto
  then show ?case using Cons by (simp add: executions_def)
qed (simp add: executions_def)

locale delivery_handler =
  fixes handle :: "msg \<Rightarrow> unit outcome io" and applies :: bool and limit :: int and dlq :: string
  assumes disciplined: "applies \<Longrightarrow> guarded (delivery_rule limit dlq m) (handle m) []"
    and once: "applies \<Longrightarrow> replay (handle m) tr = Some r \<Longrightarrow> length (requests is_exec tr) \<le> 1"
begin

lemma issued:
  assumes applies "after (handle m) tr \<noteq> None" "(q, a) \<in> set tr"
  obtains tr1 tr2 where "tr = tr1 @ (q, a) # tr2" "delivery_rule limit dlq m tr1 q"
proof -
  from assms(3) obtain tr1 tr2 where tr: "tr = tr1 @ (q, a) # tr2" by (meson split_list)
  from guarded_after [OF disciplined [OF assms(1)] assms(2) [unfolded tr]] have "delivery_rule limit dlq m tr1 q" by simp
  with tr show thesis by (rule that)
qed

lemma executed_within:
  assumes applies "replay (handle m) tr = Some r" "requests is_exec tr \<noteq> []"
  shows "\<exists>n \<le> limit. delivered_as m tr n"
proof -
  obtain c d a where ev: "(ExecuteDecoded c d, a) \<in> set tr"
    using assms(3) by (auto simp: requests_def filter_empty_conv elim: is_exec.elims)
  have "after (handle m) tr \<noteq> None" using assms(2) by (simp add: replay_after)
  then obtain tr1 tr2 where "tr = tr1 @ (ExecuteDecoded c d, a) # tr2" "delivery_rule limit dlq m tr1 (ExecuteDecoded c d)"
    using issued [OF assms(1) _ ev] by blast
  then show ?thesis using delivered_as_mono [of m tr1 _ tr] by (auto simp: delivery_rule_def)
qed

lemma executions_bounded:
  assumes applies "redeliveries handle m ds"
  shows "executions ds \<le> nat limit"
proof -
  let ?run = "filter (\<lambda>(n, tr). requests is_exec tr \<noteq> []) ds"
  have ds: "\<forall>(n, tr) \<in> set ds. 0 < n \<and> (\<exists>r. replay (handle m) tr = Some r) \<and> (\<forall>k. delivered_as m tr k \<longrightarrow> k = int n)"
    and dist: "distinct (map fst ds)"
    using assms(2) by (auto simp: redeliveries_def strict_sorted_iff)
  have "fst d \<in> {1..nat limit}" if "d \<in> set ?run" for d
  proof -
    obtain n tr where [simp]: "d = (n, tr)" by (cases d)
    from that ds obtain r where "0 < n" "replay (handle m) tr = Some r" "requests is_exec tr \<noteq> []"
      and k: "\<forall>k. delivered_as m tr k \<longrightarrow> k = int n" by auto
    from executed_within [OF assms(1) this(2,3)] k have "int n \<le> limit" by auto
    with \<open>0 < n\<close> show ?thesis by auto
  qed
  then have "set (map fst ?run) \<subseteq> {1..nat limit}" by auto
  moreover have "distinct (map fst ?run)" using dist by (simp add: distinct_map_filter)
  ultimately have "length (map fst ?run) \<le> nat limit"
    using card_mono [of "{1..nat limit}" "set (map fst ?run)"] distinct_card [of "map fst ?run"] by simp
  moreover have "\<forall>(n, tr) \<in> set ds. length (requests is_exec tr) \<le> 1"
    using ds once [OF assms(1)] by blast
  ultimately show ?thesis by (simp add: executions_le)
qed

lemma terminated_after_dead_letter:
  assumes applies "dlq \<noteq> []" "after (handle m) tr \<noteq> None" "(MsgTerm c m', a) \<in> set tr"
  shows "\<exists>pre post c' dm i a'. tr = pre @ (MsgTerm c m', a) # post \<and> (JsPublishMsg c' dm i, a') \<in> set pre \<and>
    m_Subject dm = dlq \<and> a_err a' = None"
proof -
  obtain tr1 tr2 where "tr = tr1 @ (MsgTerm c m', a) # tr2" "delivery_rule limit dlq m tr1 (MsgTerm c m')"
    using issued [OF assms(1,3,4)] by blast
  then show ?thesis using assms(2) unfolding delivery_rule_def request.case by blast
qed

end

interpretation consumer_handler: delivery_handler "handleConsumerMessage hn store ctx b meta"
  "validateConsumerBinding b = None \<and> in_int64 (cb_MaxDeliver b) \<and> cb_AckPolicy b \<noteq> AckNone \<and> store_ok store"
  "cb_MaxDeliver b" "cb_DeadLetterSubject b" for hn store ctx b meta
  by unfold_locales (blast intro: handleConsumerMessage_guarded handleConsumerMessage_settles [THEN conjunct1])+

interpretation durable_handler: delivery_handler "handleDurableMessage hn store ctx b meta"
  "validateDurableBinding b = None \<and> in_int64 (db_MaxDeliver b) \<and> store_ok store"
  "db_MaxDeliver b" "db_DeadLetterSubject b" for hn store ctx b meta
  by unfold_locales (blast intro: handleDurableMessage_guarded handleDurableMessage_settles [THEN conjunct1])+

section \<open>Handlers under the pull loop\<close>

lemma dlqConsumerMessage_no_fetch: "only_calls (\<lambda>q. \<not> is_fetch q) (dlqConsumerMessage ctx b m e n t)"
  by (auto simp: dlqConsumerMessage_def Let_def split: sum.split option.split)

lemma runAction_no_fetch: "store_ok store \<Longrightarrow> only_calls (\<lambda>q. \<not> is_fetch q) (runAction store meta ctx m dc)"
  by (rule only_calls_mono [OF runAction_calls])
    (auto simp: run_call_def store_call_def elim: is_exec.elims)

lemma handlers_no_fetch:
  "store_ok store \<Longrightarrow> only_calls (\<lambda>q. \<not> is_fetch q) (handleConsumerMessage hn store ctx b meta m)"
  "store_ok store \<Longrightarrow> only_calls (\<lambda>q. \<not> is_fetch q) (handleDurableMessage hn store ctx d meta m)"
  by (auto simp: handleConsumerMessage_def handleDurableMessage_def nakConsumerMessage_def Let_def
      dlqConsumerMessage_no_fetch runAction_no_fetch intro!: only_calls_bind split: sum.split option.split outcome.split)

interpretation consumer_worker: pull_worker "handleConsumerMessage hn store ctx b meta" "store_ok store"
  for hn store ctx b meta
  by unfold_locales (rule handlers_no_fetch)

interpretation durable_worker: pull_worker "handleDurableMessage hn store ctx b meta" "store_ok store"
  for hn store ctx b meta
  by unfold_locales (rule handlers_no_fetch)

section \<open>Identifiers of dead letters\<close>

definition undecimal :: "string \<Rightarrow> nat" where
  "undecimal s = foldl (\<lambda>v c. 10 * v + (of_char c - 48)) 0 s"

lemma of_char_digit: "n < 10 \<Longrightarrow> (of_char (char_of (48 + n)) :: nat) = 48 + n"
  by simp

lemma undecimal_decimal: "undecimal (decimal n) = n"
proof (induction n rule: decimal.induct)
  case (1 n)
  then show ?case
    by (subst decimal.simps) (simp add: undecimal_def)
qed

lemma digit_no_colon: "k < 10 \<Longrightarrow> char_of (48 + k) \<noteq> CHR '':''" for k :: nat
proof
  assume "k < 10" "char_of (48 + k) = CHR '':''"
  then have "(of_char (char_of (48 + k)) :: nat) = of_char (CHR '':'')" by simp
  with \<open>k < 10\<close> show False by simp
qed

lemma decimal_no_colon: "CHR '':'' \<notin> set (decimal n)"
proof (induction n rule: decimal.induct)
  case (1 n)
  then show ?case
    using digit_no_colon [of n] digit_no_colon [of "n mod 10"] by (subst decimal.simps) auto
qed

lemma takeWhile_rev_colon:
  assumes "CHR '':'' \<notin> set d"
  shows "takeWhile (\<lambda>c. c \<noteq> CHR '':'') (rev (s @ CHR '':'' # d)) = rev d"
proof -
  have "takeWhile (\<lambda>c. c \<noteq> CHR '':'') (rev d @ CHR '':'' # rev s) = rev d @ takeWhile (\<lambda>c. c \<noteq> CHR '':'') (CHR '':'' # rev s)"
    using assms by (intro takeWhile_append2) auto
  then show ?thesis by simp
qed

lemma split_last_colon:
  assumes "s @ CHR '':'' # d = s' @ CHR '':'' # d'" "CHR '':'' \<notin> set d" "CHR '':'' \<notin> set d'"
  shows "s = s' \<and> d = d'"
proof -
  from takeWhile_rev_colon [OF assms(2), of s] takeWhile_rev_colon [OF assms(3), of s'] assms(1)
  have "d = d'" by simp
  with assms(1) show ?thesis by simp
qed

lemma deadLetterID_inject:
  "deadLetterID i = deadLetterID j \<longleftrightarrow> md_Stream i = md_Stream j \<and> md_StreamSeq i = md_StreamSeq j"
proof
  assume "deadLetterID i = deadLetterID j"
  then have "md_Stream i = md_Stream j \<and> decimal (unat (md_StreamSeq i)) = decimal (unat (md_StreamSeq j))"
    unfolding deadLetterID_def by (intro split_last_colon) (simp_all add: decimal_no_colon)
  then show "md_Stream i = md_Stream j \<and> md_StreamSeq i = md_StreamSeq j"
    by (metis undecimal_decimal word_unat_eq_iff)
qed (simp add: deadLetterID_def)

section \<open>Correctness of the handlers\<close>

text \<open>
  C5: Whatever the outside world answers, a run of \<open>handleConsumerMessage\<close> on a validated binding obeys
  the delivery rules at every call it attempts, also if the run is cut short.  With a policy that
  acknowledges, the action runs only within the delivery limit, the message is acknowledged only if no
  run of the action failed, redelivery is asked for only with a positive delay, dead letters go to the
  configured subject, and the message is terminated only at or past the limit; if a dead-letter subject
  is configured, only after the server confirmed the dead letter, and if none is, without one.  With
  \<open>AckNone\<close> the handler neither settles the message nor publishes a dead letter.
\<close>

theorem consumer_discipline:
  assumes "validateConsumerBinding b = None" "in_int64 (cb_MaxDeliver b)" "store_ok store"
    and "after (handleConsumerMessage hn store ctx b meta m) (tr1 @ (q, a) # tr2) \<noteq> None"
  shows "(cb_AckPolicy b \<noteq> AckNone \<longrightarrow> delivery_rule (cb_MaxDeliver b) (cb_DeadLetterSubject b) m tr1 q) \<and>
    (cb_AckPolicy b = AckNone \<longrightarrow> \<not> is_settle q \<and> \<not> is_publish q)"
proof (cases "cb_AckPolicy b = AckNone")
  case True
  have "guarded (\<lambda>_. run_call) (handleConsumerMessage hn store ctx b meta m) []"
    by (rule guarded_only [OF handleConsumerMessage_AckNone [OF assms(1) True assms(3)]])
  from guarded_after [OF this assms(4)] have "run_call q" .
  with True show ?thesis
    by (auto simp: run_call_def store_call_def is_settle_def elim: is_exec.elims)
next
  case False
  with guarded_after [OF handleConsumerMessage_guarded [OF assms(1,2) False assms(3)] assms(4)] show ?thesis by simp
qed

text \<open>A store, bindings, a message and deliveries to evaluate the handlers on.\<close>

definition sampleNames :: header_names where
  "sampleNames = \<lparr>hn_RequestID = ''X-Request-Id'', hn_ExecutionID = ''X-Execution-Id'',
     hn_identityExecutionID = ''X-Execution-Id'', hn_TraceID = ''X-Trace-Id'', hn_SpanID = ''X-Span-Id''\<rparr>"

definition sampleStore :: IdempotencyStore where
  "sampleStore = Coordinating (kvCoordinator sampleKernel sampleCoordinator)"

definition sampleMsg :: msg where
  "sampleMsg = \<lparr>m_Subject = ''orders.new'', m_Reply = [], m_Data = ''1'', m_Header = None\<rparr>"

definition sampleConsumer :: ConsumerBinding where
  "sampleConsumer = ToDeadLetter (Consumer ''ORDERS'' ''orders.new'' ''worker'') ''orders.dead''"

definition sampleDurable :: DurableBinding where
  "sampleDurable = DurableWork ''ORDERS'' ''orders.new'' ''worker'' ''orders.dead''"

definition delivery :: "u64 \<Rightarrow> event" where
  "delivery n = (MsgMetadata sampleMsg,
     answer0\<lparr>a_meta := Inr \<lparr>md_NumDelivered = n, md_Stream = ''ORDERS'', md_StreamSeq = 7\<rparr>\<rparr>)"

text \<open>A delivery whose action fails and that is given back, and one past the limit.\<close>

definition failed_delivery :: "string \<Rightarrow> u64 \<Rightarrow> event list" where
  "failed_delivery endpoint n = [delivery n,
     (ExecuteDecoded (request_ctx sampleNames Background endpoint sampleMsg) (message_decoder sampleMsg), answer0),
     (ExecuteFinish, answer0\<lparr>a_exec := Returned (Inl (plain_error ''boom''))\<rparr>),
     (MsgNakWithDelay (ackCtx Background) sampleMsg Second, answer0)]"

definition late_delivery :: "event list" where
  "late_delivery = [delivery 6, (TimeNow, answer0),
     (MarshalDeadLetter \<lparr>dl_Stream = ''ORDERS'', dl_Subject = ''orders.new'', dl_Durable = ''worker'', dl_Deliveries = 6,
        dl_FailedAt = 0, dl_Error = app KindInternal ''durable delivery limit exceeded; retrying dead-letter handling'' [],
        dl_Payload = ''1'', dl_Headers = []\<rparr>, answer0),
     delivery 6, (JsPublishMsg (ackCtx Background) \<lparr>m_Subject = ''orders.dead'', m_Reply = [], m_Data = [], m_Header = Some []\<rparr>
        (Some (''ORDERS:'' @ decimal 7)), answer0),
     (MsgTerm (ackCtx Background) sampleMsg, answer0)]"

lemma sample_valid [simp]:
  "validateConsumerBinding sampleConsumer = None" "validateDurableBinding sampleDurable = None"
  "cb_MaxDeliver sampleConsumer = 5" "db_MaxDeliver sampleDurable = 5" "cb_AckPolicy sampleConsumer \<noteq> AckNone"
  "db_DeadLetterSubject sampleDurable = ''orders.dead''" "cb_DeadLetterSubject sampleConsumer = ''orders.dead''"
  by (simp_all add: sampleConsumer_def sampleDurable_def ToDeadLetter_def Consumer_def ConsumerBinding0_def
      DurableWork_def validateConsumerBinding_def validateDurableBinding_def policy_defs)

lemma sample_store [simp]: "store_ok sampleStore"
  by (simp add: sampleStore_def kv_store_ok)

lemma sample_limits [simp]:
  "\<not> maxDeliverExceeded 1 5" "\<not> maxDeliverReached 1 5" "maxDeliverExceeded 6 5"
  by (simp_all add: maxDeliverExceeded_iff maxDeliverReached_iff in_int64_def)

lemma retryAfter_plain [simp]: "retryAfter (plain_error s) = 0"
  by (simp add: retryAfter_def plain_error_def errors_As.simps)

lemma failed_consumer:
  "replay (handleConsumerMessage sampleNames sampleStore Background sampleConsumer None sampleMsg)
     (failed_delivery ''nats.consumer.'' 1) = Some (Returned ())"
  by (simp add: handleConsumerMessage_def failed_delivery_def delivery_def Let_def runAction_def executeDecoded_def
      nakConsumerMessage_def consumerRetryDelay_def replay.simps)
     (simp add: sampleConsumer_def ToDeadLetter_def Consumer_def ConsumerBinding0_def)

lemma failed_durable:
  "replay (handleDurableMessage sampleNames sampleStore Background sampleDurable None sampleMsg)
     (failed_delivery ''nats.durable.'' 1) = Some (Returned ())"
  by (simp add: handleDurableMessage_def failed_delivery_def delivery_def Let_def runAction_def executeDecoded_def
      durableRetryDelay_def replay.simps)
     (simp add: sampleDurable_def DurableWork_def)

lemma late_durable:
  "replay (handleDurableMessage sampleNames sampleStore Background sampleDurable None sampleMsg) late_delivery
     = Some (Returned ())"
  by (simp add: handleDurableMessage_def late_delivery_def delivery_def Let_def dlqConsumerMessage_def
      deadLetterID_def first_values_def replay.simps)
     (simp add: sampleDurable_def sampleMsg_def DurableWork_def)

lemma delivered_as_sample: "delivered_as sampleMsg (failed_delivery endpoint 1) k \<longleftrightarrow> k = 1"
  by (auto simp: delivered_as_def failed_delivery_def delivery_def)

theorem consumer_discipline_witness:
  "delivery_rule 5 ''orders.dead'' sampleMsg [delivery 1]
     (ExecuteDecoded (request_ctx sampleNames Background ''nats.consumer.'' sampleMsg) (message_decoder sampleMsg))"
proof -
  have "after (handleConsumerMessage sampleNames sampleStore Background sampleConsumer None sampleMsg)
      (failed_delivery ''nats.consumer.'' 1) \<noteq> None"
    using failed_consumer by (simp add: replay_after)
  then show ?thesis
    using consumer_discipline [of sampleConsumer sampleStore sampleNames Background None sampleMsg "[delivery 1]"]
    by (simp add: failed_delivery_def in_int64_def)
qed

text \<open>
  C32: A durable message is never dropped silently: if \<open>handleDurableMessage\<close> on a validated binding
  terminates the message, it has before that published a dead letter to the binding's dead-letter
  subject, and the server has confirmed it.
\<close>

theorem durable_dead_letter_before_term:
  assumes "validateDurableBinding b = None" "in_int64 (db_MaxDeliver b)" "store_ok store"
    and "after (handleDurableMessage hn store ctx b meta m) tr \<noteq> None" "(MsgTerm c m', a) \<in> set tr"
  shows "\<exists>pre post c' dm i a'. tr = pre @ (MsgTerm c m', a) # post \<and> (JsPublishMsg c' dm i, a') \<in> set pre \<and>
    m_Subject dm = db_DeadLetterSubject b \<and> a_err a' = None"
  using assms validate_limits(2) [OF assms(1)] by (intro durable_handler.terminated_after_dead_letter) auto

theorem durable_dead_letter_before_term_witness:
  "\<exists>c' dm i a'. (JsPublishMsg c' dm i, a') \<in> set late_delivery \<and> m_Subject dm = ''orders.dead'' \<and> a_err a' = None"
proof -
  have "after (handleDurableMessage sampleNames sampleStore Background sampleDurable None sampleMsg) late_delivery \<noteq> None"
    using late_durable by (simp add: replay_after)
  moreover have "(MsgTerm (ackCtx Background) sampleMsg, answer0) \<in> set late_delivery" by (simp add: late_delivery_def)
  ultimately obtain pre post c' dm i a' where "late_delivery = pre @ (MsgTerm (ackCtx Background) sampleMsg, answer0) # post"
    "(JsPublishMsg c' dm i, a') \<in> set pre" "m_Subject dm = ''orders.dead''" "a_err a' = None"
    using durable_dead_letter_before_term [of sampleDurable sampleStore sampleNames Background None sampleMsg late_delivery
        "ackCtx Background" sampleMsg answer0]
    by (auto simp: in_int64_def)
  moreover from this(1,2) have "(JsPublishMsg c' dm i, a') \<in> set late_delivery" by (metis UnI1 set_append)
  ultimately show ?thesis by blast
qed

text \<open>
  C6: However often a message is redelivered, \<open>handleConsumerMessage\<close> on a validated binding that
  acknowledges runs the action for it at most \<open>MaxDeliver\<close> times, although the server is told to
  redeliver without limit.
\<close>

theorem consumer_executions_bounded:
  assumes "validateConsumerBinding b = None" "in_int64 (cb_MaxDeliver b)" "cb_AckPolicy b \<noteq> AckNone" "store_ok store"
    and "redeliveries (handleConsumerMessage hn store ctx b meta) m ds"
  shows "executions ds \<le> nat (cb_MaxDeliver b)"
  using assms by (intro consumer_handler.executions_bounded) auto

theorem consumer_executions_bounded_witness:
  "executions [(1, failed_delivery ''nats.consumer.'' 1)] \<le> 5"
proof -
  have "redeliveries (handleConsumerMessage sampleNames sampleStore Background sampleConsumer None) sampleMsg
      [(1, failed_delivery ''nats.consumer.'' 1)]"
    using failed_consumer by (auto simp: redeliveries_def delivered_as_sample)
  from consumer_executions_bounded [OF _ _ _ _ this] show ?thesis by (simp add: in_int64_def)
qed

text \<open>
  The same bound for \<open>handleDurableMessage\<close> on a validated durable binding.
\<close>

theorem durable_executions_bounded:
  assumes "validateDurableBinding b = None" "in_int64 (db_MaxDeliver b)" "store_ok store"
    and "redeliveries (handleDurableMessage hn store ctx b meta) m ds"
  shows "executions ds \<le> nat (db_MaxDeliver b)"
  using assms by (intro durable_handler.executions_bounded) auto

theorem durable_executions_bounded_witness:
  "executions [(1, failed_delivery ''nats.durable.'' 1)] \<le> 5"
proof -
  have "redeliveries (handleDurableMessage sampleNames sampleStore Background sampleDurable None) sampleMsg
      [(1, failed_delivery ''nats.durable.'' 1)]"
    using failed_durable by (auto simp: redeliveries_def delivered_as_sample)
  from durable_executions_bounded [OF _ _ _ this] show ?thesis by (simp add: in_int64_def)
qed

text \<open>
  C33: A consumer's handler runs the action at most once per delivery.  With acknowledgement it attempts
  to settle every delivery whose handling returns, and the server confirms at most one settlement; a
  delivery whose action panics, and every delivery of a binding without acknowledgement, is left alone.
\<close>

theorem consumer_settles:
  assumes "store_ok store" "replay (handleConsumerMessage hn store ctx b meta m) tr = Some result"
  shows "length (requests is_exec tr) \<le> 1 \<and>
    (if cb_AckPolicy b = AckNone \<or> result = Panicked then requests is_settle tr = []
     else requests is_settle tr \<noteq> [] \<and> length (settlements tr) \<le> 1)"
  using assms by (rule handleConsumerMessage_settles)

theorem consumer_settles_witness:
  "length (settlements (failed_delivery ''nats.consumer.'' 1)) \<le> 1"
  using consumer_settles [OF sample_store failed_consumer] by simp

text \<open>
  The durable handler runs the action at most once per delivery, attempts to settle every delivery
  whose handling returns, with at most one confirmed settlement, and leaves a panicking one alone.
\<close>

theorem durable_settles:
  assumes "store_ok store" "replay (handleDurableMessage hn store ctx b meta m) tr = Some result"
  shows "length (requests is_exec tr) \<le> 1 \<and>
    (if result = Panicked then requests is_settle tr = []
     else requests is_settle tr \<noteq> [] \<and> length (settlements tr) \<le> 1)"
  using assms by (rule handleDurableMessage_settles)

theorem durable_settles_witness:
  "length (settlements late_delivery) \<le> 1"
  using durable_settles [OF sample_store late_durable] by simp

text \<open>
  The delay before a redelivery of a validated consumer is positive: the error's own delay if that
  is positive, else the backoff of the delivery's number, the last one for all later deliveries, or one
  second; the index into the backoff list is never out of range.
\<close>

theorem consumerRetryDelay_sound:
  assumes "validateConsumerBinding b = None" "in_int64 (cb_MaxDeliver b)"
  shows "0 < consumerRetryDelay b deliveries e \<and>
    (0 < retryAfter e \<longrightarrow> consumerRetryDelay b deliveries e = retryAfter e) \<and>
    (retryAfter e \<le> 0 \<and> cb_BackOff b = [] \<longrightarrow> consumerRetryDelay b deliveries e = Second) \<and>
    (retryAfter e \<le> 0 \<and> cb_BackOff b \<noteq> [] \<longrightarrow>
       nat (backoffIndex deliveries (int (length (cb_BackOff b)))) < length (cb_BackOff b) \<and>
       consumerRetryDelay b deliveries e =
         cb_BackOff b ! nat (min (uint deliveries) (int (length (cb_BackOff b))) - 1))"
proof -
  have "int (length (cb_BackOff b)) \<le> cb_MaxDeliver b"
    using assms(1) by (auto simp: validateConsumerBinding_def Let_def split: if_splits)
  then have n: "in_int64 (int (length (cb_BackOff b)))" using assms(2) by (simp add: in_int64_def)
  have idx: "nat (min (uint deliveries) (int (length (cb_BackOff b))) - 1) =
      nat (backoffIndex deliveries (int (length (cb_BackOff b))))"
    by (simp add: backoffIndex_eq [OF n])
  show ?thesis
    unfolding idx using consumerRetryDelay_pos [OF assms, of deliveries e] backoffIndex_range [OF _ n, of deliveries]
    by (auto simp: consumerRetryDelay_def Let_def)
qed

theorem consumerRetryDelay_sound_witness:
  "consumerRetryDelay (WithBackOff sampleConsumer [Second, 5 * Second]) 9 (plain_error ''boom'') = 5 * Second"
proof -
  have "validateConsumerBinding (WithBackOff sampleConsumer [Second, 5 * Second]) = None"
    by (simp add: sampleConsumer_def ToDeadLetter_def Consumer_def ConsumerBinding0_def WithBackOff_def
        validateConsumerBinding_def policy_defs)
  from consumerRetryDelay_sound [OF this, of 9 "plain_error ''boom''"] show ?thesis
    by (simp add: WithBackOff_def in_int64_def)
qed

text \<open>
  Every dead letter is published under an identifier that depends on nothing but the message: the
  name of its stream and its sequence number there, which no other message has.  Neither the consumer
  nor the delivery nor the error enters, so repeated dead letters of a message are duplicates to the
  server, those of different consumers of one stream too.
\<close>

theorem dead_letter_identifier:
  assumes "after (dlqConsumerMessage ctx b m e deliveries t) tr \<noteq> None" "(JsPublishMsg c dm ident, a) \<in> set tr"
  shows "\<exists>a' info. (MsgMetadata m, a') \<in> set tr \<and> a_meta a' = Inr info \<and> ident = Some (deadLetterID info) \<and>
    (\<forall>info'. deadLetterID info' = deadLetterID info \<longleftrightarrow>
       md_Stream info' = md_Stream info \<and> md_StreamSeq info' = md_StreamSeq info)"
proof -
  let ?W = "\<lambda>h q. \<forall>c dm ident. q = JsPublishMsg c dm ident \<longrightarrow>
      (\<exists>a' info. (MsgMetadata m, a') \<in> set h \<and> a_meta a' = Inr info \<and> ident = Some (deadLetterID info))"
  have "guarded ?W (dlqConsumerMessage ctx b m e deliveries t) []"
    by (auto simp: dlqConsumerMessage_def Let_def split: sum.split option.split)
  moreover obtain tr1 tr2 where tr: "tr = tr1 @ (JsPublishMsg c dm ident, a) # tr2" using assms(2) by (meson split_list)
  ultimately have "?W tr1 (JsPublishMsg c dm ident)" using guarded_after [of ?W _ "[]"] assms(1) by fastforce
  then show ?thesis using tr deadLetterID_inject by fastforce
qed

theorem dead_letter_identifier_witness:
  "deadLetterID \<lparr>md_NumDelivered = 6, md_Stream = ''ORDERS'', md_StreamSeq = 7\<rparr> = ''ORDERS:'' @ decimal 7"
proof -
  let ?b = "ConsumerBinding0\<lparr>cb_Stream := ''ORDERS'', cb_Durable := ''worker'', cb_DeadLetterSubject := ''orders.dead''\<rparr>"
  let ?dm = "\<lparr>m_Subject = ''orders.dead'', m_Reply = [], m_Data = [], m_Header = Some []\<rparr>"
  have "after (dlqConsumerMessage (ackCtx Background) ?b sampleMsg
      (app KindInternal ''durable delivery limit exceeded; retrying dead-letter handling'' []) 6 True) (tl late_delivery) \<noteq> None"
    by (simp add: late_delivery_def dlqConsumerMessage_def delivery_def deadLetterID_def first_values_def)
       (simp add: sampleMsg_def)
  from dead_letter_identifier [OF this, of "ackCtx Background" ?dm "Some (''ORDERS:'' @ decimal 7)" answer0]
  show ?thesis by (auto simp: late_delivery_def delivery_def)
qed

text \<open>
  C24: The worker of a consumer loses no message it has fetched and does not give up. When its loop
  returns, the last call gives the subscription back; before that every message fetched was
  handled completely, in the order of fetching; and the loop was ended by its context, by a
  cancelled fetch or by a closed connection: time-outs and failed fetches alone keep it running.
\<close>

theorem consumer_worker_complete:
  assumes "replay (runFetchLoop (handleConsumerMessage hn store ctx b meta) ctx d k n) tr = Some (Some (Returned ()))"
    and "ctx \<noteq> Background" and "store_ok store"
  shows "\<exists>pre a. tr = pre @ [(SubUnsubscribe, a)] \<and> stop_reason ctx pre \<and>
    handled (handleConsumerMessage hn store ctx b meta) (fetched tr) pre"
  by (rule consumer_worker.runFetchLoop_trace [OF assms])

definition workerTrace :: "event list" where
  "workerTrace = [(CtxErr (Caller 0), answer0),
     (SubFetch (WithTimeout (Caller 0) Second) 1, answer0\<lparr>a_msgs := Inl (sentinel_error (NatsErr ''ErrTimeout''))\<rparr>),
     (CtxErr (Caller 0), answer0),
     (SubFetch (WithTimeout (Caller 0) Second) 1, answer0\<lparr>a_msgs := Inr [sampleMsg]\<rparr>),
     (MsgMetadata sampleMsg, answer0), (MsgNakWithDelay (ackCtx (Caller 0)) sampleMsg Second, answer0),
     (CtxErr (Caller 0), answer0\<lparr>a_err := Some (plain_error ''canceled'')\<rparr>), (SubUnsubscribe, answer0)]"

lemma workerTrace_run:
  "replay (runFetchLoop (handleConsumerMessage sampleNames sampleStore (Caller 0) sampleConsumer None) (Caller 0)
     Second 1 3) workerTrace = Some (Some (Returned ()))"
proof -
  have "consumerRetryDelay sampleConsumer 1 (MapErr (plain_error [])) = Second"
    by code_simp
  then show ?thesis
    by (simp add: runFetchLoop_def numeral_3_eq_3 ctx_Err_def workerTrace_def handleConsumerMessage_def
        nakConsumerMessage_def answer0_def Let_def replay.simps sentinel_error_def)
qed

theorem consumer_worker_complete_witness:
  "\<exists>pre. workerTrace = pre @ [(SubUnsubscribe, answer0)] \<and> stop_reason (Caller 0) pre \<and>
    handled (handleConsumerMessage sampleNames sampleStore (Caller 0) sampleConsumer None) [sampleMsg] pre"
proof -
  have "fetched workerTrace = [sampleMsg]" by (simp add: workerTrace_def)
  then show ?thesis
    using consumer_worker_complete [OF workerTrace_run _ sample_store] by (auto simp: workerTrace_def)
qed

end
