(* ===== verification/Connection.thy ===== *)
theory Connection
  imports Effects
begin

text \<open>
  The lazily dialed connection shared by all users of a transport: \<open>src/tnats/lazy.go\<close>, with the
  initial states of \<open>New\<close> and \<open>FromConn\<close>.

  Calls of \<open>EnsureConn\<close>, \<open>Close\<close> and the parts of \<open>Do\<close> that touch the same fields run
  concurrently.  Each call is a thread with a program counter; one step of a thread is one critical
  section of \<open>t.mu\<close>, one operation on the channel \<open>connectGate\<close>, or one call into the NATS client,
  and threads interleave arbitrarily.  What the client, the contexts and \<open>select\<close> answer is chosen
  by the environment at every step, and connections may close at any time.
\<close>

section \<open>State\<close>

type_synonym tid = nat
type_synonym conn = nat

text \<open>The fields of \<open>Transport\<close> that hold the connection; the gate is a channel of capacity one.\<close>

record transport =
  t_url :: string
  t_conn :: "conn option"
  t_providedConn :: bool
  t_js :: "conn option"
  t_initErr :: "goerror option"
  t_closing :: bool
  t_connectCancel :: "tid option"
  t_connectGate :: bool

text \<open>What \<open>cachedConnection\<close> copies under the read lock, and what it makes of it.\<close>

record fields_read =
  fr_conn :: "conn option"
  fr_initErr :: "goerror option"
  fr_providedConn :: bool
  fr_closing :: bool

record cachedConnectionState =
  cs_conn :: "conn option"
  cs_err :: "goerror option"
  cs_ready :: bool

type_synonym conn_result = "conn option \<times> goerror option"

text \<open>
  Program counters, one datatype per Go function: the positions between its steps, with the local
  variables that are live there.
\<close>

datatype ensure_pc =
    Enter bool                     \<comment> \<open>whether the context is nil\<close>
  | Read | Check fields_read | Gate
  | Held | Reread | Recheck fields_read
  | Unlock conn_result | Done conn_result

datatype dial_pc =
    ReadURL | Register | Connect
  | Wait conn | Select conn | OpenJS conn | Install conn
  | CloseDialed conn goerror | Deregister conn_result

datatype close_pc =
    Mark | CancelDial "tid option" | CloseGate | Take | CloseConn conn | CloseUnlock | CloseDone

datatype do_pc = Reset | ResetDone | MarkEnd

datatype js_pc = RunJS | JSDone conn_result

datatype pc = Idle | E ensure_pc | D dial_pc | C close_pc | R do_pc | J js_pc

text \<open>
  What the threads share: the transport, its open connections, the number of connections so far,
  and the threads whose dialing context was cancelled.
\<close>

record shared =
  s_t :: transport
  s_open :: "conn set"
  s_next :: conn
  s_cancelled :: "tid set"

type_synonym world = "shared \<times> (tid \<Rightarrow> pc)"

text \<open>The choices of the environment in one step.\<close>

datatype select_case = GateFree | Connected | Closed | CtxDone | ConnectCtxDone

record env =
  e_ctxErr :: "goerror option"     \<comment> \<open>\<open>ctx.Err()\<close>\<close>
  e_err :: "goerror option"        \<comment> \<open>the error of a call into the client\<close>
  e_flag :: bool                   \<comment> \<open>\<open>nc.IsConnected()\<close>\<close>
  e_parentDone :: bool             \<comment> \<open>whether the parent of \<open>connectCtx\<close> has ended\<close>
  e_select :: select_case

section \<open>The cached connection\<close>

definition read_fields :: "transport \<Rightarrow> fields_read" where
  "read_fields t = \<lparr>fr_conn = t_conn t, fr_initErr = t_initErr t, fr_providedConn = t_providedConn t,
     fr_closing = t_closing t\<rparr>"

abbreviation unavailable :: "string \<Rightarrow> goerror" where
  "unavailable m \<equiv> app KindUnavailable m []"

definition cachedConnection :: "fields_read \<Rightarrow> conn set \<Rightarrow> cachedConnectionState" where
  "cachedConnection f opened =
    (let ready_err = (\<lambda>e. \<lparr>cs_conn = None, cs_err = Some e, cs_ready = True\<rparr>);
         closed = (case fr_conn f of None \<Rightarrow> True | Some c \<Rightarrow> c \<notin> opened);
         found = \<lparr>cs_conn = fr_conn f, cs_err = None, cs_ready = True\<rparr>
     in case fr_initErr f of
          Some e \<Rightarrow> ready_err (MapErr e)
        | None \<Rightarrow>
            if fr_closing f then ready_err (unavailable ''nats: transport is closed'')
            else if fr_providedConn f then
              (if closed then ready_err (unavailable ''nats: caller-supplied connection is closed'') else found)
            else if \<not> closed then found
            else \<lparr>cs_conn = None, cs_err = None, cs_ready = False\<rparr>)"

section \<open>Steps of the threads\<close>

text \<open>
  A step of thread \<open>i\<close> yields its next position and the new shared state; \<open>None\<close> is a thread that
  is blocked under the environment's choice, or has ended.
\<close>

abbreviation set_t :: "(transport \<Rightarrow> transport) \<Rightarrow> shared \<Rightarrow> shared" where
  "set_t f s \<equiv> s\<lparr>s_t := f (s_t s)\<rparr>"

fun EnsureConn_step :: "env \<Rightarrow> ensure_pc \<Rightarrow> shared \<Rightarrow> (pc \<times> shared) option" where
  "EnsureConn_step e (Enter ctx_nil) s = Some (
      (if ctx_nil then E (Done (None, Some (app KindBadRequest ''nats: context is required'' [])))
       else case e_ctxErr e of Some err \<Rightarrow> E (Done (None, Some err)) | None \<Rightarrow> E Read), s)"
| "EnsureConn_step e Read s = Some (E (Check (read_fields (s_t s))), s)"
| "EnsureConn_step e (Check f) s =
    (let state = cachedConnection f (s_open s)
     in Some (if cs_ready state then E (Done (cs_conn state, cs_err state)) else E Gate, s))"
| "EnsureConn_step e Gate s = (case e_select e of
      GateFree \<Rightarrow> if t_connectGate (s_t s) then None else Some (E Held, set_t (\<lambda>t. t\<lparr>t_connectGate := True\<rparr>) s)
    | CtxDone \<Rightarrow> (case e_ctxErr e of Some err \<Rightarrow> Some (E (Done (None, Some err)), s) | None \<Rightarrow> None)
    | _ \<Rightarrow> None)"
| "EnsureConn_step e Held s =
    Some (case e_ctxErr e of Some err \<Rightarrow> E (Unlock (None, Some err)) | None \<Rightarrow> E Reread, s)"
| "EnsureConn_step e Reread s = Some (E (Recheck (read_fields (s_t s))), s)"
| "EnsureConn_step e (Recheck f) s =
    (let state = cachedConnection f (s_open s)
     in Some (if cs_ready state then E (Unlock (cs_conn state, cs_err state)) else D ReadURL, s))"
| "EnsureConn_step e (Unlock r) s = Some (E (Done r), set_t (\<lambda>t. t\<lparr>t_connectGate := False\<rparr>) s)"
| "EnsureConn_step e (Done r) s = None"

text \<open>The loop of \<open>waitForInitialConnection\<close>, from its head (\<open>Wait\<close>) and its \<open>select\<close>.\<close>

abbreviation interrupted :: goerror where
  "interrupted \<equiv> unavailable ''nats: transport closed during initial connection''"

definition wait_head :: "env \<Rightarrow> tid \<Rightarrow> conn \<Rightarrow> shared \<Rightarrow> dial_pc" where
  "wait_head e i nc s = (case e_ctxErr e of
      Some err \<Rightarrow> CloseDialed nc err
    | None \<Rightarrow>
        if i \<in> s_cancelled s \<or> e_parentDone e then CloseDialed nc interrupted
        else if e_flag e then OpenJS nc
        else Select nc)"

definition wait_select :: "env \<Rightarrow> tid \<Rightarrow> conn \<Rightarrow> shared \<Rightarrow> dial_pc option" where
  "wait_select e i nc s = (case e_select e of
      Connected \<Rightarrow> Some (Wait nc)
    | Closed \<Rightarrow> Some (CloseDialed nc (case e_err e of
          Some err \<Rightarrow> MapErr err
        | None \<Rightarrow> unavailable ''nats: connection closed before initial connection''))
    | CtxDone \<Rightarrow> (case e_ctxErr e of Some err \<Rightarrow> Some (CloseDialed nc err) | None \<Rightarrow> None)
    | ConnectCtxDone \<Rightarrow>
        if i \<in> s_cancelled s \<or> e_parentDone e then Some (CloseDialed nc interrupted) else None
    | GateFree \<Rightarrow> None)"

text \<open>
  \<open>dialConnection\<close>, called with the gate held.  Its deferred function is \<open>Deregister\<close>; the
  returns before that is deferred skip it.
\<close>

fun dialConnection_step :: "env \<Rightarrow> tid \<Rightarrow> dial_pc \<Rightarrow> shared \<Rightarrow> (pc \<times> shared) option" where
  "dialConnection_step e i ReadURL s = Some (
      if t_url (s_t s) = [] then E (Unlock (None, Some (app KindInternal ''nats: URL is required to dial'' [])))
      else D Register, s)"
| "dialConnection_step e i Register s = Some (
      if t_closing (s_t s) then (E (Unlock (None, Some (unavailable ''nats: transport is closed''))), s)
      else (D Connect, set_t (\<lambda>t. t\<lparr>t_connectCancel := Some i\<rparr>) s))"
| "dialConnection_step e i Connect s = Some (case e_err e of
      Some err \<Rightarrow> (D (Deregister (None, Some (case e_ctxErr e of Some c \<Rightarrow> c | None \<Rightarrow> MapErr err))), s)
    | None \<Rightarrow> (D (Wait (s_next s)), s\<lparr>s_open := insert (s_next s) (s_open s), s_next := Suc (s_next s)\<rparr>))"
| "dialConnection_step e i (Wait nc) s = Some (D (wait_head e i nc s), s)"
| "dialConnection_step e i (Select nc) s = map_option (\<lambda>p. (D p, s)) (wait_select e i nc s)"
| "dialConnection_step e i (OpenJS nc) s =
    Some (case e_err e of Some err \<Rightarrow> D (CloseDialed nc (MapErr err)) | None \<Rightarrow> D (Install nc), s)"
| "dialConnection_step e i (Install nc) s = Some (
      if t_closing (s_t s)
      then (D (CloseDialed nc (unavailable ''nats: transport closed during connection setup'')), s)
      else (D (Deregister (Some nc, None)), set_t (\<lambda>t. t\<lparr>t_conn := Some nc, t_js := Some nc\<rparr>) s))"
| "dialConnection_step e i (CloseDialed nc err) s =
    Some (D (Deregister (None, Some err)), s\<lparr>s_open := s_open s - {nc}\<rparr>)"
| "dialConnection_step e i (Deregister r) s =
    Some (E (Unlock r), set_t (\<lambda>t. t\<lparr>t_connectCancel := None\<rparr>) (s\<lparr>s_cancelled := insert i (s_cancelled s)\<rparr>))"

fun Close_step :: "close_pc \<Rightarrow> shared \<Rightarrow> (pc \<times> shared) option" where
  "Close_step Mark s = Some (C (CancelDial (t_connectCancel (s_t s))), set_t (\<lambda>t. t\<lparr>t_closing := True\<rparr>) s)"
| "Close_step (CancelDial cancelConnect) s = Some (C CloseGate, (case cancelConnect of
      None \<Rightarrow> s | Some j \<Rightarrow> s\<lparr>s_cancelled := insert j (s_cancelled s)\<rparr>))"
| "Close_step CloseGate s =
    (if t_connectGate (s_t s) then None else Some (C Take, set_t (\<lambda>t. t\<lparr>t_connectGate := True\<rparr>) s))"
| "Close_step Take s = Some (
      (case t_conn (s_t s) of
         Some nc \<Rightarrow> if \<not> t_providedConn (s_t s) then C (CloseConn nc) else C CloseUnlock
       | None \<Rightarrow> C CloseUnlock), set_t (\<lambda>t. t\<lparr>t_conn := None, t_js := None\<rparr>) s)"
| "Close_step (CloseConn nc) s = Some (C CloseUnlock, s\<lparr>s_open := s_open s - {nc}\<rparr>)"
| "Close_step CloseUnlock s = Some (C CloseDone, set_t (\<lambda>t. t\<lparr>t_connectGate := False\<rparr>) s)"
| "Close_step CloseDone s = None"

text \<open>
  The accesses of \<open>Do\<close> to the same fields: at its start it opens the transport again, and its
  deferred function marks it as closing before it stops the workers and calls \<open>Close\<close>.
\<close>

fun Do_step :: "do_pc \<Rightarrow> shared \<Rightarrow> (pc \<times> shared) option" where
  "Do_step Reset s = Some (R ResetDone, set_t (\<lambda>t. t\<lparr>t_closing := False\<rparr>) s)"
| "Do_step MarkEnd s = Some (C Mark, set_t (\<lambda>t. t\<lparr>t_closing := True\<rparr>) s)"
| "Do_step ResetDone s = None"

text \<open>\<open>ensureJetStream\<close> of \<open>src/tnats/tnats_stream.go\<close>, all under the lock.\<close>

fun ensureJetStream_step :: "env \<Rightarrow> js_pc \<Rightarrow> shared \<Rightarrow> (pc \<times> shared) option" where
  "ensureJetStream_step e RunJS s = Some (case t_js (s_t s) of
      Some js \<Rightarrow> (J (JSDone (Some js, None)), s)
    | None \<Rightarrow> (case t_conn (s_t s) of
        None \<Rightarrow> (J (JSDone (None, Some (unavailable ''nats: connection not ready''))), s)
      | Some c \<Rightarrow> (case e_err e of
          Some err \<Rightarrow> (J (JSDone (None, Some (MapErr err))), s)
        | None \<Rightarrow> (J (JSDone (Some c, None)), set_t (\<lambda>t. t\<lparr>t_js := Some c\<rparr>) s))))"
| "ensureJetStream_step e (JSDone r) s = None"

fun pc_step :: "env \<Rightarrow> tid \<Rightarrow> pc \<Rightarrow> shared \<Rightarrow> (pc \<times> shared) option" where
  "pc_step e i Idle s = None"
| "pc_step e i (E p) s = EnsureConn_step e p s"
| "pc_step e i (D p) s = dialConnection_step e i p s"
| "pc_step e i (C p) s = Close_step p s"
| "pc_step e i (R p) s = Do_step p s"
| "pc_step e i (J p) s = ensureJetStream_step e p s"

section \<open>Initial states and runs\<close>

definition fresh_transport :: transport where
  "fresh_transport = \<lparr>t_url = [], t_conn = None, t_providedConn = False, t_js = None, t_initErr = None,
     t_closing = False, t_connectCancel = None, t_connectGate = False\<rparr>"

text \<open>\<open>New\<close> with a URL, possibly with an error left by an option.\<close>

definition New_shared :: "string \<Rightarrow> goerror option \<Rightarrow> shared" where
  "New_shared url initErr = \<lparr>s_t = fresh_transport\<lparr>t_url := url, t_initErr := initErr\<rparr>, s_open = {}, s_next = 0,
     s_cancelled = {}\<rparr>"

text \<open>
  \<open>FromConn\<close> on a connection, which may be nil; \<open>js\<close> tells whether its JetStream context was
  obtained, \<open>opened\<close> whether the connection is open.
\<close>

definition FromConn_shared :: "conn option \<Rightarrow> string \<Rightarrow> bool \<Rightarrow> bool \<Rightarrow> shared" where
  "FromConn_shared nc connectedUrl js opened = \<lparr>
     s_t = (let t = fresh_transport\<lparr>t_providedConn := True\<rparr>
            in case nc of None \<Rightarrow> t
               | Some c \<Rightarrow> t\<lparr>t_conn := Some c, t_url := connectedUrl, t_js := (if js then Some c else None)\<rparr>),
     s_open = (case nc of Some c \<Rightarrow> if opened then {c} else {} | None \<Rightarrow> {}),
     s_next = (case nc of Some c \<Rightarrow> Suc c | None \<Rightarrow> 0), s_cancelled = {}\<rparr>"

text \<open>The positions at which calls start.\<close>

fun entry :: "pc \<Rightarrow> bool" where
  "entry (E (Enter _)) = True" | "entry (C Mark) = True" | "entry (R Reset) = True" | "entry (R MarkEnd) = True"
| "entry (J RunJS) = True"
| "entry _ = False"

inductive reachable :: "shared \<Rightarrow> world \<Rightarrow> bool" for s0 where
  init: "reachable s0 (s0, \<lambda>_. Idle)"
| call: "reachable s0 (s, pcs) \<Longrightarrow> pcs i = Idle \<Longrightarrow> entry p \<Longrightarrow> reachable s0 (s, pcs(i := p))"
| step: "reachable s0 (s, pcs) \<Longrightarrow> pc_step e i (pcs i) s = Some (p, s') \<Longrightarrow> reachable s0 (s', pcs(i := p))"
| lost: "reachable s0 (s, pcs) \<Longrightarrow> reachable s0 (s\<lparr>s_open := s_open s - {c}\<rparr>, pcs)"

text \<open>\<open>Connected\<close>.\<close>

definition Connected_report :: "shared \<Rightarrow> bool" where
  "Connected_report s = (case t_conn (s_t s) of None \<Rightarrow> False | Some c \<Rightarrow> c \<in> s_open s)"

section \<open>What a step changes\<close>

text \<open>Positions at which a thread holds the gate.\<close>

fun holds_gate :: "pc \<Rightarrow> bool" where
  "holds_gate (E Held) = True" | "holds_gate (E Reread) = True" | "holds_gate (E (Recheck _)) = True"
| "holds_gate (E (Unlock _)) = True"
| "holds_gate (D _) = True"
| "holds_gate (C Take) = True" | "holds_gate (C (CloseConn _)) = True" | "holds_gate (C CloseUnlock) = True"
| "holds_gate _ = False"

text \<open>The connection a thread has in hand and must store or close.\<close>

fun in_hand :: "pc \<Rightarrow> conn option" where
  "in_hand (D (Wait c)) = Some c" | "in_hand (D (Select c)) = Some c" | "in_hand (D (OpenJS c)) = Some c"
| "in_hand (D (Install c)) = Some c" | "in_hand (D (CloseDialed c _)) = Some c" | "in_hand (C (CloseConn c)) = Some c"
| "in_hand _ = None"

text \<open>Positions between registering the cancellation of a dial and removing it.\<close>

fun registered :: "pc \<Rightarrow> bool" where
  "registered (D ReadURL) = False" | "registered (D Register) = False" | "registered (D _) = True"
| "registered _ = False"

fun is_check :: "pc \<Rightarrow> bool" where
  "is_check (E (Check _)) = True" | "is_check (E (Recheck _)) = True" | "is_check _ = False"

text \<open>Positions of a \<open>Close\<close> that has not yet taken the connection.\<close>

fun closing_pc :: "pc \<Rightarrow> bool" where
  "closing_pc (C Mark) = True" | "closing_pc (C (CancelDial _)) = True" | "closing_pc (C CloseGate) = True"
| "closing_pc (C Take) = True"
| "closing_pc _ = False"

lemmas step_splits = if_splits option.splits select_case.splits

lemma pc_step_cases:
  assumes "pc_step e i p s = Some (p', s')"
  obtains q where "p = E q" "EnsureConn_step e q s = Some (p', s')"
  | q where "p = D q" "dialConnection_step e i q s = Some (p', s')"
  | q where "p = C q" "Close_step q s = Some (p', s')"
  | q where "p = R q" "Do_step q s = Some (p', s')"
  | q where "p = J q" "ensureJetStream_step e q s = Some (p', s')"
  using assms by (cases p) auto

text \<open>
  Everything the invariants need to know of a step: who may change the gate, the stored connection,
  the open connections, the registered dial and the closing mark.
\<close>

definition effect :: "tid \<Rightarrow> pc \<Rightarrow> shared \<Rightarrow> pc \<Rightarrow> shared \<Rightarrow> bool" where
  "effect i p s p' s' \<longleftrightarrow> (let t = s_t s; t' = s_t s' in
     t_providedConn t' = t_providedConn t \<and>
     (t_connectGate t' = t_connectGate t \<and> holds_gate p' = holds_gate p \<or>
      \<not> t_connectGate t \<and> t_connectGate t' \<and> \<not> holds_gate p \<and> holds_gate p' \<or>
      holds_gate p \<and> \<not> holds_gate p' \<and> \<not> t_connectGate t') \<and>
     (\<not> holds_gate p \<longrightarrow> t_conn t' = t_conn t \<and> s_open s' = s_open s \<and> s_next s' = s_next s \<and>
        t_connectCancel t' = t_connectCancel t) \<and>
     (t_conn t' = t_conn t \<or> in_hand p = t_conn t' \<and> \<not> t_closing t \<and> \<not> t_closing t' \<or> p = C Take \<and> t_conn t' = None) \<and>
     s_open s' \<subseteq> s_open s \<union> set_option (in_hand p') \<and> s_next s \<le> s_next s' \<and> s_cancelled s \<subseteq> s_cancelled s' \<and>
     (t_closing t' \<longrightarrow> t_closing t \<or> p' = C Mark \<or> p' = C (CancelDial (t_connectCancel t))) \<and>
     (p' = E (Check (read_fields t)) \<or> p' = E (Recheck (read_fields t)) \<or> \<not> is_check p') \<and>
     (t_connectCancel t' = t_connectCancel t \<and> registered p' = registered p \<or>
      t_connectCancel t' = Some i \<and> registered p' \<and> \<not> t_closing t' \<or>
      registered p \<and> \<not> registered p') \<and>
     (closing_pc p \<longrightarrow> closing_pc p' \<or> t_conn t' = None) \<and>
     (\<forall>c. in_hand p = Some c \<longrightarrow> in_hand p' = Some c \<or> t_conn t' = Some c \<or> c \<notin> s_open s') \<and>
     (\<forall>c. in_hand p' = Some c \<longrightarrow> in_hand p = Some c \<or> c = s_next s \<and> s_next s' = Suc c \<or> t_conn t = Some c) \<and>
     (\<forall>c. t_conn t = Some c \<longrightarrow> t_conn t' = Some c \<or> in_hand p' = Some c \<or> t_providedConn t \<or> in_hand p \<noteq> None) \<and>
     (t_js t' = t_js t \<and> t_conn t' = t_conn t \<or> t_js t' = t_conn t' \<or> t_js t' = None) \<and>
     (p = C Mark \<longrightarrow> p' = C (CancelDial (t_connectCancel t))) \<and>
     (\<forall>j. p = C (CancelDial (Some j)) \<longrightarrow> j \<in> s_cancelled s'))"

lemma step_effect:
  assumes "pc_step e i p s = Some (p', s')"
  shows "effect i p s p' s'"
  using assms
proof (cases rule: pc_step_cases)
  case (1 q)
  then show ?thesis by (cases q) (auto simp: effect_def Let_def split: step_splits)
next
  case (2 q)
  then show ?thesis by (cases q) (auto simp: effect_def Let_def wait_head_def wait_select_def split: step_splits)
next
  case (3 q)
  then show ?thesis by (cases q) (auto simp: effect_def Let_def wait_head_def wait_select_def split: step_splits)
next
  case (4 q)
  then show ?thesis by (cases q) (auto simp: effect_def Let_def)
next
  case (5 q)
  then show ?thesis by (cases q) (auto simp: effect_def Let_def wait_head_def wait_select_def split: step_splits)
qed

section \<open>Invariants\<close>

text \<open>Positions in which the stored connection is known not to be open.\<close>

fun unconnected :: "pc \<Rightarrow> bool" where
  "unconnected (D (Deregister _)) = False" | "unconnected (D _) = True" | "unconnected (C (CloseConn _)) = True"
| "unconnected _ = False"

text \<open>Positions that a transport with a supplied connection never reaches.\<close>

fun dial_side :: "pc \<Rightarrow> bool" where
  "dial_side (E Gate) = True" | "dial_side (E Held) = True" | "dial_side (E Reread) = True"
| "dial_side (E (Recheck _)) = True" | "dial_side (E (Unlock _)) = True"
| "dial_side (D _) = True" | "dial_side (C (CloseConn _)) = True"
| "dial_side _ = False"

text \<open>A result has a connection unless it has an error.\<close>

fun result_ok :: "pc \<Rightarrow> bool" where
  "result_ok (E (Unlock (c, err))) = (err = None \<longrightarrow> c \<noteq> None)"
| "result_ok (E (Done (c, err))) = (err = None \<longrightarrow> c \<noteq> None)"
| "result_ok (D (Deregister (c, err))) = (err = None \<longrightarrow> c \<noteq> None)"
| "result_ok _ = True"

definition conn_lost :: "shared \<Rightarrow> bool" where
  "conn_lost s \<longleftrightarrow> (\<forall>c. t_conn (s_t s) = Some c \<longrightarrow> c \<notin> s_open s)"

definition local_ok :: "shared \<Rightarrow> tid \<Rightarrow> pc \<Rightarrow> bool" where
  "local_ok s i p \<longleftrightarrow> (let t = s_t s in
     (holds_gate p \<longrightarrow> t_connectGate t) \<and>
     (registered p \<longrightarrow> t_connectCancel t = Some i) \<and>
     (\<forall>c. in_hand p = Some c \<longrightarrow> c < s_next s) \<and>
     (unconnected p \<longrightarrow> conn_lost s) \<and>
     (\<forall>f. p = E (Check f) \<longrightarrow> fr_providedConn f = t_providedConn t) \<and>
     (\<forall>f. p = E (Recheck f) \<longrightarrow> fr_providedConn f = t_providedConn t \<and> fr_conn f = t_conn t) \<and>
     (t_providedConn t \<longrightarrow> \<not> dial_side p) \<and> result_ok p)"

lemma holds_gate_if:
  "registered p \<Longrightarrow> holds_gate p" "in_hand p = Some c \<Longrightarrow> holds_gate p" "unconnected p \<Longrightarrow> holds_gate p"
  "holds_gate (E (Recheck f))"
proof -
  show "registered p \<Longrightarrow> holds_gate p" by (cases p rule: registered.cases) simp_all
  show "in_hand p = Some c \<Longrightarrow> holds_gate p" by (cases p rule: in_hand.cases) simp_all
  show "unconnected p \<Longrightarrow> holds_gate p" by (cases p rule: unconnected.cases) simp_all
qed simp

lemma cachedConnection_provided: "fr_providedConn f \<Longrightarrow> cs_ready (cachedConnection f opened)"
  by (auto simp: cachedConnection_def Let_def split: option.splits)

lemma cachedConnection_lost:
  "\<not> cs_ready (cachedConnection f opened) \<Longrightarrow> fr_conn f = Some c \<Longrightarrow> c \<notin> opened"
  by (auto simp: cachedConnection_def Let_def split: option.splits if_splits)

lemma cachedConnection_result:
  "cs_ready (cachedConnection f opened) \<Longrightarrow> cs_err (cachedConnection f opened) = None \<Longrightarrow>
   cs_conn (cachedConnection f opened) \<noteq> None"
  by (auto simp: cachedConnection_def Let_def split: option.splits if_splits)

lemma local_ok_step:
  assumes "pc_step e i p s = Some (p', s')" and "local_ok s i p" and "\<And>c. t_conn (s_t s) = Some c \<Longrightarrow> c < s_next s"
  shows "local_ok s' i p'"
  using assms(1)
proof (cases rule: pc_step_cases)
  case (1 q)
  then show ?thesis using assms(2,3)
    by (cases q) (auto simp: local_ok_def conn_lost_def Let_def read_fields_def cachedConnection_provided
        dest: cachedConnection_lost cachedConnection_result split: step_splits)
next
  case (2 q)
  then show ?thesis using assms(2,3)
    by (cases q) (auto simp: local_ok_def conn_lost_def Let_def wait_head_def wait_select_def split: step_splits)
next
  case (3 q)
  then show ?thesis using assms(2,3) by (cases q) (auto simp: local_ok_def conn_lost_def Let_def split: step_splits)
next
  case (4 q)
  then show ?thesis using assms(2,3) by (cases q) (auto simp: local_ok_def conn_lost_def Let_def)
next
  case (5 q)
  then show ?thesis using assms(2,3) by (cases q) (auto simp: local_ok_def conn_lost_def Let_def split: step_splits)
qed

lemma local_ok_other:
  assumes "effect j q s q' s'" and "local_ok s i p" and "holds_gate p \<Longrightarrow> \<not> holds_gate q"
  shows "local_ok s' i p"
proof (cases "holds_gate p")
  case True
  then show ?thesis using assms by (auto simp: effect_def local_ok_def conn_lost_def Let_def)
next
  case False
  then have "\<not> registered p" "\<And>c. in_hand p \<noteq> Some c" "\<not> unconnected p" "\<And>f. p \<noteq> E (Recheck f)"
    using holds_gate_if by blast+
  then show ?thesis using assms False by (auto simp: effect_def local_ok_def Let_def)
qed

definition conn_inv :: "world \<Rightarrow> bool" where
  "conn_inv w \<longleftrightarrow> (case w of (s, pcs) \<Rightarrow> let t = s_t s in
     (\<forall>i. local_ok s i (pcs i)) \<and>
     (\<forall>i j. holds_gate (pcs i) \<longrightarrow> holds_gate (pcs j) \<longrightarrow> i = j) \<and>
     (\<forall>c. t_conn t = Some c \<longrightarrow> c < s_next s) \<and>
     (t_js t = None \<or> t_js t = t_conn t) \<and>
     (t_closing t \<longrightarrow> t_conn t = None \<or> (\<exists>j. closing_pc (pcs j))) \<and>
     (t_closing t \<longrightarrow> (\<forall>i. registered (pcs i) \<longrightarrow>
        i \<in> s_cancelled s \<or> (\<exists>j. pcs j = C Mark \<or> pcs j = C (CancelDial (Some i))))) \<and>
     (\<not> t_providedConn t \<longrightarrow> (\<forall>c \<in> s_open s. t_conn t = Some c \<or> (\<exists>i. in_hand (pcs i) = Some c))))"

lemma conn_invD:
  assumes "conn_inv (s, pcs)"
  shows conn_inv_local: "local_ok s i (pcs i)"
    and conn_inv_exclusive: "holds_gate (pcs i) \<Longrightarrow> holds_gate (pcs j) \<Longrightarrow> i = j"
    and conn_inv_fresh: "t_conn (s_t s) = Some c \<Longrightarrow> c < s_next s"
    and conn_inv_js: "t_js (s_t s) = None \<or> t_js (s_t s) = t_conn (s_t s)"
    and conn_inv_taken: "t_closing (s_t s) \<Longrightarrow> t_conn (s_t s) = None \<or> (\<exists>j. closing_pc (pcs j))"
    and conn_inv_cancelled: "t_closing (s_t s) \<Longrightarrow> registered (pcs i) \<Longrightarrow>
      i \<in> s_cancelled s \<or> (\<exists>j. pcs j = C Mark \<or> pcs j = C (CancelDial (Some i)))"
    and conn_inv_owned: "\<not> t_providedConn (s_t s) \<Longrightarrow> c \<in> s_open s \<Longrightarrow>
      t_conn (s_t s) = Some c \<or> (\<exists>i. in_hand (pcs i) = Some c)"
  using assms by (auto simp: conn_inv_def Let_def)

lemma conn_invI:
  assumes "\<And>i. local_ok s i (pcs i)"
    and "\<And>i j. holds_gate (pcs i) \<Longrightarrow> holds_gate (pcs j) \<Longrightarrow> i = j"
    and "\<And>c. t_conn (s_t s) = Some c \<Longrightarrow> c < s_next s"
    and "t_js (s_t s) = None \<or> t_js (s_t s) = t_conn (s_t s)"
    and "t_closing (s_t s) \<Longrightarrow> t_conn (s_t s) = None \<or> (\<exists>j. closing_pc (pcs j))"
    and "\<And>i. t_closing (s_t s) \<Longrightarrow> registered (pcs i) \<Longrightarrow>
      i \<in> s_cancelled s \<or> (\<exists>j. pcs j = C Mark \<or> pcs j = C (CancelDial (Some i)))"
    and "\<And>c. \<not> t_providedConn (s_t s) \<Longrightarrow> c \<in> s_open s \<Longrightarrow>
      t_conn (s_t s) = Some c \<or> (\<exists>i. in_hand (pcs i) = Some c)"
  shows "conn_inv (s, pcs)"
  using assms unfolding conn_inv_def Let_def prod.case by blast

lemma effectD:
  assumes "effect i p s p' s'"
  shows effect_gate: "holds_gate p' \<Longrightarrow> holds_gate p \<or> \<not> t_connectGate (s_t s)"
    and effect_conn: "t_conn (s_t s') = t_conn (s_t s) \<or> in_hand p = t_conn (s_t s') \<and> \<not> t_closing (s_t s) \<and> \<not> t_closing (s_t s') \<or> t_conn (s_t s') = None"
    and effect_provided: "t_providedConn (s_t s') = t_providedConn (s_t s)"
    and effect_open: "s_open s' \<subseteq> s_open s \<union> set_option (in_hand p')"
    and effect_next: "s_next s \<le> s_next s'"
    and effect_cancelled: "s_cancelled s \<subseteq> s_cancelled s'"
    and effect_closing: "t_closing (s_t s') \<Longrightarrow> t_closing (s_t s) \<or> p' = C Mark \<or> p' = C (CancelDial (t_connectCancel (s_t s)))"
    and effect_registered: "registered p' \<Longrightarrow> t_closing (s_t s') \<Longrightarrow> registered p"
    and effect_taken: "closing_pc p \<Longrightarrow> closing_pc p' \<or> t_conn (s_t s') = None"
    and effect_kept: "in_hand p = Some c \<Longrightarrow> in_hand p' = Some c \<or> t_conn (s_t s') = Some c \<or> c \<notin> s_open s'"
    and effect_stored: "t_conn (s_t s) = Some c \<Longrightarrow>
      t_conn (s_t s') = Some c \<or> in_hand p' = Some c \<or> t_providedConn (s_t s) \<or> in_hand p \<noteq> None"
    and effect_js: "t_js (s_t s') = t_js (s_t s) \<and> t_conn (s_t s') = t_conn (s_t s) \<or> t_js (s_t s') = t_conn (s_t s') \<or> t_js (s_t s') = None"
    and effect_mark: "p = C Mark \<Longrightarrow> p' = C (CancelDial (t_connectCancel (s_t s)))"
    and effect_cancel: "p = C (CancelDial (Some j)) \<Longrightarrow> j \<in> s_cancelled s'"
  by (insert assms, unfold effect_def Let_def, elim conjE) (metis | blast)+

lemma local_ok_entry: "entry p \<Longrightarrow> local_ok s i p \<and> \<not> holds_gate p"
  by (cases p rule: entry.cases) (simp_all add: local_ok_def Let_def)

text \<open>Threads that start do not disturb what other threads are known to do.\<close>

lemma idle_upd:
  assumes "pcs i = Idle"
  shows "closing_pc (pcs j) \<Longrightarrow> \<exists>j. closing_pc ((pcs(i := p)) j)"
    and "pcs j = C Mark \<or> pcs j = C (CancelDial (Some k)) \<Longrightarrow>
      \<exists>j. (pcs(i := p)) j = C Mark \<or> (pcs(i := p)) j = C (CancelDial (Some k))"
    and "in_hand (pcs j) = Some c \<Longrightarrow> \<exists>j. in_hand ((pcs(i := p)) j) = Some c"
  using assms by (metis closing_pc.simps(5) fun_upd_other, metis fun_upd_other pc.distinct(5),
      metis fun_upd_other in_hand.simps(7) option.distinct(1))

lemma conn_inv_call:
  assumes inv: "conn_inv (s, pcs)" and idle: "pcs i = Idle" and "entry p"
  shows "conn_inv (s, pcs(i := p))"
proof -
  have p: "local_ok s i p" "\<not> holds_gate p" using local_ok_entry [OF assms(3)] by auto
  then have np: "\<not> registered p" using holds_gate_if by blast
  show ?thesis
  proof (rule conn_invI)
    show "local_ok s j ((pcs(i := p)) j)" for j using p conn_inv_local [OF inv] by simp
    show "holds_gate ((pcs(i := p)) j) \<Longrightarrow> holds_gate ((pcs(i := p)) k) \<Longrightarrow> j = k" for j k
      using p conn_inv_exclusive [OF inv, of j k] by (simp split: if_splits)
    show "t_closing (s_t s) \<Longrightarrow> t_conn (s_t s) = None \<or> (\<exists>j. closing_pc ((pcs(i := p)) j))"
      using conn_inv_taken [OF inv] idle_upd(1) [where pcs = pcs and i = i, OF idle] by blast
    show "j \<in> s_cancelled s \<or> (\<exists>k. (pcs(i := p)) k = C Mark \<or> (pcs(i := p)) k = C (CancelDial (Some j)))"
      if "t_closing (s_t s)" "registered ((pcs(i := p)) j)" for j
      using that np conn_inv_cancelled [OF inv that(1), of j] idle_upd(2) [where pcs = pcs and i = i, OF idle] by (metis fun_upd_apply)
    show "t_conn (s_t s) = Some c \<or> (\<exists>j. in_hand ((pcs(i := p)) j) = Some c)"
      if "\<not> t_providedConn (s_t s)" "c \<in> s_open s" for c
      using conn_inv_owned [OF inv that] idle_upd(3) [where pcs = pcs and i = i, OF idle] by blast
  qed (use conn_inv_fresh [OF inv] conn_inv_js [OF inv] in blast)+
qed

lemma conn_inv_lost: "conn_inv (s, pcs) \<Longrightarrow> conn_inv (s\<lparr>s_open := s_open s - {c}\<rparr>, pcs)"
  unfolding conn_inv_def local_ok_def conn_lost_def Let_def by simp

lemma in_hand_lost: "local_ok s i p \<Longrightarrow> in_hand p \<noteq> None \<Longrightarrow> conn_lost s"
  by (cases p rule: in_hand.cases) (simp_all add: local_ok_def Let_def)

lemma conn_inv_step:
  assumes inv: "conn_inv (s, pcs)" and st: "pc_step e i (pcs i) s = Some (p, s')"
  shows "conn_inv (s', pcs(i := p))"
proof (rule conn_invI)
  let ?pcs = "pcs(i := p)"
  note ef = step_effect [OF st]
  note loc = conn_inv_local [OF inv, of i]
  show "local_ok s' j (?pcs j)" for j
  proof (cases "j = i")
    case True
    then show ?thesis using local_ok_step [OF st loc conn_inv_fresh [OF inv]] by simp
  next
    case False
    then show ?thesis
      using local_ok_other [OF ef conn_inv_local [OF inv, of j]] conn_inv_exclusive [OF inv, of j i] by auto
  qed
  have gate: "holds_gate (pcs j) \<Longrightarrow> t_connectGate (s_t s)" for j
    using conn_inv_local [OF inv, of j] by (simp add: local_ok_def Let_def)
  show "j = k" if "holds_gate (?pcs j)" "holds_gate (?pcs k)" for j k
    using that effect_gate [OF ef] gate conn_inv_exclusive [OF inv] by (metis fun_upd_apply)
  show "c < s_next s'" if "t_conn (s_t s') = Some c" for c
  proof -
    have "t_conn (s_t s) = Some c \<or> in_hand (pcs i) = Some c" using effect_conn [OF ef] that by auto
    then have "c < s_next s" using conn_inv_fresh [OF inv] loc by (auto simp: local_ok_def Let_def)
    then show ?thesis using effect_next [OF ef] by simp
  qed
  show "t_js (s_t s') = None \<or> t_js (s_t s') = t_conn (s_t s')"
    using effect_js [OF ef] conn_inv_js [OF inv] by metis
  show "t_conn (s_t s') = None \<or> (\<exists>j. closing_pc (?pcs j))" if "t_closing (s_t s')"
  proof (cases "closing_pc p")
    case True
    then show ?thesis by (metis fun_upd_same)
  next
    case False
    then have "t_closing (s_t s)" "closing_pc (pcs i) \<Longrightarrow> t_conn (s_t s') = None"
      "t_conn (s_t s') = t_conn (s_t s) \<or> t_conn (s_t s') = None"
      using effect_closing [OF ef that] effect_taken [OF ef] effect_conn [OF ef] that by (metis closing_pc.simps(1,2))+
    then show ?thesis using conn_inv_taken [OF inv] by (metis fun_upd_other)
  qed
  show "j \<in> s_cancelled s' \<or> (\<exists>k. ?pcs k = C Mark \<or> ?pcs k = C (CancelDial (Some j)))"
    if "t_closing (s_t s')" "registered (?pcs j)" for j
  proof -
    have reg: "registered (pcs j)" using effect_registered [OF ef _ that(1)] that(2) by (cases "j = i") auto
    then have cc: "t_connectCancel (s_t s) = Some j" using conn_inv_local [OF inv, of j] by (simp add: local_ok_def Let_def)
    from effect_closing [OF ef that(1)] consider "t_closing (s_t s)" | "p = C Mark \<or> p = C (CancelDial (Some j))"
      by (auto simp: cc)
    then show ?thesis
    proof cases
      case 1
      from conn_inv_cancelled [OF inv 1 reg] show ?thesis
        using effect_cancelled [OF ef] effect_mark [OF ef] effect_cancel [OF ef] cc
        by (metis fun_upd_apply subsetD)
    next
      case 2
      then show ?thesis by (metis fun_upd_same)
    qed
  qed
  show "t_conn (s_t s') = Some c \<or> (\<exists>j. in_hand (?pcs j) = Some c)"
    if "\<not> t_providedConn (s_t s')" "c \<in> s_open s'" for c
  proof -
    have "c \<in> s_open s \<or> in_hand p = Some c" using effect_open [OF ef] that(2) by auto
    moreover have "in_hand p = Some c \<Longrightarrow> ?thesis" by (metis fun_upd_same)
    moreover have "?thesis" if c: "c \<in> s_open s"
      using conn_inv_owned [OF inv _ c] effect_provided [OF ef] \<open>\<not> t_providedConn (s_t s')\<close>
        effect_kept [OF ef, of c] effect_stored [OF ef, of c] in_hand_lost [OF loc] c \<open>c \<in> s_open s'\<close>
      by (metis conn_lost_def fun_upd_apply)
    ultimately show ?thesis by blast
  qed
qed

lemma conn_inv_init: "conn_inv (New_shared url initErr, \<lambda>_. Idle)" "conn_inv (FromConn_shared nc url js opened, \<lambda>_. Idle)"
  by (auto simp: conn_inv_def local_ok_def New_shared_def FromConn_shared_def fresh_transport_def Let_def
      split: option.splits)

theorem reachable_inv: "reachable s0 w \<Longrightarrow> conn_inv (s0, \<lambda>_. Idle) \<Longrightarrow> conn_inv w"
  by (induction rule: reachable.induct) (blast intro: conn_inv_call conn_inv_step conn_inv_lost)+

lemma one_open:
  assumes inv: "conn_inv (s, pcs)" and "\<not> t_providedConn (s_t s)" "c \<in> s_open s" "c' \<in> s_open s"
  shows "c = c'"
proof -
  have lost: "in_hand (pcs i) = Some d \<Longrightarrow> t_conn (s_t s) \<noteq> Some d'" if "d' \<in> s_open s" for i d d'
    using in_hand_lost [OF conn_inv_local [OF inv, of i]] that by (auto simp: conn_lost_def)
  have same: "in_hand (pcs i) = Some d \<Longrightarrow> in_hand (pcs j) = Some d' \<Longrightarrow> d = d'" for i j d d'
    using conn_inv_exclusive [OF inv, of i j] holds_gate_if(2) by (metis option.inject)
  show ?thesis
    using conn_inv_owned [OF inv assms(2,3)] conn_inv_owned [OF inv assms(2,4)] lost same assms(3,4)
    by (metis option.inject)
qed

text \<open>The supplied connection is the only one a transport made by \<open>FromConn\<close> ever stores.\<close>

lemma provided_stays: "reachable s0 w \<Longrightarrow> t_providedConn (s_t (fst w)) = t_providedConn (s_t s0)"
  by (induction rule: reachable.induct) (auto dest!: step_effect dest: effect_provided)

lemma provided_conn:
  assumes "reachable (FromConn_shared nc url js opened) w"
  shows "t_conn (s_t (fst w)) = None \<or> t_conn (s_t (fst w)) = nc"
  using assms
proof (induction rule: reachable.induct)
  case init
  then show ?case by (simp add: FromConn_shared_def fresh_transport_def Let_def split: option.split)
next
  case (step s pcs e i p s')
  have "t_providedConn (s_t s)" using provided_stays [OF step(1)]
    by (simp add: FromConn_shared_def Let_def split: option.splits)
  then have "\<not> dial_side (pcs i)"
    using conn_inv_local [OF reachable_inv [OF step(1) conn_inv_init(2)], of i] by (simp add: local_ok_def Let_def)
  then have "in_hand (pcs i) = None" by (cases "pcs i" rule: in_hand.cases) simp_all
  then show ?case using effect_conn [OF step_effect [OF step(2)]] step(3) by auto
qed simp_all

lemma provided_step:
  assumes "\<not> dial_side p" and "pc_step e i p s = Some (p', s')"
  shows "s_open s' = s_open s \<and> s_next s' = s_next s"
proof (cases "holds_gate p")
  case True
  then have "p = C Take \<or> p = C CloseUnlock" using assms(1) by (cases p rule: holds_gate.cases) simp_all
  then show ?thesis using assms(2) by auto
next
  case False
  then show ?thesis using step_effect [OF assms(2)] by (simp add: effect_def Let_def)
qed

section \<open>Schedules\<close>

text \<open>Runs given by their schedule, to exhibit reachable states.\<close>

datatype action = Start tid pc | Step tid env | Lose conn

fun act :: "action \<Rightarrow> world \<Rightarrow> world option" where
  "act (Start i p) (s, pcs) = (if pcs i = Idle \<and> entry p then Some (s, pcs(i := p)) else None)"
| "act (Step i e) (s, pcs) = (case pc_step e i (pcs i) s of None \<Rightarrow> None | Some (p, s') \<Rightarrow> Some (s', pcs(i := p)))"
| "act (Lose c) (s, pcs) = Some (s\<lparr>s_open := s_open s - {c}\<rparr>, pcs)"

primrec run_schedule :: "action list \<Rightarrow> world \<Rightarrow> world option" where
  "run_schedule [] w = Some w"
| "run_schedule (a # as) w = (case act a w of None \<Rightarrow> None | Some w' \<Rightarrow> run_schedule as w')"

lemma act_reachable: "reachable s0 w \<Longrightarrow> act a w = Some w' \<Longrightarrow> reachable s0 w'"
  by (cases "(a, w)" rule: act.cases) (auto intro: reachable.intros split: if_splits option.splits)

lemma run_schedule_reachable: "run_schedule as w = Some w' \<Longrightarrow> reachable s0 w \<Longrightarrow> reachable s0 w'"
  by (induction as arbitrary: w) (auto split: option.splits intro: act_reachable)

section \<open>Properties\<close>

text \<open>
  C9: A transport that dials has at most one open connection at any time, however its callers
  interleave, and never loses track of one: the open connection is the stored one or in the hands
  of the one thread that holds the gate and will store or close it.  The JetStream context is always
  that of the stored connection, and \<open>EnsureConn\<close> never returns a nil connection without an error.
\<close>

theorem single_connection:
  assumes "reachable (New_shared url initErr) (s, pcs)"
  shows "(\<forall>c \<in> s_open s. \<forall>c' \<in> s_open s. c = c') \<and>
    (\<forall>c \<in> s_open s. t_conn (s_t s) = Some c \<or> (\<exists>i. holds_gate (pcs i) \<and> in_hand (pcs i) = Some c)) \<and>
    (\<forall>i j. holds_gate (pcs i) \<and> holds_gate (pcs j) \<longrightarrow> i = j) \<and>
    (t_js (s_t s) = None \<or> t_js (s_t s) = t_conn (s_t s)) \<and>
    (\<forall>i nc. pcs i = E (Done (nc, None)) \<longrightarrow> nc \<noteq> None)"
proof -
  note inv = reachable_inv [OF assms conn_inv_init(1)]
  have np: "\<not> t_providedConn (s_t s)"
    using provided_stays [OF assms] by (simp add: New_shared_def fresh_transport_def)
  have "pcs i = E (Done (nc, None)) \<Longrightarrow> nc \<noteq> None" for i nc
    using conn_inv_local [OF inv, of i] by (simp add: local_ok_def Let_def)
  then show ?thesis
    using one_open [OF inv np] conn_inv_owned [OF inv np] conn_inv_exclusive [OF inv] conn_inv_js [OF inv] holds_gate_if(2)
    by blast
qed

definition smooth :: env where
  "smooth = \<lparr>e_ctxErr = None, e_err = None, e_flag = True, e_parentDone = False, e_select = GateFree\<rparr>"

text \<open>A dial up to the moment at which the connection exists but is not yet established.\<close>

definition dial_schedule :: "action list" where
  "dial_schedule = Start 0 (E (Enter False)) # replicate 10 (Step 0 smooth)"

lemma dial_run:
  "\<exists>s pcs. run_schedule dial_schedule (New_shared ''nats://h'' None, \<lambda>_. Idle) = Some (s, pcs) \<and> pcs 0 = D (Wait 0) \<and> s_open s = {0}"
  by (simp add: dial_schedule_def smooth_def numeral_eq_Suc New_shared_def fresh_transport_def cachedConnection_def read_fields_def)

theorem single_connection_witness:
  "\<exists>s pcs. reachable (New_shared ''nats://h'' None) (s, pcs) \<and> pcs 0 = D (Wait 0) \<and> s_open s = {0} \<and>
    (\<exists>i. holds_gate (pcs i) \<and> in_hand (pcs i) = Some 0) \<and> (\<forall>j. holds_gate (pcs j) \<longrightarrow> j = 0)"
proof -
  obtain s pcs where r: "run_schedule dial_schedule (New_shared ''nats://h'' None, \<lambda>_. Idle) = Some (s, pcs)"
    and f: "pcs 0 = D (Wait 0)" "s_open s = {0}" using dial_run by blast
  have "reachable (New_shared ''nats://h'' None) (s, pcs)" by (rule run_schedule_reachable [OF r]) (rule reachable.init)
  moreover from single_connection [OF this] f(1) have "\<forall>j. holds_gate (pcs j) \<longrightarrow> j = 0"
    by (metis holds_gate.simps(5))
  moreover have "holds_gate (pcs 0) \<and> in_hand (pcs 0) = Some 0" using f by simp
  ultimately show ?thesis using f by blast
qed

text \<open>While a transport is closing, no step stores a connection, and a dialled one stays in hand until it is closed.\<close>

lemma closing_step_conn:
  assumes "t_closing (s_t s)" "pc_step e i p s = Some (p', s')"
  shows "t_conn (s_t s') = t_conn (s_t s) \<or> t_conn (s_t s') = None"
  using effect_conn [OF step_effect [OF assms(2)]] assms(1) by auto

lemma closing_step_in_hand:
  assumes "t_closing (s_t s)" "in_hand (D q) = Some c" "pc_step e i (D q) s = Some (p, s')"
  shows "(\<exists>q'. p = D q' \<and> in_hand p = Some c \<and> s' = s) \<or>
    (\<exists>err. p = D (Deregister (None, Some err)) \<and> c \<notin> s_open s')"
proof (cases q)
  case (Wait nc)
  with assms show ?thesis by (auto simp: wait_head_def split: option.split)
next
  case (Select nc)
  with assms show ?thesis by (auto simp: wait_select_def split: step_splits)
next
  case (OpenJS nc)
  with assms show ?thesis by (auto split: option.splits)
qed (use assms in auto)

text \<open>
  C11: Closing is final until \<open>Do\<close> opens the transport again, and does not wait for the network.
  While a transport is closing and every \<open>Close\<close> under way has called the cancellation it found, every
  dial in progress is cancelled.  A thread with a dialled connection in hand, wherever it is in
  \<open>dialConnection\<close>, keeps it in hand or closes it and returns an error: waiting for the connection it can
  always go on, and only to close it, and arriving at the point where the connection would be stored
  it closes it instead.  No step of any thread stores a connection.  Once \<open>Close\<close> has taken the
  connection nothing is stored, and that stays so with every step.
\<close>

theorem closed_transport:
  assumes "reachable s0 (s, pcs)" and "s0 = New_shared url initErr \<or> s0 = FromConn_shared nc url js opened"
    and "t_closing (s_t s)" and "\<forall>j k. pcs j \<noteq> C Mark \<and> pcs j \<noteq> C (CancelDial k)"
  shows "(\<forall>i. registered (pcs i) \<longrightarrow> i \<in> s_cancelled s) \<and>
    (\<forall>i c. pcs i = D (Wait c) \<longrightarrow> (\<forall>e. \<exists>err. pc_step e i (pcs i) s = Some (D (CloseDialed c err), s))) \<and>
    (\<forall>i c. pcs i = D (Select c) \<longrightarrow> (\<exists>e err. pc_step e i (pcs i) s = Some (D (CloseDialed c err), s))) \<and>
    (\<forall>i c. pcs i = D (Install c) \<longrightarrow> (\<forall>e. \<exists>err. pc_step e i (pcs i) s = Some (D (CloseDialed c err), s))) \<and>
    (\<forall>e i q c p s'. pcs i = D q \<and> in_hand (pcs i) = Some c \<and> pc_step e i (pcs i) s = Some (p, s') \<longrightarrow>
       (\<exists>q'. p = D q' \<and> in_hand p = Some c \<and> s' = s) \<or>
       (\<exists>err. p = D (Deregister (None, Some err)) \<and> c \<notin> s_open s')) \<and>
    (\<forall>e i p s'. pc_step e i (pcs i) s = Some (p, s') \<longrightarrow> t_conn (s_t s') \<in> {t_conn (s_t s), None}) \<and>
    ((\<forall>j. \<not> closing_pc (pcs j)) \<longrightarrow> t_conn (s_t s) = None \<and> t_js (s_t s) = None \<and>
       (\<forall>e i p s'. pc_step e i (pcs i) s = Some (p, s') \<longrightarrow> t_conn (s_t s') = None))"
proof -
  have inv: "conn_inv (s, pcs)" using assms(1,2) reachable_inv conn_inv_init by metis
  have canc: "registered (pcs i) \<Longrightarrow> i \<in> s_cancelled s" for i
    using conn_inv_cancelled [OF inv assms(3), of i] assms(4) by metis
  have "\<exists>err. pc_step e i (pcs i) s = Some (D (CloseDialed c err), s)" if "pcs i = D (Wait c)" for e i c
    using that canc [of i] by (auto simp: wait_head_def split: option.split)
  moreover have "\<exists>e err. pc_step e i (pcs i) s = Some (D (CloseDialed c err), s)" if "pcs i = D (Select c)" for i c
    using that canc [of i] by (intro exI [of _ "smooth\<lparr>e_select := ConnectCtxDone\<rparr>"]) (simp add: wait_select_def)
  moreover have "\<exists>err. pc_step e i (pcs i) s = Some (D (CloseDialed c err), s)" if "pcs i = D (Install c)" for e i c
    using that assms(3) by simp
  moreover note closing_step_conn [OF assms(3)] closing_step_in_hand [OF assms(3)]
  moreover have "t_conn (s_t s) = None \<and> t_js (s_t s) = None" if "\<forall>j. \<not> closing_pc (pcs j)"
    using that conn_inv_taken [OF inv assms(3)] conn_inv_js [OF inv] by auto
  ultimately show ?thesis using canc by (intro conjI allI impI) (metis insertCI | metis)+
qed

definition close_schedule :: "action list" where
  "close_schedule = dial_schedule @ [Start 1 (C Mark), Step 1 smooth, Step 1 smooth]"

theorem closed_transport_witness:
  "\<exists>s pcs. reachable (New_shared ''nats://h'' None) (s, pcs) \<and> pcs 0 = D (Wait 0) \<and> pcs 1 = C CloseGate \<and>
    0 \<in> s_cancelled s \<and> (\<exists>err. pc_step smooth 0 (D (Wait 0)) s = Some (D (CloseDialed 0 err), s))"
proof -
  have "\<exists>s pcs. run_schedule close_schedule (New_shared ''nats://h'' None, \<lambda>_. Idle) = Some (s, pcs) \<and> pcs 0 = D (Wait 0) \<and>
      pcs 1 = C CloseGate \<and> t_closing (s_t s) \<and> (\<forall>j k. pcs j \<noteq> C Mark \<and> pcs j \<noteq> C (CancelDial k))"
    by (simp add: close_schedule_def dial_schedule_def smooth_def numeral_eq_Suc New_shared_def fresh_transport_def
        cachedConnection_def read_fields_def)
  then obtain s pcs where r: "run_schedule close_schedule (New_shared ''nats://h'' None, \<lambda>_. Idle) = Some (s, pcs)"
    and f: "pcs 0 = D (Wait 0)" "pcs 1 = C CloseGate" "t_closing (s_t s)"
      "\<forall>j k. pcs j \<noteq> C Mark \<and> pcs j \<noteq> C (CancelDial k)" by blast
  have w: "reachable (New_shared ''nats://h'' None) (s, pcs)" by (rule run_schedule_reachable [OF r]) (rule reachable.init)
  have "registered (pcs 0)" using f(1) by simp
  then show ?thesis using closed_transport [OF w disjI1 f(3,4)] w f(1,2) by metis
qed

text \<open>
  C30: A supplied connection is never replaced and never closed.  A transport made by \<open>FromConn\<close>
  stores no other connection, and no step of any thread dials one or closes any.
\<close>

theorem provided_connection:
  assumes "reachable (FromConn_shared nc url js opened) (s, pcs)" and "pc_step e i (pcs i) s = Some (p, s')"
  shows "s_open s' = s_open s \<and> s_next s' = s_next s \<and> (t_conn (s_t s) = None \<or> t_conn (s_t s) = nc)"
proof -
  have "t_providedConn (s_t s)" using provided_stays [OF assms(1)]
    by (simp add: FromConn_shared_def Let_def split: option.splits)
  then have "\<not> dial_side (pcs i)"
    using conn_inv_local [OF reachable_inv [OF assms(1) conn_inv_init(2)], of i] by (simp add: local_ok_def Let_def)
  then show ?thesis using provided_step [OF _ assms(2)] provided_conn [OF assms(1)] by simp
qed

theorem provided_connection_witness:
  "\<exists>s pcs p s'. reachable (FromConn_shared (Some 7) ''nats://h'' True True) (s, pcs) \<and> pcs 0 = C Take \<and>
    pc_step smooth 0 (pcs 0) s = Some (p, s') \<and> t_conn (s_t s) = Some 7 \<and> s_open s' = s_open s"
proof -
  let ?as = "[Start 0 (C Mark), Step 0 smooth, Step 0 smooth, Step 0 smooth]"
  have "\<exists>s pcs p s'. run_schedule ?as (FromConn_shared (Some 7) ''nats://h'' True True, \<lambda>_. Idle) = Some (s, pcs) \<and>
      pcs 0 = C Take \<and> t_conn (s_t s) = Some 7 \<and> pc_step smooth 0 (pcs 0) s = Some (p, s')"
    by (simp add: FromConn_shared_def fresh_transport_def Let_def)
  then obtain s pcs p s' where r: "run_schedule ?as (FromConn_shared (Some 7) ''nats://h'' True True, \<lambda>_. Idle) = Some (s, pcs)"
    and f: "pcs 0 = C Take" "t_conn (s_t s) = Some 7" "pc_step smooth 0 (pcs 0) s = Some (p, s')" by blast
  have w: "reachable (FromConn_shared (Some 7) ''nats://h'' True True) (s, pcs)"
    by (rule run_schedule_reachable [OF r]) (rule reachable.init)
  show ?thesis using provided_connection [OF w f(3)] w f by blast
qed

end
