(* ===== verification/KV_Client.thy ===== *)
theory KV_Client
  imports Effects
begin

text \<open>
  The key-value operations of the transport: \<open>src/tnats/kv_operations.go\<close>.
\<close>

section \<open>Error messages\<close>

text \<open>
  The verb \<open>%q\<close>: a string in double quotes with Go's escapes.  Bytes above 127 are kept, as in
  printable text.
\<close>

definition hex_nibble :: "nat \<Rightarrow> char" where
  "hex_nibble n = ''0123456789abcdef'' ! n"

definition quote_byte :: "char \<Rightarrow> string" where
  "quote_byte c = (let n = of_char c :: nat in
     if n = 34 \<or> n = 92 then [CHR 0x5c, c]
     else if n = 7 then [CHR 0x5c, CHR ''a''] else if n = 8 then [CHR 0x5c, CHR ''b'']
     else if n = 12 then [CHR 0x5c, CHR ''f''] else if n = 10 then [CHR 0x5c, CHR ''n'']
     else if n = 13 then [CHR 0x5c, CHR ''r''] else if n = 9 then [CHR 0x5c, CHR ''t'']
     else if n = 11 then [CHR 0x5c, CHR ''v'']
     else if n < 32 \<or> n = 127 then [CHR 0x5c, CHR ''x'', hex_nibble (n div 16), hex_nibble (n mod 16)]
     else [c])"

definition quoted :: "string \<Rightarrow> string" where
  "quoted s = [CHR 0x22] @ concat (map quote_byte s) @ [CHR 0x22]"

text \<open>\<open>mapKVErr\<close> is \<open>mapKVError\<close> on an error that is not nil.\<close>

definition mapKVErr :: "goerror \<Rightarrow> string \<Rightarrow> string \<Rightarrow> goerror" where
  "mapKVErr err bucket key =
    (if errors_Is err (JsErr ''ErrBucketNotFound'')
     then app KindNotFound (''nats kv: bucket '' @ quoted bucket @ '' not found'') [err]
     else if errors_Is err (JsErr ''ErrKeyNotFound'')
     then app KindNotFound (''nats kv: key '' @ quoted key @ '' not found in bucket '' @ quoted bucket) [err]
     else if errors_Is err (JsErr ''ErrKeyExists'')
     then app KindConflict (''nats kv: key '' @ quoted key @ '' already exists in bucket '' @ quoted bucket) [err]
     else if errors_Is err (JsErr ''ErrKeyRevisionMismatch'')
     then app KindConflict (''nats kv: revision conflict for key '' @ quoted key @ '' in bucket '' @ quoted bucket) [err]
     else if errors_Is err (JsErr ''ErrInvalidKey'') \<or> errors_Is err (JsErr ''ErrInvalidBucketName'')
     then app KindBadRequest ''nats kv: invalid bucket or key'' [err]
     else MapErr err)"

definition mapKVError :: "goerror option \<Rightarrow> string \<Rightarrow> string \<Rightarrow> goerror option" where
  "mapKVError err bucket key = map_option (\<lambda>e. mapKVErr e bucket key) err"

section \<open>Operations\<close>

abbreviation bad_request :: "string \<Rightarrow> goerror" where
  "bad_request m \<equiv> app KindBadRequest m []"

abbreviation kv_key_required :: goerror where
  "kv_key_required \<equiv> bad_request ''nats kv: key is required''"

text \<open>\<open>keyValue\<close> opens the bucket; its result matters only through its error.\<close>

definition keyValue :: "ctx \<Rightarrow> string \<Rightarrow> goerror option io" where
  "keyValue ctx bucket =
    (if bucket = [] then Ret (Some (bad_request ''nats kv: bucket is required''))
     else ensure_Conn ctx (\<lambda>err. case err of
         Some e \<Rightarrow> Ret (Some e)
       | None \<Rightarrow> jetstream_New (\<lambda>err. case err of
           Some e \<Rightarrow> Ret (Some (MapErr e))
         | None \<Rightarrow> js_KeyValue_ctx ctx bucket (\<lambda>err. case err of
             Some e \<Rightarrow> Ret (Some (mapKVErr e bucket []))
           | None \<Rightarrow> Ret None))))"

definition kvEntry :: "KVEntry \<Rightarrow> KVEntry" where
  "kvEntry entry = \<lparr>ke_Bucket = ke_Bucket entry, ke_Key = ke_Key entry, ke_Value = [] @ ke_Value entry,
     ke_Revision = ke_Revision entry, ke_Created = ke_Created entry\<rparr>"

definition GetKV :: "ctx \<Rightarrow> string \<Rightarrow> string \<Rightarrow> (goerror + KVEntry) io" where
  "GetKV ctx bucket key =
    (if key = [] then Ret (Inl kv_key_required)
     else bind (keyValue ctx bucket) (\<lambda>err. case err of
         Some e \<Rightarrow> Ret (Inl e)
       | None \<Rightarrow> kv_op_Get ctx bucket key (\<lambda>entry. case entry of
           Inl e \<Rightarrow> Ret (Inl (mapKVErr e bucket key))
         | Inr entry \<Rightarrow> Ret (Inr (kvEntry entry)))))"

definition PutKV :: "ctx \<Rightarrow> string \<Rightarrow> string \<Rightarrow> bytes \<Rightarrow> (goerror + u64) io" where
  "PutKV ctx bucket key value =
    (if key = [] then Ret (Inl kv_key_required)
     else bind (keyValue ctx bucket) (\<lambda>err. case err of
         Some e \<Rightarrow> Ret (Inl e)
       | None \<Rightarrow> kv_op_write ctx bucket key (OpPut value) (\<lambda>r. case r of
           Inl e \<Rightarrow> Ret (Inl (mapKVErr e bucket key))
         | Inr revision \<Rightarrow> Ret (Inr revision))))"

definition CreateKV :: "ctx \<Rightarrow> string \<Rightarrow> string \<Rightarrow> bytes \<Rightarrow> duration \<Rightarrow> (goerror + u64) io" where
  "CreateKV ctx bucket key value ttl =
    (if key = [] then Ret (Inl kv_key_required)
     else if ttl < 0 then Ret (Inl (bad_request ''nats kv: ttl must not be negative''))
     else bind (keyValue ctx bucket) (\<lambda>err. case err of
         Some e \<Rightarrow> Ret (Inl e)
       | None \<Rightarrow> kv_op_write ctx bucket key (OpCreate value (if ttl > 0 then Some ttl else None)) (\<lambda>r. case r of
           Inl e \<Rightarrow> Ret (Inl (mapKVErr e bucket key))
         | Inr revision \<Rightarrow> Ret (Inr revision))))"

abbreviation revision_required :: goerror where
  "revision_required \<equiv> bad_request ''nats kv: expected revision must be greater than zero''"

definition UpdateKV :: "ctx \<Rightarrow> string \<Rightarrow> string \<Rightarrow> bytes \<Rightarrow> u64 \<Rightarrow> (goerror + u64) io" where
  "UpdateKV ctx bucket key value expectedRevision =
    (if key = [] then Ret (Inl kv_key_required)
     else if expectedRevision = 0 then Ret (Inl revision_required)
     else bind (keyValue ctx bucket) (\<lambda>err. case err of
         Some e \<Rightarrow> Ret (Inl e)
       | None \<Rightarrow> kv_op_write ctx bucket key (OpUpdate value expectedRevision) (\<lambda>r. case r of
           Inl e \<Rightarrow> Ret (Inl (mapKVErr e bucket key))
         | Inr revision \<Rightarrow> Ret (Inr revision))))"

definition DeleteKV :: "ctx \<Rightarrow> string \<Rightarrow> string \<Rightarrow> u64 option \<Rightarrow> goerror option io" where
  "DeleteKV ctx bucket key expectedRevision =
    (if key = [] then Ret (Some kv_key_required)
     else bind (keyValue ctx bucket) (\<lambda>err. case err of
         Some e \<Rightarrow> Ret (Some e)
       | None \<Rightarrow>
           if expectedRevision = Some 0 then Ret (Some revision_required)
           else kv_op_Delete ctx bucket key expectedRevision (\<lambda>err. case err of
             Some e \<Rightarrow> Ret (Some (mapKVErr e bucket key))
           | None \<Rightarrow> Ret None)))"

section \<open>What the server is asked, and what the caller is told\<close>

fun is_kv_op :: "request \<Rightarrow> bool" where
  "is_kv_op (Store (KvOp c b key w)) = True" | "is_kv_op _ = False"

lemma keyValue_quiet: "only_calls (\<lambda>q. \<not> is_kv_op q) (keyValue ctx bucket)"
  by (auto simp: keyValue_def split: option.split)

lemma keyValue_bucket: "replay (keyValue ctx bucket) tr = Some None \<Longrightarrow> bucket \<noteq> []"
  by (auto simp: keyValue_def trace_simps)

text \<open>
  The outcome of an operation that stands for the call \<open>q\<close>: either nothing was asked of the bucket
  and an error is reported, or \<open>q\<close> was the only and last thing asked, and what the caller is told is
  the server's answer, with its error classified.
\<close>

definition kv_outcome :: "string \<Rightarrow> string \<Rightarrow> request \<Rightarrow> (answer \<Rightarrow> goerror + 'a) \<Rightarrow> event list \<Rightarrow> goerror + 'a \<Rightarrow> bool" where
  "kv_outcome bucket key q read tr r \<longleftrightarrow>
     requests is_kv_op tr = [] \<and> isl r \<or>
     (\<exists>pre a. tr = pre @ [(q, a)] \<and> requests is_kv_op pre = [] \<and>
        r = (case read a of Inl e \<Rightarrow> Inl (mapKVErr e bucket key) | Inr x \<Rightarrow> Inr x))"

lemma kv_outcomeD:
  assumes "kv_outcome bucket key q read tr r" and "is_kv_op q"
  shows kv_outcome_success: "r = Inr x \<longleftrightarrow> (\<exists>pre a. tr = pre @ [(q, a)] \<and> read a = Inr x)"
    and kv_outcome_failure: "tr = pre @ [(q, a)] \<Longrightarrow> read a = Inl e \<Longrightarrow> r = Inl (mapKVErr e bucket key)"
proof -
  show "r = Inr x \<longleftrightarrow> (\<exists>pre a. tr = pre @ [(q, a)] \<and> read a = Inr x)"
  proof (cases "requests is_kv_op tr = []")
    case True
    then have "isl r" "\<And>pre a. tr \<noteq> pre @ [(q, a)]" using assms by (auto simp: kv_outcome_def)
    then show ?thesis by (auto simp: isl_def)
  next
    case False
    then obtain pre a where "tr = pre @ [(q, a)]" "r = (case read a of Inl e \<Rightarrow> Inl (mapKVErr e bucket key) | Inr x \<Rightarrow> Inr x)"
      using assms(1) by (auto simp: kv_outcome_def)
    then show ?thesis by (cases "read a") auto
  qed
  show "r = Inl (mapKVErr e bucket key)" if "tr = pre @ [(q, a)]" "read a = Inl e"
    using assms that unfolding kv_outcome_def by auto
qed

lemmas opened_quietly = only_calls_requests [OF keyValue_quiet]

lemma GetKV_outcome:
  "replay (GetKV ctx bucket key) tr = Some r \<Longrightarrow>
   kv_outcome bucket key (Store (KvOp ctx bucket key OpGet)) (\<lambda>a. map_sum id kvEntry (a_entry a)) tr r"
  by (auto simp: GetKV_def trace_simps split: if_splits) (auto simp: kv_outcome_def dest: opened_quietly)

lemma PutKV_outcome:
  "replay (PutKV ctx bucket key value) tr = Some r \<Longrightarrow>
   kv_outcome bucket key (Store (KvOp ctx bucket key (OpPut value))) a_rev tr r"
  by (auto simp: PutKV_def trace_simps split: if_splits) (auto simp: kv_outcome_def dest: opened_quietly)

lemma CreateKV_outcome:
  "replay (CreateKV ctx bucket key value ttl) tr = Some r \<Longrightarrow>
   kv_outcome bucket key (Store (KvOp ctx bucket key (OpCreate value (if ttl > 0 then Some ttl else None)))) a_rev tr r"
  by (auto simp: CreateKV_def trace_simps split: if_splits) (auto simp: kv_outcome_def dest: opened_quietly)

lemma UpdateKV_outcome:
  "replay (UpdateKV ctx bucket key value rv) tr = Some r \<Longrightarrow>
   kv_outcome bucket key (Store (KvOp ctx bucket key (OpUpdate value rv))) a_rev tr r"
  by (auto simp: UpdateKV_def trace_simps split: if_splits) (auto simp: kv_outcome_def dest: opened_quietly)

definition of_err :: "goerror option \<Rightarrow> goerror + unit" where
  "of_err err = (case err of Some e \<Rightarrow> Inl e | None \<Rightarrow> Inr ())"

lemma of_err_simps [simp]: "of_err (Some e) = Inl e" "of_err None = Inr ()"
  by (simp_all add: of_err_def)

lemma DeleteKV_outcome:
  "replay (DeleteKV ctx bucket key rv) tr = Some r \<Longrightarrow>
   kv_outcome bucket key (Store (KvOp ctx bucket key (OpDelete rv))) (\<lambda>a. of_err (a_err a)) tr (of_err r)"
  by (auto simp: DeleteKV_def trace_simps split: if_splits) (auto simp: kv_outcome_def dest: opened_quietly)

text \<open>
  The classification keeps the cause: \<open>errors.Is\<close> still finds every sentinel of an error that was
  not an application error before.
\<close>

lemma mapKVErr_cause:
  assumes "errors_As as_AppError e = None"
  shows "errors_Is (mapKVErr e bucket key) s \<longleftrightarrow> errors_Is e s"
  using MapErr_wrapped [OF assms] by (auto simp: mapKVErr_def)

lemma mapKVErr_conflict:
  assumes "errors_Is e (JsErr ''ErrKeyRevisionMismatch'') \<or> errors_Is e (JsErr ''ErrKeyExists'')"
    and "\<not> errors_Is e (JsErr ''ErrBucketNotFound'')" "\<not> errors_Is e (JsErr ''ErrKeyNotFound'')"
  shows "error_kind (mapKVErr e bucket key) = KindConflict"
  using assms by (auto simp: mapKVErr_def error_kind_def)

text \<open>
  C27: \<open>UpdateKV\<close> is a compare-and-set.  Without key, bucket or a positive expected revision the
  server's bucket is not touched.  Otherwise it asks at most once, last, for exactly the given value
  at the given revision; it succeeds exactly when that was accepted, with the revision the server
  assigned, and a revision mismatch is reported as a conflict that still carries the cause.
\<close>

theorem UpdateKV_compare_and_set:
  assumes "replay (UpdateKV ctx bucket key value rv) tr = Some r"
  shows "(key = [] \<or> bucket = [] \<or> rv = 0 \<longrightarrow> tr = [] \<and> isl r) \<and>
    kv_outcome bucket key (Store (KvOp ctx bucket key (OpUpdate value rv))) a_rev tr r \<and>
    (\<forall>rev. r = Inr rev \<longleftrightarrow> (\<exists>pre a. tr = pre @ [(Store (KvOp ctx bucket key (OpUpdate value rv)), a)] \<and> a_rev a = Inr rev)) \<and>
    (\<forall>pre a. tr = pre @ [(Store (KvOp ctx bucket key (OpUpdate value rv)), a)] \<and>
       a_rev a = Inl (sentinel_error (JsErr ''ErrKeyRevisionMismatch'')) \<longrightarrow>
       (\<exists>e. r = Inl e \<and> error_kind e = KindConflict \<and> errors_Is e (JsErr ''ErrKeyRevisionMismatch'')))"
proof -
  have "key = [] \<or> bucket = [] \<or> rv = 0 \<longrightarrow> tr = [] \<and> isl r"
    using assms by (auto simp: UpdateKV_def keyValue_def trace_simps)
  moreover note out = UpdateKV_outcome [OF assms]
  moreover have "error_kind (mapKVErr (sentinel_error (JsErr ''ErrKeyRevisionMismatch'')) bucket key) = KindConflict"
    "errors_Is (mapKVErr (sentinel_error (JsErr ''ErrKeyRevisionMismatch'')) bucket key) (JsErr ''ErrKeyRevisionMismatch'')"
    by (simp_all add: mapKVErr_def error_kind_def sentinel_error_def)
  ultimately show ?thesis using kv_outcome_success [OF out] kv_outcome_failure [OF out] by auto
qed

definition updateTrace :: "event list" where
  "updateTrace = [(Conn (EnsureConnection Background), answer0), (Conn JetStreamNew, answer0), (Store (JsKeyValueCtx Background ''b''), answer0),
     (Store (KvOp Background ''b'' ''k'' (OpUpdate ''v'' 3)), answer0\<lparr>a_rev := Inl (sentinel_error (JsErr ''ErrKeyRevisionMismatch''))\<rparr>)]"

theorem UpdateKV_compare_and_set_witness:
  "\<exists>e. replay (UpdateKV Background ''b'' ''k'' ''v'' 3) updateTrace = Some (Inl e) \<and> error_kind e = KindConflict"
proof -
  have "\<exists>e. replay (UpdateKV Background ''b'' ''k'' ''v'' 3) updateTrace = Some (Inl e)"
    by (simp add: UpdateKV_def keyValue_def updateTrace_def replay.simps)
  then obtain e where e: "replay (UpdateKV Background ''b'' ''k'' ''v'' 3) updateTrace = Some (Inl e)" by blast
  have "\<exists>pre a. updateTrace = pre @ [(Store (KvOp Background ''b'' ''k'' (OpUpdate ''v'' 3)), a)] \<and>
      a_rev a = Inl (sentinel_error (JsErr ''ErrKeyRevisionMismatch''))"
    by (simp add: updateTrace_def)
  then show ?thesis using UpdateKV_compare_and_set [OF e] e by blast
qed

end
