(* ===== verification/Watchers.thy ===== *)
theory Watchers
  imports Bindings
begin

text \<open>
  Watching a bucket: \<open>src/tnats/tnats_kv.go\<close>, with the loop that reopens a lost watcher, which
  \<open>src/tnats/objectstore.go\<close> repeats for object stores.
\<close>

section \<open>Reopening a watcher\<close>

definition initialBackoff :: duration where "initialBackoff = 100 * Millisecond"
definition maxBackoff :: duration where "maxBackoff = 5 * Second"

definition nextBackoff :: "duration \<Rightarrow> duration" where
  "nextBackoff backoff =
    (if backoff < maxBackoff then (let backoff = backoff * 2 in if backoff > maxBackoff then maxBackoff else backoff)
     else backoff)"

text \<open>
  The inner loop for at most \<open>n\<close> attempts: \<open>Some True\<close> is a new watcher, \<open>Some False\<close> the end of the
  context, \<open>None\<close> a loop still running.
\<close>

primrec reopen :: "watch_request \<Rightarrow> ctx \<Rightarrow> duration \<Rightarrow> nat \<Rightarrow> bool option io" where
  "reopen open_req ctx backoff 0 = Ret None"
| "reopen open_req ctx backoff (Suc n) = await_Retry ctx backoff (\<lambda>ended.
     if ended then Ret (Some False)
     else Call (Watch open_req) (\<lambda>a. case a_err a of
         Some e \<Rightarrow> reopen open_req ctx (nextBackoff backoff) n
       | None \<Rightarrow> Ret (Some True)))"

text \<open>
  The outer loop for at most \<open>n\<close> watchers, each consumed by \<open>consume\<close> and reopened in at most \<open>m\<close>
  attempts.  The backoff starts afresh after every success.
\<close>

primrec watchLoop :: "unit outcome option io \<Rightarrow> watch_request \<Rightarrow> ctx \<Rightarrow> nat \<Rightarrow> nat \<Rightarrow> unit outcome option io" where
  "watchLoop consume open_req ctx m 0 = Ret None"
| "watchLoop consume open_req ctx m (Suc n) = bind consume (\<lambda>r. case r of
      None \<Rightarrow> Ret None
    | Some Panicked \<Rightarrow> Ret (Some Panicked)
    | Some (Returned _) \<Rightarrow> ctx_Err ctx (\<lambda>err.
        if err \<noteq> None then Ret (Some (Returned ()))
        else bind (reopen open_req ctx initialBackoff m) (\<lambda>r. case r of
          None \<Rightarrow> Ret None
        | Some reopened \<Rightarrow>
            if reopened then watchLoop consume open_req ctx m n else Ret (Some (Returned ())))))"

section \<open>Buckets\<close>

definition openKVWatcher :: "string \<Rightarrow> watch_request" where
  "openKVWatcher key = (if key = [] then KvWatchAll else KvWatch key)"

text \<open>
  \<open>consumeKVUpdates\<close> for at most \<open>n\<close> updates.  The watcher is stopped once, by the goroutine that
  waits for the context or at the end of the loop, whichever comes first; the model has it at the end.
  A panic of the action leaves the function without stopping the watcher.
\<close>

primrec consumeKVUpdates :: "ctx \<Rightarrow> nat \<Rightarrow> unit outcome option io" where
  "consumeKVUpdates ctx 0 = Ret None"
| "consumeKVUpdates ctx (Suc n) =
    (let stop = watcher_Stop (\<lambda>_. Ret (Some (Returned ())))
     in watcher_Next (\<lambda>update. case update of
        None \<Rightarrow> stop
      | Some entry \<Rightarrow> ctx_Err ctx (\<lambda>err. case err of
          Some e \<Rightarrow> stop
        | None \<Rightarrow> (case entry of
            None \<Rightarrow> consumeKVUpdates ctx n
          | Some (key, value) \<Rightarrow> bind (executeDecoded (Scoped ctx) (Unmarshal value)) (\<lambda>r. case r of
              Panicked \<Rightarrow> Ret (Some Panicked)
            | Returned _ \<Rightarrow> consumeKVUpdates ctx n)))))"

definition watchKV :: "ctx \<Rightarrow> KVBinding \<Rightarrow> nat \<Rightarrow> nat \<Rightarrow> nat \<Rightarrow> unit outcome option io" where
  "watchKV ctx b k m n = watchLoop (consumeKVUpdates ctx k) (openKVWatcher (kb_Key b)) ctx m n"

text \<open>\<open>mountKV\<close>; the second result tells whether the watching worker was started.\<close>

definition mountKV :: "ctx \<Rightarrow> KVBinding \<Rightarrow> (goerror option \<times> bool) io" where
  "mountKV ctx b =
    (if kb_Bucket b = [] then Ret (Some (app KindBadRequest ''KV watcher requires a bucket name'' []), False)
     else ctx_Err ctx (\<lambda>err. case err of
         Some e \<Rightarrow> Ret (Some e, False)
       | None \<Rightarrow> js_KeyValue (kb_Bucket b) (\<lambda>err. case err of
           Some e \<Rightarrow> Ret (Some (MapErr e), False)
         | None \<Rightarrow> Call (Watch (openKVWatcher (kb_Key b))) (\<lambda>a. case a_err a of
             Some e \<Rightarrow> Ret (Some (MapErr e), False)
           | None \<Rightarrow> Ret (None, True)))))"

section \<open>Backoff\<close>

lemma nextBackoff_min: "nextBackoff (min maxBackoff x) = min maxBackoff (2 * x)" if "0 \<le> x"
  using that by (auto simp: nextBackoff_def min_def maxBackoff_def)

lemma backoff_power: "(nextBackoff ^^ k) initialBackoff = min maxBackoff (2 ^ k * initialBackoff)"
proof (induction k)
  case (Suc k)
  then show ?case using nextBackoff_min [of "2 ^ k * initialBackoff"] by (simp add: mult.assoc initialBackoff_def)
qed (simp add: initialBackoff_def maxBackoff_def)

text \<open>The \<open>k\<close>-th consecutive failure is followed by the \<open>k\<close>-th backoff.\<close>

definition pauses :: "event list \<Rightarrow> duration list" where
  "pauses tr = concat (map (\<lambda>(q, a). case q of AwaitRetry c d \<Rightarrow> [d] | _ \<Rightarrow> []) tr)"

lemma pauses_simps [simp]:
  "pauses [] = []" "pauses ((q, a) # tr) = (case q of AwaitRetry c d \<Rightarrow> d # pauses tr | _ \<Rightarrow> pauses tr)"
  "pauses (tr1 @ tr2) = pauses tr1 @ pauses tr2"
  by (simp_all add: pauses_def split: request.split)

lemma reopen_schedule:
  "replay (reopen w ctx ((nextBackoff ^^ j) initialBackoff) n) tr = Some r \<Longrightarrow>
   \<exists>k \<ge> j. pauses tr = map (\<lambda>i. (nextBackoff ^^ i) initialBackoff) [j..<k]"
proof (induction n arbitrary: j tr)
  case (Suc n)
  let ?d = "\<lambda>i. (nextBackoff ^^ i) initialBackoff"
  from Suc.prems consider a where "tr = [(AwaitRetry ctx (?d j), a)]"
    | a b where "tr = [(AwaitRetry ctx (?d j), a), (Watch w, b)]"
    | a b tr' where "tr = (AwaitRetry ctx (?d j), a) # (Watch w, b) # tr'" "replay (reopen w ctx (?d (Suc j)) n) tr' = Some r"
    by (auto simp: trace_simps)
  then show ?case
  proof cases
    case 3
    from Suc.IH [OF 3(2)] obtain k where "Suc j \<le> k" "pauses tr' = map ?d [Suc j..<k]" by blast
    then show ?thesis using 3(1) by (intro exI [of _ k]) (simp add: upt_conv_Cons)
  qed (auto intro!: exI [of _ "Suc j"])
qed (auto simp: trace_simps)

text \<open>Pauses that go through the schedule from its start, any number of times and any distance.\<close>

definition backoff_runs :: "nat list \<Rightarrow> duration list" where
  "backoff_runs ks = concat (map (\<lambda>k. map (\<lambda>i. min maxBackoff (2 ^ i * initialBackoff)) [0..<k]) ks)"

lemma reopen_runs: "replay (reopen w ctx initialBackoff n) tr = Some r \<Longrightarrow> \<exists>k. pauses tr = backoff_runs [k]"
  using reopen_schedule [of w ctx 0 n tr r] by (auto simp: backoff_runs_def backoff_power)

lemma backoff_runs_Cons: "backoff_runs [k] @ backoff_runs ks = backoff_runs (k # ks)"
  by (simp add: backoff_runs_def)

lemma backoff_runs_range: "d \<in> set (backoff_runs ks) \<Longrightarrow> initialBackoff \<le> d \<and> d \<le> maxBackoff"
  by (auto simp: backoff_runs_def min_def initialBackoff_def maxBackoff_def)

section \<open>Watchers are stopped\<close>

definition stops :: "event list \<Rightarrow> nat" where
  "stops tr = length (requests (\<lambda>q. q = Watch WatcherStop) tr)"

text \<open>Watchers opened by a request.\<close>

definition opened :: "watch_request \<Rightarrow> event list \<Rightarrow> nat" where
  "opened q tr = length (filter (\<lambda>(q', a). q' = Watch q \<and> a_err a = None) tr)"

lemma counts_append [simp]:
  "stops (tr1 @ tr2) = stops tr1 + stops tr2" "opened q (tr1 @ tr2) = opened q tr1 + opened q tr2"
  "stops [] = 0" "opened q [] = 0"
  "stops ((p, a) # tr) = (if p = Watch WatcherStop then 1 else 0) + stops tr"
  "opened q ((p, a) # tr) = (if p = Watch q \<and> a_err a = None then 1 else 0) + opened q tr"
  by (simp_all add: stops_def opened_def)

text \<open>
  The interface of a watched source: a consumer of one watcher that stops it before it returns, and
  opens none.
\<close>

locale watched =
  fixes consume :: "unit outcome option io" and open_req :: watch_request
  assumes open_distinct: "open_req \<noteq> WatcherStop"
    and consume_stops: "replay consume tr = Some (Some (Returned ())) \<Longrightarrow> stops tr = 1 \<and> opened open_req tr = 0"
    and consume_pauses: "replay consume tr = Some r \<Longrightarrow> pauses tr = []"
begin

lemma reopen_counts:
  "replay (reopen open_req ctx d n) tr = Some r \<Longrightarrow> stops tr = 0 \<and> opened open_req tr = (if r = Some True then 1 else 0)"
proof (induction n arbitrary: d tr)
  case (Suc n)
  then show ?case using open_distinct by (auto simp: trace_simps dest!: Suc.IH)
qed (simp add: trace_simps)

lemma watchLoop_counts:
  "replay (watchLoop consume open_req ctx m n) tr = Some (Some (Returned ())) \<Longrightarrow> stops tr = Suc (opened open_req tr)"
proof (induction n arbitrary: tr)
  case (Suc n)
  let ?rest = "bind (reopen open_req ctx initialBackoff m) (\<lambda>r. case r of None \<Rightarrow> Ret None
    | Some reopened \<Rightarrow> if reopened then watchLoop consume open_req ctx m n else Ret (Some (Returned ())))"
  have rest: "stops tr' = opened open_req tr'" if "replay ?rest tr' = Some (Some (Returned ()))" for tr'
    using that by (auto simp: trace_simps dest!: reopen_counts Suc.IH)
  obtain tr1 tr2 y where tr: "tr = tr1 @ tr2" "replay consume tr1 = Some y"
    and y: "replay (case y of None \<Rightarrow> Ret None | Some Panicked \<Rightarrow> Ret (Some Panicked) | Some (Returned _) \<Rightarrow>
      ctx_Err ctx (\<lambda>err. if err \<noteq> None then Ret (Some (Returned ())) else ?rest)) tr2 = Some (Some (Returned ()))"
    using Suc.prems unfolding watchLoop.simps replay_bind by blast
  then have ret: "y = Some (Returned ())" by (cases y) (auto simp: replay_Ret split: outcome.splits)
  then have tail: "replay (ctx_Err ctx (\<lambda>err. if err \<noteq> None then Ret (Some (Returned ())) else ?rest)) tr2 = Some (Some (Returned ()))"
    using y by simp
  have "stops tr2 = opened open_req tr2"
    using ctx_Err_split [OF tail] rest by (auto simp: replay_Ret replay_if)
  then show ?case using tr ret consume_stops by simp
qed (simp add: trace_simps)

lemma watchLoop_runs:
  "replay (watchLoop consume open_req ctx m n) tr = Some r \<Longrightarrow> \<exists>ks. pauses tr = backoff_runs ks"
proof (induction n arbitrary: tr)
  case 0
  then show ?case by (intro exI [of _ "[]"]) (simp add: trace_simps backoff_runs_def)
next
  case (Suc n)
  let ?rest = "bind (reopen open_req ctx initialBackoff m) (\<lambda>r. case r of None \<Rightarrow> Ret None
    | Some reopened \<Rightarrow> if reopened then watchLoop consume open_req ctx m n else Ret (Some (Returned ())))"
  have nil: "\<exists>ks. [] = backoff_runs ks" by (intro exI [of _ "[]"]) (simp add: backoff_runs_def)
  have rest: "\<exists>ks. pauses tr' = backoff_runs ks" if "replay ?rest tr' = Some r" for tr'
  proof -
    from that obtain tr1 tr2 x where tr': "tr' = tr1 @ tr2" "replay (reopen open_req ctx initialBackoff m) tr1 = Some x"
      and "tr2 = [] \<or> replay (watchLoop consume open_req ctx m n) tr2 = Some r"
      by (auto simp: trace_simps)
    then obtain k ks where "pauses tr1 = backoff_runs [k]" "pauses tr2 = backoff_runs ks"
      using reopen_runs [OF tr'(2)] Suc.IH nil by (metis pauses_simps(1))
    then show ?thesis using tr'(1) backoff_runs_Cons by auto
  qed
  obtain tr1 tr2 y where tr: "tr = tr1 @ tr2" "replay consume tr1 = Some y"
    and y: "replay (case y of None \<Rightarrow> Ret None | Some Panicked \<Rightarrow> Ret (Some Panicked) | Some (Returned _) \<Rightarrow>
      ctx_Err ctx (\<lambda>err. if err \<noteq> None then Ret (Some (Returned ())) else ?rest)) tr2 = Some r"
    using Suc.prems unfolding watchLoop.simps replay_bind by blast
  have "tr2 = [] \<or> replay (ctx_Err ctx (\<lambda>err. if err \<noteq> None then Ret (Some (Returned ())) else ?rest)) tr2 = Some r"
    using y by (cases y) (auto simp: replay_Ret split: outcome.splits)
  then have "\<exists>ks. pauses tr2 = backoff_runs ks"
  proof
    assume "replay (ctx_Err ctx (\<lambda>err. if err \<noteq> None then Ret (Some (Returned ())) else ?rest)) tr2 = Some r"
    from ctx_Err_split [OF this] show ?thesis using rest nil by (auto simp: replay_Ret replay_if)
  qed (simp add: nil)
  then show ?case using tr consume_pauses by simp
qed

end

section \<open>Buckets as a watched source\<close>

lemma executeDecoded_counts:
  "replay (executeDecoded c d) tr = Some r \<Longrightarrow> stops tr = 0 \<and> opened w tr = 0 \<and> pauses tr = []"
  by (auto simp: executeDecoded_def trace_simps)

lemma consumeKVUpdates_counts:
  "replay (consumeKVUpdates ctx n) tr = Some r \<Longrightarrow> w \<noteq> WatcherStop \<Longrightarrow> w \<noteq> WatcherNext \<Longrightarrow>
   pauses tr = [] \<and> opened w tr = 0 \<and> stops tr = (if r = Some (Returned ()) then 1 else 0)"
proof (induction n arbitrary: tr)
  case (Suc n)
  then show ?case
    by (cases "ctx = Background")
      (auto simp: trace_simps replay_case_outcome Let_def dest!: Suc.IH executeDecoded_counts [where w = w])
qed (simp add: trace_simps)

lemma openKVWatcher_request: "openKVWatcher key \<noteq> WatcherStop" "openKVWatcher key \<noteq> WatcherNext"
  by (simp_all add: openKVWatcher_def)

interpretation kv_watched: watched "consumeKVUpdates ctx k" "openKVWatcher key" for ctx k key
  by unfold_locales (auto simp: openKVWatcher_request dest: consumeKVUpdates_counts [OF _ openKVWatcher_request, of _ _ _ _ key])

text \<open>
  C26: A bucket watcher neither leaks watchers nor hammers the server.  When \<open>watchKV\<close> returns, it has
  stopped every watcher it was given or opened, each exactly once; and its pauses are those of an
  exponential backoff from 100 milliseconds, doubled after every failure, capped at 5 seconds and
  started afresh after every success.
\<close>

theorem watchKV_disciplined:
  assumes "replay (watchKV ctx b k m n) tr = Some r"
  shows "(r = Some (Returned ()) \<longrightarrow> stops tr = Suc (opened (openKVWatcher (kb_Key b)) tr)) \<and>
    (\<exists>ks. pauses tr = backoff_runs ks) \<and> (\<forall>d \<in> set (pauses tr). initialBackoff \<le> d \<and> d \<le> maxBackoff)"
proof -
  have "\<exists>ks. pauses tr = backoff_runs ks"
    using assms unfolding watchKV_def by (rule kv_watched.watchLoop_runs)
  moreover have "r = Some (Returned ()) \<longrightarrow> stops tr = Suc (opened (openKVWatcher (kb_Key b)) tr)"
    using assms unfolding watchKV_def by (blast intro: kv_watched.watchLoop_counts)
  ultimately show ?thesis using backoff_runs_range by metis
qed

definition lostWatch :: "event list" where
  "lostWatch = [(Watch WatcherNext, answer0), (Watch WatcherStop, answer0), (CtxErr (Caller 0), answer0),
     (AwaitRetry (Caller 0) (100 * Millisecond), answer0), (Watch KvWatchAll, answer0\<lparr>a_err := Some (plain_error ''down'')\<rparr>),
     (AwaitRetry (Caller 0) (200 * Millisecond), answer0), (Watch KvWatchAll, answer0),
     (Watch WatcherNext, answer0), (Watch WatcherStop, answer0), (CtxErr (Caller 0), answer0\<lparr>a_err := Some (plain_error ''end'')\<rparr>)]"

theorem watchKV_disciplined_witness:
  "stops lostWatch = 2 \<and> (\<exists>ks. pauses lostWatch = backoff_runs ks)"
proof -
  have r: "replay (watchKV (Caller 0) (WatchKV ''b'' []) 2 2 2) lostWatch = Some (Some (Returned ()))"
    by (simp add: watchKV_def WatchKV_def KV_def lostWatch_def initialBackoff_def maxBackoff_def numeral_2_eq_2 replay.simps ctx_Err_def openKVWatcher_def
        nextBackoff_def answer0_def Let_def)
  from watchKV_disciplined [OF r] show ?thesis by (simp add: lostWatch_def openKVWatcher_def WatchKV_def KV_def)
qed

end
