(* ===== verification/Objects.thy ===== *)
theory Objects
  imports Watchers Subjects KV_Client
begin

text \<open>
  Object stores: \<open>src/tnats/objectstore.go\<close>.  The name patterns are in \<open>Subjects\<close>, the reopening of
  lost watchers in \<open>Watchers\<close>.
\<close>

section \<open>Bindings and events\<close>

definition ObjectEventType_String :: "ObjectEventType \<Rightarrow> string" where
  "ObjectEventType_String e =
    (if e = ObjectPut then ''PUT'' else if e = ObjectDelete then ''DELETE'' else ''UNKNOWN'')"

record ObjectBinding =
  ob_Bucket :: string
  ob_Pattern :: string
  ob_IncludeData :: bool
  ob_MaxBytes :: int

definition ObjectBinding_String :: "ObjectBinding \<Rightarrow> string" where
  "ObjectBinding_String b = ''nats objectstore: '' @ ob_Bucket b @ ''/'' @ ob_Pattern b"

abbreviation eightMiB :: int where "eightMiB \<equiv> 8 * 1024 * 1024"

definition ObjectStore :: "string \<Rightarrow> string \<Rightarrow> ObjectBinding" where
  "ObjectStore bucket pattern =
     \<lparr>ob_Bucket = bucket, ob_Pattern = pattern, ob_IncludeData = False, ob_MaxBytes = eightMiB\<rparr>"

definition WithData :: "ObjectBinding \<Rightarrow> int \<Rightarrow> ObjectBinding" where
  "WithData b maxBytes =
    (let b = b\<lparr>ob_IncludeData := True\<rparr> in if maxBytes > 0 then b\<lparr>ob_MaxBytes := maxBytes\<rparr> else b)"

definition validateObjectBinding :: "ObjectBinding \<Rightarrow> goerror option" where
  "validateObjectBinding b =
    (if ob_Bucket b = [] then Some (bad_request ''objectstore requires a bucket name'') else None)"

definition objectEventFromInfo :: "ObjectBinding \<Rightarrow> ObjectInfo \<Rightarrow> ObjectEvent" where
  "objectEventFromInfo b info =
     \<lparr>oe_Bucket = ob_Bucket b, oe_Name = oi_Name info,
      oe_Type = (if oi_Deleted info then ObjectDelete else ObjectPut),
      oe_Size = oi_Size info, oe_Chunks = oi_Chunks info, oe_Timestamp = oi_ModTime info, oe_Data = []\<rparr>"

section \<open>Reading and writing objects\<close>

definition readObjectBytes :: "ctx \<Rightarrow> string \<Rightarrow> int \<Rightarrow> (goerror + bytes) io" where
  "readObjectBytes ctx name maxBytes0 =
    (let maxBytes = (if maxBytes0 \<le> 0 then eightMiB else maxBytes0)
     in if maxBytes = maxInt64 then Ret (Inl (bad_request ''object read limit is too large''))
        else obs_Get ctx name (\<lambda>err. case err of
          Some e \<Rightarrow> Ret (Inl (MapErr e))
        | None \<Rightarrow> obj_CopyN (maxBytes + 1) (\<lambda>(buf, readErr). obj_Close (\<lambda>closeErr.
            case Option.bind readErr (\<lambda>e. if errors_Is e (IoErr ''EOF'') then None else Some e) of
              Some re \<Rightarrow> Ret (Inl (MapErr (Join (re # (case closeErr of Some ce \<Rightarrow> [ce] | None \<Rightarrow> [])))))
            | None \<Rightarrow> (case closeErr of
                Some ce \<Rightarrow> Ret (Inl (MapErr ce))
              | None \<Rightarrow>
                  if int (length buf) > maxBytes
                  then Ret (Inl (bad_request
                    (''object '' @ quoted name @ '' exceeds limit of '' @ decimal (nat maxBytes) @ '' bytes'')))
                  else Ret (Inr buf))))))"

abbreviation object_name_required :: goerror where
  "object_name_required \<equiv> bad_request ''objectstore requires a bucket and object name''"

definition PutObject :: "ctx \<Rightarrow> string \<Rightarrow> string \<Rightarrow> bytes \<Rightarrow> (goerror + ObjectInfo) io" where
  "PutObject ctx bucket name d = ctx_Err ctx (\<lambda>err. case err of
      Some e \<Rightarrow> Ret (Inl e)
    | None \<Rightarrow>
      if bucket = [] \<or> name = [] then Ret (Inl object_name_required)
      else ensure_Conn ctx (\<lambda>err. case err of
        Some e \<Rightarrow> Ret (Inl e)
      | None \<Rightarrow> ensure_JetStream (\<lambda>err. case err of
          Some e \<Rightarrow> Ret (Inl e)
        | None \<Rightarrow> js_ObjectStore bucket (\<lambda>err. case err of
            Some e \<Rightarrow> Ret (Inl (MapErr e))
          | None \<Rightarrow> obs_PutBytes ctx name d (\<lambda>info. case info of
              Inl e \<Rightarrow> Ret (Inl (MapErr e))
            | Inr info \<Rightarrow> Ret (Inr info))))))"

definition GetObjectLimited :: "ctx \<Rightarrow> string \<Rightarrow> string \<Rightarrow> int \<Rightarrow> (goerror + bytes) io" where
  "GetObjectLimited ctx bucket name maxBytes0 = ctx_Err ctx (\<lambda>err. case err of
      Some e \<Rightarrow> Ret (Inl e)
    | None \<Rightarrow>
      if bucket = [] \<or> name = [] then Ret (Inl object_name_required)
      else (let maxBytes = (if maxBytes0 \<le> 0 then eightMiB else maxBytes0)
        in if maxBytes = maxInt64 then Ret (Inl (bad_request ''object read limit is too large''))
           else ensure_Conn ctx (\<lambda>err. case err of
             Some e \<Rightarrow> Ret (Inl e)
           | None \<Rightarrow> ensure_JetStream (\<lambda>err. case err of
               Some e \<Rightarrow> Ret (Inl e)
             | None \<Rightarrow> js_ObjectStore bucket (\<lambda>err. case err of
                 Some e \<Rightarrow> Ret (Inl (MapErr e))
               | None \<Rightarrow> readObjectBytes ctx name maxBytes)))))"

definition GetObject :: "ctx \<Rightarrow> string \<Rightarrow> string \<Rightarrow> (goerror + bytes) io" where
  "GetObject ctx bucket name = GetObjectLimited ctx bucket name eightMiB"

definition DeleteObject :: "ctx \<Rightarrow> string \<Rightarrow> string \<Rightarrow> goerror option io" where
  "DeleteObject ctx bucket name = ctx_Err ctx (\<lambda>err. case err of
      Some e \<Rightarrow> Ret (Some e)
    | None \<Rightarrow>
      if bucket = [] \<or> name = [] then Ret (Some object_name_required)
      else ensure_Conn ctx (\<lambda>err. case err of
        Some e \<Rightarrow> Ret (Some e)
      | None \<Rightarrow> jetstream_New (\<lambda>err. case err of
          Some e \<Rightarrow> Ret (Some (MapErr e))
        | None \<Rightarrow> js_ObjectStore_ctx ctx bucket (\<lambda>err. case err of
            Some e \<Rightarrow> Ret (Some (MapErr e))
          | None \<Rightarrow> obs_Delete ctx name (\<lambda>err. Ret (MapError err))))))"

section \<open>Watching an object store\<close>

text \<open>
  The event of a matching object, with its content if the binding asks for it and it can be read,
  and the action on it.
\<close>

definition objectEvent :: "ctx \<Rightarrow> ObjectBinding \<Rightarrow> ObjectInfo \<Rightarrow> ObjectEvent io" where
  "objectEvent ctx b info =
    (let ev = objectEventFromInfo b info
     in if ob_IncludeData b \<and> oe_Type ev = ObjectPut
        then bind (readObjectBytes ctx (oi_Name info) (ob_MaxBytes b)) (\<lambda>r. case r of
            Inr d \<Rightarrow> Ret (ev\<lparr>oe_Data := d\<rparr>)
          | Inl e \<Rightarrow> Ret ev)
        else Ret ev)"

text \<open>
  What the action decodes: the event itself into a target of its type, and otherwise its encoding by
  the codec, for which \<open>toValue\<close> is the event as a Go value.
\<close>

definition coerceObjectEvent :: "(ObjectEvent \<Rightarrow> json) \<Rightarrow> ObjectEvent \<Rightarrow> bool \<Rightarrow> (goerror + ObjectEvent + json) io" where
  "coerceObjectEvent toValue ev isEvent =
    (if isEvent then Ret (Inr (Inl ev))
     else codec_Marshal (toValue ev) (\<lambda>r. case r of
         Inl err \<Rightarrow> Ret (Inl err)
       | Inr d \<Rightarrow> codec_Unmarshal d (\<lambda>r. case r of Inl err \<Rightarrow> Ret (Inl err) | Inr v \<Rightarrow> Ret (Inr (Inr v)))))"

primrec consumeObjectEvents :: "ctx \<Rightarrow> ObjectBinding \<Rightarrow> string \<Rightarrow> nat \<Rightarrow> unit outcome option io" where
  "consumeObjectEvents ctx b pattern 0 = Ret None"
| "consumeObjectEvents ctx b pattern (Suc n) =
    (let stop = watcher_Stop (\<lambda>_. Ret (Some (Returned ())));
         continue = consumeObjectEvents ctx b pattern n
     in watcher_NextObject (\<lambda>update. case update of
        None \<Rightarrow> stop
      | Some info \<Rightarrow> ctx_Err ctx (\<lambda>err. case err of
          Some e \<Rightarrow> stop
        | None \<Rightarrow> (case info of
            None \<Rightarrow> continue
          | Some info \<Rightarrow>
              if \<not> objectNameMatches (oi_Name info) pattern then continue
              else bind (objectEvent ctx b info) (\<lambda>ev.
                bind (executeDecoded (Scoped ctx) (FromEvent ev)) (\<lambda>r. case r of
                  Panicked \<Rightarrow> Ret (Some Panicked)
                | Returned _ \<Rightarrow> continue))))))"

definition watchObjectStore ::
  "ctx \<Rightarrow> ObjectBinding \<Rightarrow> string \<Rightarrow> nat \<Rightarrow> nat \<Rightarrow> nat \<Rightarrow> unit outcome option io" where
  "watchObjectStore ctx b pattern k m n = watchLoop (consumeObjectEvents ctx b pattern k) ObsWatch ctx m n"

definition objectPattern :: "ObjectBinding \<Rightarrow> string" where
  "objectPattern b = (if ob_Pattern b = [] then ''>'' else ob_Pattern b)"

definition mountObjectStore :: "ObjectBinding \<Rightarrow> (goerror option \<times> bool) io" where
  "mountObjectStore b =
    (case validateObjectBinding b of
       Some e \<Rightarrow> Ret (Some e, False)
     | None \<Rightarrow> js_ObjectStore (ob_Bucket b) (\<lambda>err. case err of
         Some e \<Rightarrow> Ret (Some (MapErr e), False)
       | None \<Rightarrow> obs_Watch (\<lambda>err. case err of
           Some e \<Rightarrow> Ret (Some (MapErr e), False)
         | None \<Rightarrow> Ret (None, True))))"

section \<open>Bounded reads\<close>

definition read_limit :: "int \<Rightarrow> int" where
  "read_limit maxBytes = (if maxBytes \<le> 0 then eightMiB else maxBytes)"

text \<open>The answers of \<open>io.CopyN\<close> as documented: no error only if all the bytes were copied.\<close>

definition copy_ok :: "event list \<Rightarrow> bool" where
  "copy_ok tr \<longleftrightarrow> (\<forall>n a. (Store (ObjCopyN n), a) \<in> set tr \<longrightarrow>
     int (length (fst (a_copied a))) \<le> n \<and> (snd (a_copied a) = None \<longrightarrow> int (length (fst (a_copied a))) = n))"

text \<open>A trace that read an object to its end: what was copied, and that the object ended there.\<close>

definition read_whole :: "int \<Rightarrow> bytes \<Rightarrow> event list \<Rightarrow> bool" where
  "read_whole n d tr \<longleftrightarrow> (\<exists>a e. (Store (ObjCopyN n), a) \<in> set tr \<and> a_copied a = (d, Some e) \<and> errors_Is e (IoErr ''EOF''))"

lemma readObjectBytes_trace:
  assumes "replay (readObjectBytes ctx name maxBytes) tr = Some r" and "in_int64 maxBytes"
  shows "(\<forall>n a. (Store (ObjCopyN n), a) \<in> set tr \<longrightarrow> n = read_limit maxBytes + 1 \<and> in_int64 n) \<and>
    (\<forall>d. r = Inr d \<longrightarrow> int (length d) \<le> read_limit maxBytes \<and> (copy_ok tr \<longrightarrow> read_whole (read_limit maxBytes + 1) d tr)) \<and>
    length (requests (\<lambda>q. q = Store ObjClose) tr) =
      length (filter (\<lambda>(q, a). q = Store (ObsGet ctx name) \<and> a_err a = None) tr)"
proof -
  let ?l = "read_limit maxBytes"
  from assms(1) consider e where "tr = []" "r = Inl e"
    | a e where "tr = [(Store (ObsGet ctx name), a)]" "a_err a \<noteq> None" "r = Inl e"
    | a c z e where "tr = [(Store (ObsGet ctx name), a), (Store (ObjCopyN (?l + 1)), c), (Store ObjClose, z)]"
        "a_err a = None" "?l \<noteq> maxInt64" "r = Inl e"
    | a c z where "tr = [(Store (ObsGet ctx name), a), (Store (ObjCopyN (?l + 1)), c), (Store ObjClose, z)]"
        "a_err a = None" "?l \<noteq> maxInt64" "r = Inr (fst (a_copied c))" "int (length (fst (a_copied c))) \<le> ?l"
        "\<forall>e. snd (a_copied c) = Some e \<longrightarrow> errors_Is e (IoErr ''EOF'')"
    unfolding readObjectBytes_def read_limit_def Let_def
    by (auto simp: trace_simps bind_eq_None_conv split: if_splits) (metis option.sel)+
  then show ?thesis
  proof cases
    case 4
    have "read_whole (?l + 1) (fst (a_copied c)) tr" if "copy_ok tr"
      using that 4 by (cases "a_copied c"; cases "snd (a_copied c)") (auto simp: copy_ok_def read_whole_def)
    then show ?thesis using 4 assms(2) by (auto simp: in_int64_def read_limit_def split: if_splits)
  qed (use assms(2) in \<open>auto simp: in_int64_def read_limit_def split: if_splits\<close>)
qed

text \<open>
  C25: Reading an object is bounded and never truncates.  \<open>GetObjectLimited\<close> asks for exactly one
  byte more than its limit, a number that never overflows; what it returns has at most the limit's
  length and, as \<open>io.CopyN\<close> reports no error only for a full copy, is the whole object, read up to
  its end; and every object it opened is closed.
\<close>

theorem GetObjectLimited_complete:
  assumes "replay (GetObjectLimited ctx bucket name maxBytes) tr = Some r" and "in_int64 maxBytes"
  shows "(\<forall>n a. (Store (ObjCopyN n), a) \<in> set tr \<longrightarrow> n = read_limit maxBytes + 1 \<and> in_int64 n) \<and>
    (\<forall>d. r = Inr d \<longrightarrow> int (length d) \<le> read_limit maxBytes \<and> (copy_ok tr \<longrightarrow> read_whole (read_limit maxBytes + 1) d tr)) \<and>
    length (requests (\<lambda>q. q = Store ObjClose) tr) =
      length (filter (\<lambda>(q, a). q = Store (ObsGet ctx name) \<and> a_err a = None) tr)"
proof -
  have lim: "in_int64 (read_limit maxBytes)" "read_limit (read_limit maxBytes) = read_limit maxBytes"
    using assms(2) by (auto simp: read_limit_def in_int64_def)
  let ?quiet = "\<lambda>q. q = CtxErr ctx \<or> q = Conn (EnsureConnection ctx) \<or> q = Conn EnsureJetStream \<or> q = Store (JsObjectStore bucket)"
  let ?read = "\<lambda>tr. (\<exists>e. r = Inl e) \<and> tr = [] \<or> replay (readObjectBytes ctx name (read_limit maxBytes)) tr = Some r"
  have pre: "preceded ?quiet ?read tr"
    using assms(1) by (cases "ctx = Background")
      (auto simp: GetObjectLimited_def read_limit_def Let_def trace_simps intro!: preceded_Cons intro: preceded_here split: if_splits)
  have quiet: "requests (\<lambda>q. q = Store ObjClose) tr' = []"
    "filter (\<lambda>(q, a). q = Store (ObsGet ctx name) \<and> a_err a = None) tr' = []" "\<And>n a. (Store (ObjCopyN n), a) \<notin> set tr'"
    if "\<forall>(q, a) \<in> set tr'. ?quiet q" for tr' :: "event list"
    using that by (auto simp: requests_def filter_empty_conv)
  from pre
  consider e where "r = Inl e" "\<forall>(q, a) \<in> set tr. ?quiet q"
    | tr1 tr2 where "tr = tr1 @ tr2" "\<forall>(q, a) \<in> set tr1. ?quiet q"
      "replay (readObjectBytes ctx name (read_limit maxBytes)) tr2 = Some r"
    unfolding preceded_def by auto
  then show ?thesis
  proof cases
    case 1
    then show ?thesis using quiet [OF 1(2)] by simp
  next
    case 2
    then have "copy_ok tr \<Longrightarrow> copy_ok tr2" "read_whole n d tr2 \<Longrightarrow> read_whole n d tr" for n d
      by (auto simp: copy_ok_def read_whole_def)
    then show ?thesis using readObjectBytes_trace [OF 2(3) lim(1)] 2(1) lim(2) quiet [OF 2(2)] by auto
  qed
qed

definition smallObject :: "event list" where
  "smallObject = [(Conn (EnsureConnection Background), answer0), (Conn EnsureJetStream, answer0),
     (Store (JsObjectStore ''b''), answer0), (Store (ObsGet Background ''o''), answer0),
     (Store (ObjCopyN 11), answer0\<lparr>a_copied := (''data'', Some (sentinel_error (IoErr ''EOF'')))\<rparr>), (Store ObjClose, answer0)]"

theorem GetObjectLimited_complete_witness:
  "read_whole 11 ''data'' smallObject \<and> length ''data'' \<le> (10 :: nat)"
proof -
  have r: "replay (GetObjectLimited Background ''b'' ''o'' 10) smallObject = Some (Inr ''data'')"
    by (simp add: GetObjectLimited_def readObjectBytes_def ctx_Err_def smallObject_def replay.simps sentinel_error_def Let_def)
  have "copy_ok smallObject" by (auto simp: copy_ok_def smallObject_def)
  then show ?thesis using GetObjectLimited_complete [OF r] by (simp add: in_int64_def read_limit_def)
qed

section \<open>Object stores as a watched source\<close>

lemma readObjectBytes_counts:
  "replay (readObjectBytes ctx name n) tr = Some r \<Longrightarrow> stops tr = 0 \<and> opened w tr = 0 \<and> pauses tr = []"
  by (auto simp: readObjectBytes_def trace_simps Let_def split: if_splits)

lemma objectEvent_counts:
  "replay (objectEvent ctx b info) tr = Some ev \<Longrightarrow> stops tr = 0 \<and> opened w tr = 0 \<and> pauses tr = []"
  by (auto simp: objectEvent_def trace_simps Let_def dest: readObjectBytes_counts split: if_splits)

lemma consumeObjectEvents_counts:
  "replay (consumeObjectEvents ctx b pattern n) tr = Some r \<Longrightarrow> w \<noteq> WatcherStop \<Longrightarrow> w \<noteq> WatcherNext \<Longrightarrow>
   pauses tr = [] \<and> opened w tr = 0 \<and> stops tr = (if r = Some (Returned ()) then 1 else 0)"
proof (induction n arbitrary: tr)
  case (Suc n)
  then show ?case
    by (cases "ctx = Background")
      (auto simp: trace_simps replay_case_outcome Let_def
        dest!: Suc.IH executeDecoded_counts [where w = w] objectEvent_counts [where w = w])
qed (simp add: trace_simps)

interpretation object_watched: watched "consumeObjectEvents ctx b pattern k" ObsWatch for ctx b pattern k
  by unfold_locales (auto dest: consumeObjectEvents_counts [where w = ObsWatch])

text \<open>The same guarantees as for bucket watchers.\<close>

lemma watchObjectStore_disciplined:
  assumes "replay (watchObjectStore ctx b pattern k m n) tr = Some r"
  shows "(r = Some (Returned ()) \<longrightarrow> stops tr = Suc (opened ObsWatch tr)) \<and> (\<exists>ks. pauses tr = backoff_runs ks)"
  using assms object_watched.watchLoop_counts object_watched.watchLoop_runs unfolding watchObjectStore_def by blast

section \<open>Events\<close>

text \<open>
  When the action may run: on an event of the binding's bucket whose name matches, with content only
  if the binding asks for it, only for a stored object and within the limit.
\<close>

definition event_rule :: "ObjectBinding \<Rightarrow> string \<Rightarrow> event list \<Rightarrow> request \<Rightarrow> bool" where
  "event_rule b pattern h q \<longleftrightarrow> (\<forall>c d. q = ExecuteDecoded c d \<longrightarrow> (\<exists>ev. d = FromEvent ev \<and> oe_Bucket ev = ob_Bucket b \<and>
     objectNameMatches (oe_Name ev) pattern \<and>
     (oe_Data ev \<noteq> [] \<longrightarrow> ob_IncludeData b \<and> oe_Type ev = ObjectPut \<and> int (length (oe_Data ev)) \<le> read_limit (ob_MaxBytes b))))"

lemma readObjectBytes_bound:
  "replay (readObjectBytes ctx name maxBytes) tr = Some (Inr d) \<Longrightarrow> int (length d) \<le> read_limit maxBytes"
  by (auto simp: readObjectBytes_def read_limit_def trace_simps Let_def split: if_splits)

lemma readObjectBytes_rule: "guarded (event_rule b pattern) (readObjectBytes ctx name n) h"
  by (auto simp: readObjectBytes_def Let_def event_rule_def split: option.split prod.split)

lemma objectEvent_ok:
  assumes "replay (objectEvent ctx b info) tr = Some ev" and "objectNameMatches (oi_Name info) pattern"
  shows "event_rule b pattern h (ExecuteDecoded c (FromEvent ev))"
  using assms by (auto simp: objectEvent_def objectEventFromInfo_def event_rule_def trace_simps Let_def
      dest: readObjectBytes_bound split: if_splits)

lemma consumeObjectEvents_rule: "guarded (event_rule b pattern) (consumeObjectEvents ctx b pattern n) h"
proof (induction n arbitrary: h)
  case (Suc n)
  have quiet [simp]: "event_rule b pattern h' (Watch w)" "event_rule b pattern h' (CtxErr c)" "event_rule b pattern h' ExecuteFinish"
    for h' w c by (simp_all add: event_rule_def)
  have "guarded (event_rule b pattern) (objectEvent ctx b info) h'" for info h'
    by (auto simp: objectEvent_def Let_def intro!: guarded_bind readObjectBytes_rule split: sum.split)
  moreover have "guarded (event_rule b pattern) (executeDecoded (Scoped ctx) (FromEvent ev)) h'"
    if "replay (objectEvent ctx b info) tr = Some ev" "objectNameMatches (oi_Name info) pattern" for info tr ev h'
    using objectEvent_ok [OF that] by (simp add: executeDecoded_def)
  ultimately show ?case using Suc
    by (auto simp: ctx_Err_def Let_def intro!: guarded_bind split: option.split outcome.split)
qed simp

text \<open>
  The action of an object binding runs only on matching objects and never on more data than the
  binding allows: whatever \<open>consumeObjectEvents\<close> hands to the action is an event of the binding's
  bucket whose name matches the pattern, and content is attached only if the binding asks for it, only
  to an object that exists, and only up to the limit.
\<close>

theorem object_events_filtered:
  assumes "after (consumeObjectEvents ctx b (objectPattern b) n) (tr1 @ (ExecuteDecoded c d, a) # tr2) \<noteq> None"
  shows "\<exists>ev. d = FromEvent ev \<and> oe_Bucket ev = ob_Bucket b \<and>
    (ob_Pattern b = [] \<or> objectNameMatches (oe_Name ev) (ob_Pattern b)) \<and>
    (oe_Data ev \<noteq> [] \<longrightarrow> ob_IncludeData b \<and> oe_Type ev = ObjectPut \<and> int (length (oe_Data ev)) \<le> read_limit (ob_MaxBytes b))"
  using guarded_after [OF consumeObjectEvents_rule [where h = "[]"] assms] by (auto simp: event_rule_def objectPattern_def split: if_splits)

definition sampleInfo :: ObjectInfo where
  "sampleInfo = \<lparr>oi_Name = ''a.txt'', oi_Size = 4, oi_Chunks = 1, oi_Digest = [], oi_ModTime = 0, oi_Deleted = False\<rparr>"

theorem object_events_filtered_witness:
  "objectNameMatches (oe_Name (objectEventFromInfo (ObjectStore ''b'' ''a.*'') sampleInfo)) ''a.*'' \<and>
   oe_Data (objectEventFromInfo (ObjectStore ''b'' ''a.*'') sampleInfo) = []"
proof -
  let ?b = "ObjectStore ''b'' ''a.*''"
  have "objectNameMatches ''a.txt'' ''a.*''" by code_simp
  then have "after (consumeObjectEvents Background ?b (objectPattern ?b) 1)
      ([(Watch WatcherNext, answer0\<lparr>a_object := Some (Some sampleInfo)\<rparr>)] @
       (ExecuteDecoded (Scoped Background) (FromEvent (objectEventFromInfo ?b sampleInfo)), answer0) # []) \<noteq> None"
    by (simp add: sampleInfo_def ObjectStore_def objectPattern_def ctx_Err_def objectEvent_def executeDecoded_def Let_def)
  from object_events_filtered [OF this] show ?thesis by (simp add: ObjectStore_def)
qed

end
