(* ===== verification/Messaging.thy ===== *)
theory Messaging
  imports Delivery
begin

text \<open>
  Publishing, requests and the handlers of topics: \<open>src/tnats/tnats_publish.go\<close>,
  \<open>src/tnats/identity.go\<close> and \<open>subscribeTopic\<close> of \<open>src/tnats/tnats_runner.go\<close>.  What the identity
  module writes into a message is a parameter.
\<close>

section \<open>Publishing\<close>

definition HeaderErrorMarker :: string where "HeaderErrorMarker = ''X-NATS-Error''"

definition NewMsg :: "string \<Rightarrow> msg" where
  "NewMsg subject = \<lparr>m_Subject = subject, m_Reply = [], m_Data = [], m_Header = Some []\<rparr>"

definition propagateToMsg :: "(ctx \<Rightarrow> header \<Rightarrow> header) \<Rightarrow> ctx \<Rightarrow> msg \<Rightarrow> msg" where
  "propagateToMsg propagate ctx m =
     m\<lparr>m_Header := Some (propagate ctx (case m_Header m of None \<Rightarrow> [] | Some h \<Rightarrow> h))\<rparr>"

definition Publish :: "(ctx \<Rightarrow> header \<Rightarrow> header) \<Rightarrow> ctx \<Rightarrow> string \<Rightarrow> json \<Rightarrow> goerror option io" where
  "Publish propagate ctx subject payload = ensure_Conn ctx (\<lambda>err. case err of
      Some e \<Rightarrow> Ret (Some e)
    | None \<Rightarrow> codec_Marshal payload (\<lambda>r. case r of
        Inl e \<Rightarrow> Ret (Some (app KindInternal ''nats: marshal payload'' [e]))
      | Inr body \<Rightarrow>
          nc_PublishMsg (propagateToMsg propagate ctx \<lparr>m_Subject = subject, m_Reply = [], m_Data = body, m_Header = None\<rparr>)
            (\<lambda>err. case err of Some e \<Rightarrow> Ret (Some (MapErr e)) | None \<Rightarrow> Ret None)))"

text \<open>\<open>PublishDurable\<close> with the cache \<open>verifiedStreams\<close> of the bindings already provisioned.\<close>

definition cacheKey :: "DurableBinding \<Rightarrow> string" where
  "cacheKey b = db_Stream b @ '':'' @ db_Subject b"

definition publishVerified ::
  "header_names \<Rightarrow> (id_kind \<Rightarrow> ctx \<Rightarrow> string) \<Rightarrow> ctx \<Rightarrow> DurableBinding \<Rightarrow> json \<Rightarrow> goerror option io" where
  "publishVerified hn ids ctx b payload = codec_Marshal payload (\<lambda>r. case r of
      Inl e \<Rightarrow> Ret (Some (app KindInternal ''failed to marshal durable nats payload'' [e]))
    | Inr d \<Rightarrow> js_PublishMsg ctx (injectContextHeaders hn ids ctx ((NewMsg (db_Subject b))\<lparr>m_Data := d\<rparr>)) None
        (\<lambda>err. case err of Some e \<Rightarrow> Ret (Some (MapErr e)) | None \<Rightarrow> Ret None))"

definition PublishDurable ::
  "header_names \<Rightarrow> (id_kind \<Rightarrow> ctx \<Rightarrow> string) \<Rightarrow> (StreamConfig \<Rightarrow> StreamConfig) option \<Rightarrow> ctx \<Rightarrow> DurableBinding \<Rightarrow> json \<Rightarrow>
     string set \<Rightarrow> (goerror option \<times> string set) io" where
  "PublishDurable hn ids modifier ctx b payload verified =
    (case validateDurableBinding b of
       Some e \<Rightarrow> Ret (Some e, verified)
     | None \<Rightarrow> ensure_Conn ctx (\<lambda>err. case err of
         Some e \<Rightarrow> Ret (Some e, verified)
       | None \<Rightarrow> ensure_JetStream (\<lambda>err. case err of
           Some e \<Rightarrow> Ret (Some e, verified)
         | None \<Rightarrow>
             if cacheKey b \<in> verified
             then bind (publishVerified hn ids ctx b payload) (\<lambda>err. Ret (err, verified))
             else bind (ensureDurableInfra modifier b) (\<lambda>infraErr. case infraErr of
                 Some e \<Rightarrow> Ret (Some e, verified)
               | None \<Rightarrow> bind (publishVerified hn ids ctx b payload) (\<lambda>err.
                   Ret (err, insert (cacheKey b) verified))))))"

section \<open>Requests\<close>

text \<open>
  The flag tells whether the caller passed a place for the response; the result holds what was
  stored there.
\<close>

definition remoteError :: "bytes \<Rightarrow> goerror" where
  "remoteError d = app KindInternal (''remote nats action error: '' @ d) []"

definition Request_io ::
  "header_names \<Rightarrow> (id_kind \<Rightarrow> ctx \<Rightarrow> string) \<Rightarrow> ctx \<Rightarrow> string \<Rightarrow> json \<Rightarrow> bool \<Rightarrow> (goerror + json option) io" where
  "Request_io hn ids ctx subject payload wants = ensure_Conn ctx (\<lambda>err. case err of
      Some e \<Rightarrow> Ret (Inl e)
    | None \<Rightarrow> codec_Marshal payload (\<lambda>r. case r of
        Inl e \<Rightarrow> Ret (Inl (app KindInternal ''failed to marshal nats request'' [e]))
      | Inr d \<Rightarrow> nc_Request ctx (injectContextHeaders hn ids ctx ((NewMsg subject)\<lparr>m_Data := d\<rparr>)) (\<lambda>r. case r of
          Inl e \<Rightarrow> Ret (Inl (MapErr e))
        | Inr res \<Rightarrow>
            if header_Get (m_Header res) HeaderErrorMarker = ''1'' then
              codec_Unmarshal_Error (m_Data res) (\<lambda>r. case r of
                Inr (True, Some appErr) \<Rightarrow> Ret (Inl appErr)
              | _ \<Rightarrow> Ret (Inl (remoteError (m_Data res))))
            else if wants \<and> length (m_Data res) > 0 then
              codec_Unmarshal (m_Data res) (\<lambda>r. case r of
                Inl e \<Rightarrow> Ret (Inl (app KindInternal ''failed to unmarshal nats response'' [e]))
              | Inr v \<Rightarrow> Ret (Inr (Some v)))
            else Ret (Inr None))))"

section \<open>Topics\<close>

text \<open>The reply of a topic's action: its bytes and whether it is an error.\<close>

definition topicResult ::
  "IdempotencyStore \<Rightarrow> IdempotencyConfig option \<Rightarrow> ctx \<Rightarrow> msg \<Rightarrow> decoder \<Rightarrow> reply outcome io" where
  "topicResult store meta reqCtx m decoder =
    (if (case meta of None \<Rightarrow> False | Some cfg \<Rightarrow> ic_Enabled cfg)
     then executeWithIdempotency store (the meta) reqCtx m decoder
     else bind (executeDecoded reqCtx decoder) (\<lambda>r. case r of
         Panicked \<Rightarrow> Ret Panicked
       | Returned (Inl execErr) \<Rightarrow> bind (encodeError execErr) (\<lambda>r. Ret (Returned r))
       | Returned (Inr res) \<Rightarrow> codec_Marshal res (\<lambda>r. case r of
           Inr d \<Rightarrow> Ret (Returned (d, None))
         | Inl e \<Rightarrow> bind (encodeError (app KindInternal ''failed to marshal response'' [e])) (\<lambda>r. Ret (Returned r)))))"

definition topicReply :: "header_names \<Rightarrow> string \<Rightarrow> string \<Rightarrow> reply \<Rightarrow> msg" where
  "topicReply hn requestID to r =
    (let h = (if requestID \<noteq> [] then header_Set [] (hn_RequestID hn) requestID else []);
         h = (if snd r \<noteq> None then header_Set h HeaderErrorMarker ''1'' else h)
     in (NewMsg to)\<lparr>m_Data := fst r, m_Header := Some h\<rparr>)"

text \<open>
  The handler of a message, in its own goroutine; \<open>closing\<close> is the answer of \<open>startWorker\<close>, which
  refuses new work on a transport that is closing.
\<close>

definition handleTopicMessage ::
  "header_names \<Rightarrow> IdempotencyStore \<Rightarrow> ctx \<Rightarrow> duration \<Rightarrow> IdempotencyConfig option \<Rightarrow> bool \<Rightarrow> msg \<Rightarrow> unit outcome io" where
  "handleTopicMessage hn store ctx handlerTimeout meta closing m =
    (if closing then Ret (Returned ())
     else (let callCtx = (if handlerTimeout > 0 then WithTimeout ctx handlerTimeout else ctx);
               (reqCtx, scope) = extractContextHeaders hn (Scoped callCtx) m
                 \<lparr>rs_Endpoint = ''nats.'' @ m_Subject m, rs_RequestID = [], rs_TraceID = [], rs_SpanID = []\<rparr>
           in bind (topicResult store meta reqCtx m (message_decoder m)) (\<lambda>outcome. case outcome of
                Panicked \<Rightarrow> Ret Panicked
              | Returned r \<Rightarrow>
                  if m_Reply m \<noteq> [] then nc_PublishMsg (topicReply hn (rs_RequestID scope) (m_Reply m) r) (\<lambda>_. Ret (Returned ()))
                  else Ret (Returned ()))))"

text \<open>\<open>subscribeTopic\<close>; the second result tells whether a subscription was added.\<close>

definition subscribeTopic :: "TopicBinding \<Rightarrow> (goerror option \<times> bool) io" where
  "subscribeTopic b =
     Call (Conn (NcSubscribe (tb_Subject b) (if tb_QueueGroup b \<noteq> [] then Some (tb_QueueGroup b) else None))) (\<lambda>a.
       case a_err a of Some e \<Rightarrow> Ret (Some (MapErr e), False) | None \<Rightarrow> Ret (None, True))"

section \<open>What durable publishing guarantees\<close>

text \<open>
  A trace in which the streams of a binding are provisioned, the one of the dead letters last: each
  ends with the creation or the description of a stream that takes the subject.
\<close>

definition infra_provisioned :: "DurableBinding \<Rightarrow> event list \<Rightarrow> bool" where
  "infra_provisioned b tr \<longleftrightarrow> (\<exists>tr1 tr2. tr = tr1 @ tr2 \<and>
     provisioned (db_Stream b) [db_Subject b] tr1 \<and>
     provisioned (db_Stream b @ ''_DLQ'') [db_DeadLetterSubject b] tr2)"

lemma ensureDurableInfra_provisioned:
  "keeps_subjects modifier \<Longrightarrow> replay (ensureDurableInfra modifier b) tr = Some None \<Longrightarrow> infra_provisioned b tr"
  by (auto simp: ensureDurableInfra_def ensureStream_def trace_simps infra_provisioned_def
      dest: ensureStreamRounds_provisioned)

lemma ensureDurableInfra_no_publish: "only_calls (\<lambda>q. \<not> is_publish q) (ensureDurableInfra modifier b)"
proof -
  have "only_calls (\<lambda>q. \<not> is_publish q) (ensureStreamRounds modifier name subjects n)" for name subjects n
    by (induction n) (auto simp: case_prod_beta Let_def split: sum.split option.split)
  then show ?thesis
    by (auto simp: ensureDurableInfra_def ensureStream_def intro!: only_calls_bind split: option.split)
qed

lemma ensureDurableInfra_unpublished:
  "replay (ensureDurableInfra modifier b) tr = Some r \<Longrightarrow> requests is_publish tr = []"
  by (rule only_calls_requests [OF ensureDurableInfra_no_publish])

definition durableMsg ::
  "header_names \<Rightarrow> (id_kind \<Rightarrow> ctx \<Rightarrow> string) \<Rightarrow> ctx \<Rightarrow> DurableBinding \<Rightarrow> bytes \<Rightarrow> msg" where
  "durableMsg hn ids ctx b d = injectContextHeaders hn ids ctx ((NewMsg (db_Subject b))\<lparr>m_Data := d\<rparr>)"

text \<open>A message is accepted by the server once, as the last call, with the encoding of the payload.\<close>

definition accepted :: "ctx \<Rightarrow> (bytes \<Rightarrow> msg) \<Rightarrow> json \<Rightarrow> event list \<Rightarrow> bool" where
  "accepted ctx message payload tr \<longleftrightarrow> (\<exists>pre c d a.
     tr = pre @ [(CodecMarshal payload, c), (JsPublishMsg ctx (message d) None, a)] \<and>
     a_bytes c = Inr d \<and> a_err a = None \<and> requests is_publish pre = [])"

lemma accepted_more:
  "requests is_publish tr' = [] \<Longrightarrow> accepted ctx message payload tr \<Longrightarrow> accepted ctx message payload (tr' @ tr)"
  unfolding accepted_def by (metis append_assoc append_Nil requests_simps(3))

lemma accepted_Cons:
  "\<not> is_publish q \<Longrightarrow> accepted ctx message payload tr \<Longrightarrow> accepted ctx message payload ((q, a) # tr)"
  using accepted_more [of "[(q, a)]" ctx message payload tr] by simp

lemma publishVerified_accepted:
  "replay (publishVerified hn ids ctx b payload) tr = Some None \<Longrightarrow> accepted ctx (durableMsg hn ids ctx b) payload tr"
  by (auto simp: publishVerified_def trace_simps accepted_def durableMsg_def)

text \<open>A trace that contains a provisioning of the binding.\<close>

definition provisions :: "DurableBinding \<Rightarrow> event list \<Rightarrow> bool" where
  "provisions b tr \<longleftrightarrow> (\<exists>pre mid post. tr = pre @ mid @ post \<and> infra_provisioned b mid)"

lemma provisions_append: "infra_provisioned b tr \<Longrightarrow> provisions b (tr @ tr')"
  unfolding provisions_def by (metis append_Nil)

lemma provisions_Cons: "provisions b tr \<Longrightarrow> provisions b (e # tr)"
  unfolding provisions_def by (metis append_Cons)

lemma ensureDurableInfra_stage:
  "replay (ensureDurableInfra modifier b) tr = Some None \<Longrightarrow>
     (keeps_subjects modifier \<longrightarrow> infra_provisioned b tr) \<and> requests is_publish tr = []"
  by (simp add: ensureDurableInfra_provisioned ensureDurableInfra_unpublished)

text \<open>The calls that look at a stream or change one.\<close>

fun is_provisioning :: "request \<Rightarrow> bool" where
  "is_provisioning (JsStreamInfo s) = True" | "is_provisioning (JsAddStream c) = True"
| "is_provisioning (JsUpdateStream c) = True" | "is_provisioning _ = False"

lemma PublishDurable_cached:
  assumes "replay (PublishDurable hn ids modifier ctx b payload verified) tr = Some (err, verified')"
    and "cacheKey b \<in> verified"
  shows "requests is_provisioning tr = []"
  using assms unfolding PublishDurable_def publishVerified_def
  by (auto simp: trace_simps split: option.splits)

lemmas durable_stages = accepted_Cons accepted_more provisions_append provisions_Cons


definition samplePublishing :: "event list" where
  "samplePublishing = [(Conn (EnsureConnection Background), answer0), (Conn EnsureJetStream, answer0),
     stream_info ''ORDERS'' [''orders.new''], stream_info ''ORDERS_DLQ'' [''orders.dead''],
     (CodecMarshal JNull, answer0\<lparr>a_bytes := Inr ''null''\<rparr>),
     (JsPublishMsg Background (durableMsg sampleNames id_of Background sampleDurable ''null'') None, answer0)]"

lemma samplePublishing_run:
  "replay (PublishDurable sampleNames id_of None Background sampleDurable JNull {}) samplePublishing =
     Some (None, {''ORDERS:orders.new''})"
proof -
  have "subject_configured [''orders.new''] ''orders.new''" "subject_configured [''orders.dead''] ''orders.dead''"
    by (simp_all add: subject_configured_def)
  then show ?thesis
    by (simp add: PublishDurable_def samplePublishing_def stream_info_def replay.simps ensureDurableInfra_def
        ensureStream_def numeral_3_eq_3 streamConfig_def publishVerified_def durableMsg_def cacheKey_def)
     (simp add: sampleDurable_def DurableWork_def)
qed


text \<open>
  The key of the cache is the stream and subject alone.  After a success for one binding, a second
  binding with the same stream and subject is published without looking at any stream, whatever its
  dead-letter subject is: no stream is made to take its dead letters.
\<close>

lemma PublishDurable_dead_letters_unprovisioned:
  assumes "replay (PublishDurable hn ids modifier ctx b payload verified) tr = Some (None, verified')"
    and "db_Stream b' = db_Stream b" "db_Subject b' = db_Subject b"
    and "replay (PublishDurable hn ids modifier ctx' b' payload' verified') tr' = Some (err, verified'')"
  shows "requests is_provisioning tr' = []"
proof -
  have "cacheKey b' \<in> verified'"
  proof (cases "validateDurableBinding b")
    case None
    then show ?thesis using assms(1-3) unfolding PublishDurable_def
      by (auto simp: trace_simps cacheKey_def split: if_splits)
  qed (use assms(1) in \<open>simp add: PublishDurable_def trace_simps\<close>)
  with assms(4) show ?thesis by (rule PublishDurable_cached)
qed

section \<open>What a request and its reply guarantee\<close>

lemma topicReply_simps [simp]:
  "m_Data (topicReply hn rid to r) = fst r" "m_Subject (topicReply hn rid to r) = to"
  by (simp_all add: topicReply_def NewMsg_def Let_def)

lemma topicReply_marker [simp]:
  "hn_RequestID hn \<noteq> HeaderErrorMarker \<Longrightarrow>
     header_Get (m_Header (topicReply hn rid to r)) HeaderErrorMarker = ''1'' \<longleftrightarrow> snd r \<noteq> None"
  by (auto simp: topicReply_def NewMsg_def Let_def header_Get_Set header_Get_def)

lemma topicResult_well:
  assumes "store_ok store" and "replay (topicResult store meta reqCtx m dc) tr = Some (Returned (d, None))"
  shows "length (requests is_exec tr) \<le> 1 \<and> ran_well tr"
proof (cases "case meta of None \<Rightarrow> False | Some cfg \<Rightarrow> ic_Enabled cfg")
  case True
  then show ?thesis using assms(2) executeWithIdempotency_well [OF assms(1)]
    by (auto simp: topicResult_def)
next
  case False
  then show ?thesis using assms
    by (auto simp: topicResult_def executeDecoded_def trace_simps replay_case_outcome dest!: encodeError_trace)
qed

lemma Request_outcome:
  assumes "replay (Request_io hn ids ctx subject payload wants) tr = Some out"
    and "(Conn (NcRequest c q), b) \<in> set tr" and "a_msg b = Inr res"
  shows "(header_Get (m_Header res) HeaderErrorMarker = ''1'' \<longrightarrow> isl out) \<and>
    (header_Get (m_Header res) HeaderErrorMarker \<noteq> ''1'' \<and> \<not> wants \<longrightarrow> out = Inr None)"
  using assms unfolding Request_io_def
  by (auto simp: trace_simps split: sum.splits prod.splits bool.splits option.splits if_splits)

lemma handleTopicMessage_reply:
  assumes "replay (handleTopicMessage hn store ctx timeout meta False m) tr = Some (Returned ())" and "m_Reply m \<noteq> []"
  shows "\<exists>pre reqCtx rid r a. tr = pre @ [(Conn (NcPublishMsg (topicReply hn rid (m_Reply m) r)), a)] \<and>
    replay (topicResult store meta reqCtx m (message_decoder m)) pre = Some (Returned r)"
  using assms
  by (simp add: handleTopicMessage_def case_prod_beta Let_def trace_simps replay_case_outcome del: append.simps) blast

text \<open>
  C8: A failure is never reported as a success across a request and its reply. Handling a request
  publishes one reply, as the last call and to the address the request names. When a requester
  that receives this reply returns no error, the run on the other side ended without an error, and
  an action that ran there, at most once, returned a value. A requester that waits for no value and
  receives the reply of a run without an error returns none.
\<close>

theorem request_reply_faithful:
  assumes served: "replay (handleTopicMessage hn store sctx timeout meta False m) trs = Some (Returned ())"
    and "store_ok store" and "m_Reply m \<noteq> []" and "hn_RequestID hn \<noteq> HeaderErrorMarker"
    and requested: "replay (Request_io hn ids ctx subject payload wants) trc = Some out"
    and wire: "last trs = (Conn (NcPublishMsg res), a)" "(Conn (NcRequest ctx q), b) \<in> set trc" "a_msg b = Inr res"
  shows "\<exists>pre reqCtx r. trs = pre @ [(Conn (NcPublishMsg res), a)] \<and>
    replay (topicResult store meta reqCtx m (message_decoder m)) pre = Some (Returned r) \<and>
    m_Subject res = m_Reply m \<and> m_Data res = fst r \<and>
    (\<not> isl out \<longrightarrow> snd r = None \<and> length (requests is_exec pre) \<le> 1 \<and> ran_well pre) \<and>
    (snd r = None \<and> \<not> wants \<longrightarrow> out = Inr None)"
proof -
  obtain pre reqCtx rid r a' where trs: "trs = pre @ [(Conn (NcPublishMsg (topicReply hn rid (m_Reply m) r)), a')]"
    and r: "replay (topicResult store meta reqCtx m (message_decoder m)) pre = Some (Returned r)"
    using handleTopicMessage_reply [OF served assms(3)] by blast
  with wire(1) have res: "res = topicReply hn rid (m_Reply m) r" and "a' = a" by auto
  have "\<not> isl out \<longrightarrow> snd r = None" and "snd r = None \<and> \<not> wants \<longrightarrow> out = Inr None"
    using Request_outcome [OF requested wire(2,3)] assms(4) by (auto simp: res)
  moreover have "snd r = None \<longrightarrow> length (requests is_exec pre) \<le> 1 \<and> ran_well pre"
    using topicResult_well [OF assms(2), of meta reqCtx m "message_decoder m" pre "fst r"] r by (metis surjective_pairing)
  ultimately show ?thesis using trs r res \<open>a' = a\<close>
    by (intro exI [of _ pre] exI [of _ reqCtx] exI [of _ r]) simp
qed

definition sampleRequest :: msg where
  "sampleRequest = sampleMsg\<lparr>m_Reply := ''inbox''\<rparr>"

definition sampleReply :: msg where
  "sampleReply = topicReply sampleNames [] ''inbox'' (''null'', None)"

definition sampleServing :: "event list" where
  "sampleServing = [(ExecuteDecoded (Scoped Background) (message_decoder sampleRequest), answer0), (ExecuteFinish, answer0),
     (CodecMarshal JNull, answer0\<lparr>a_bytes := Inr ''null''\<rparr>), (Conn (NcPublishMsg sampleReply), answer0)]"

definition sampleRequesting :: "event list" where
  "sampleRequesting = [(Conn (EnsureConnection Background), answer0), (CodecMarshal JNull, answer0),
     (Conn (NcRequest Background (NewMsg ''orders.new'')), answer0\<lparr>a_msg := Inr sampleReply\<rparr>)]"

lemma sampleServing_run:
  "replay (handleTopicMessage sampleNames sampleStore Background 0 None False sampleRequest) sampleServing = Some (Returned ())"
  by (simp add: handleTopicMessage_def topicResult_def sampleServing_def sampleRequest_def sampleMsg_def extractContextHeaders_def
      executeDecoded_def replay.simps sampleReply_def)

lemma sampleRequesting_run:
  "replay (Request_io sampleNames id_of Background ''orders.new'' JNull False) sampleRequesting = Some (Inr None)"
  by (simp add: Request_io_def sampleRequesting_def injectContextHeaders_def NewMsg_def replay.simps sampleReply_def
      topicReply_def header_Get_def)

theorem request_reply_faithful_witness:
  "\<exists>pre reqCtx r. sampleServing = pre @ [(Conn (NcPublishMsg sampleReply), answer0)] \<and>
    replay (topicResult sampleStore None reqCtx sampleRequest (message_decoder sampleRequest)) pre = Some (Returned r) \<and>
    m_Subject sampleReply = m_Reply sampleRequest \<and> snd r = None \<and> ran_well pre"
proof -
  have "last sampleServing = (Conn (NcPublishMsg sampleReply), answer0)" by (simp add: sampleServing_def)
  moreover have "(Conn (NcRequest Background (NewMsg ''orders.new'')), answer0\<lparr>a_msg := Inr sampleReply\<rparr>) \<in> set sampleRequesting"
    by (simp add: sampleRequesting_def)
  moreover have "m_Reply sampleRequest \<noteq> []" "hn_RequestID sampleNames \<noteq> HeaderErrorMarker"
    by (simp_all add: sampleRequest_def sampleNames_def HeaderErrorMarker_def)
  moreover have "\<not> isl (Inr None :: goerror + json option)" by simp
  moreover have "a_msg (answer0\<lparr>a_msg := Inr sampleReply\<rparr>) = Inr sampleReply" by simp
  ultimately show ?thesis
    using request_reply_faithful [OF sampleServing_run sample_store _ _ sampleRequesting_run] by blast
qed

end
