(* ===== verification/Micro.thy ===== *)
theory Micro
  imports Messaging Objects
begin

text \<open>
  Actions as services of the NATS micro framework: \<open>src/tnats/micro.go\<close>, and the bindings an action
  may carry.
\<close>

section \<open>Service bindings\<close>

record ServiceBinding =
  sb_Service :: string
  sb_Version :: string
  sb_Description :: string
  sb_Endpoint :: string
  sb_Subject :: string
  sb_QueueGroup :: string
  sb_Timeout :: duration
  sb_Metadata :: "(string \<times> string) list"

definition ServiceBinding_String :: "ServiceBinding \<Rightarrow> string" where
  "ServiceBinding_String b = ''nats micro: '' @ sb_Service b @ ''@'' @ sb_Version b @ '' -> '' @ sb_Subject b"

definition Service :: "string \<Rightarrow> string \<Rightarrow> string \<Rightarrow> string \<Rightarrow> ServiceBinding" where
  "Service service version endpoint subject =
     \<lparr>sb_Service = service, sb_Version = version, sb_Description = ''Nexss action '' @ endpoint, sb_Endpoint = endpoint,
      sb_Subject = subject, sb_QueueGroup = [], sb_Timeout = 0, sb_Metadata = []\<rparr>"

definition Service_WithQueueGroup :: "ServiceBinding \<Rightarrow> string \<Rightarrow> ServiceBinding" where
  "Service_WithQueueGroup b qg = b\<lparr>sb_QueueGroup := qg\<rparr>"

definition Service_WithTimeout :: "ServiceBinding \<Rightarrow> duration \<Rightarrow> ServiceBinding" where
  "Service_WithTimeout b d = b\<lparr>sb_Timeout := d\<rparr>"

definition Service_WithMetadata :: "ServiceBinding \<Rightarrow> (string \<times> string) list \<Rightarrow> ServiceBinding" where
  "Service_WithMetadata b md = b\<lparr>sb_Metadata := md\<rparr>"

text \<open>
  The bindings of an action by their Go type: those of this module, the invalid ones of the flow
  library, and those of other transports.  An action that is not executable has no \<open>aa_Exec\<close>.
\<close>

datatype binding =
    IsTopic TopicBinding | IsRequest RequestBinding | IsKV KVBinding | IsDurable DurableBinding
  | IsConsumer ConsumerBinding | IsObject ObjectBinding | IsService ServiceBinding
  | IsInvalid string | IsOther string

record any_action =
  aa_Exec :: "nat option"
  aa_Describe :: "(string \<times> IdempotencyConfig) option"
  aa_Bindings :: "binding list"

section \<open>Mounting services\<close>

record microEndpoint =
  me_Binding :: ServiceBinding
  me_Exec :: nat
  me_Meta :: "(string \<times> IdempotencyConfig) option"

type_synonym micro_groups = "(string \<rightharpoonup> microEndpoint list) \<times> string list"

fun groupBindings :: "nat \<Rightarrow> (string \<times> IdempotencyConfig) option \<Rightarrow> binding list \<Rightarrow> micro_groups \<Rightarrow> micro_groups" where
  "groupBindings exec meta [] g = g"
| "groupBindings exec meta (IsService sb # bs) (groups, order) =
    (let order = (if groups (sb_Service sb) = None then order @ [sb_Service sb] else order);
         eps = (case groups (sb_Service sb) of None \<Rightarrow> [] | Some eps \<Rightarrow> eps);
         groups = groups(sb_Service sb \<mapsto> eps @ [\<lparr>me_Binding = sb, me_Exec = exec, me_Meta = meta\<rparr>])
     in groupBindings exec meta bs (groups, order))"
| "groupBindings exec meta (_ # bs) g = groupBindings exec meta bs g"

fun groupActions :: "any_action list \<Rightarrow> micro_groups \<Rightarrow> micro_groups" where
  "groupActions [] g = g"
| "groupActions (act # acts) g = groupActions acts
    (case aa_Exec act of None \<Rightarrow> g | Some exec \<Rightarrow> groupBindings exec (aa_Describe act) (aa_Bindings act) g)"

definition endpointOpts :: "ServiceBinding \<Rightarrow> endpoint_opt list" where
  "endpointOpts b = EndpointSubject (sb_Subject b)
     # (if sb_QueueGroup b \<noteq> [] then [EndpointQueueGroup (sb_QueueGroup b)] else [])
     @ (if length (sb_Metadata b) > 0 then [EndpointMetadata (sb_Metadata b)] else [])"

definition registerMicroEndpoint :: "string \<Rightarrow> microEndpoint \<Rightarrow> goerror option io" where
  "registerMicroEndpoint svc ep =
     svc_AddEndpoint svc (sb_Endpoint (me_Binding ep)) (me_Exec ep) (endpointOpts (me_Binding ep)) (\<lambda>err. Ret err)"

fun registerEndpoints :: "string \<Rightarrow> microEndpoint list \<Rightarrow> goerror option io" where
  "registerEndpoints svc [] = Ret None"
| "registerEndpoints svc (ep # eps) = bind (registerMicroEndpoint svc ep) (\<lambda>err. case err of
      Some e \<Rightarrow> svc_Stop svc (\<lambda>_. Ret (Some e))
    | None \<Rightarrow> registerEndpoints svc eps)"

definition serviceConfig :: "ServiceBinding \<Rightarrow> micro_Config" where
  "serviceConfig head = \<lparr>mc_Name = sb_Service head, mc_Version = sb_Version head,
     mc_Description = sb_Description head, mc_Metadata = sb_Metadata head\<rparr>"

text \<open>The services are started in the order in which their names appear; the last argument is \<open>t.microServices\<close>.\<close>

fun startServices :: "(string \<rightharpoonup> microEndpoint list) \<Rightarrow> string list \<Rightarrow> string list \<Rightarrow> (goerror option \<times> string list) io" where
  "startServices groups [] services = Ret (None, services)"
| "startServices groups (name # names) services =
    (let eps = the (groups name); head = me_Binding (hd eps)
     in micro_AddService (serviceConfig head) (\<lambda>err. case err of
          Some e \<Rightarrow> Ret (Some (MapErr e), services)
        | None \<Rightarrow> bind (registerEndpoints (sb_Service head) eps) (\<lambda>err. case err of
            Some e \<Rightarrow> Ret (Some e, services)
          | None \<Rightarrow> startServices groups names (services @ [sb_Service head]))))"

definition mountMicroServices :: "any_action list \<Rightarrow> string list \<Rightarrow> (goerror option \<times> string list) io" where
  "mountMicroServices actions services =
    (let (groups, order) = groupActions actions (Map.empty, []) in startServices groups order services)"

section \<open>Handling a request\<close>

text \<open>
  The handler of an endpoint; \<open>closing\<close> is the answer of \<open>startWorker\<close>, \<open>from\<close> gives the kind and
  text of \<open>xerr.From\<close> for an error and \<open>kindText\<close> the text of a kind.
\<close>

definition microContext :: "header_names \<Rightarrow> ctx \<Rightarrow> duration \<Rightarrow> header option \<Rightarrow> ctx" where
  "microContext hn ctx timeout h =
    (let reqID = header_Get h (hn_RequestID hn);
         reqCtx = (if reqID \<noteq> [] then WithID (Scoped ctx) RequestID reqID else Scoped ctx);
         traceID = header_Get h (hn_TraceID hn);
         reqCtx = (if traceID \<noteq> [] then WithTrace reqCtx traceID (header_Get h (hn_SpanID hn)) else reqCtx)
     in if timeout > 0 then WithTimeout reqCtx timeout else reqCtx)"

definition handleMicroRequest ::
  "header_names \<Rightarrow> (kind \<Rightarrow> string) \<Rightarrow> (goerror \<Rightarrow> kind \<times> string) \<Rightarrow> ctx \<Rightarrow> ServiceBinding \<Rightarrow> bool \<Rightarrow> msg \<Rightarrow> unit outcome io" where
  "handleMicroRequest hn kindText from ctx b closing req =
    (if closing then Ret (Returned ())
     else bind (executeDecoded (microContext hn ctx (sb_Timeout b) (m_Header req)) (message_decoder req)) (\<lambda>r. case r of
         Panicked \<Rightarrow> Ret Panicked
       | Returned (Inl execErr) \<Rightarrow>
           Call (Micro (ReqError (kindText (fst (from execErr))) (snd (from execErr)))) (\<lambda>_. Ret (Returned ()))
       | Returned (Inr res) \<Rightarrow> codec_Marshal res (\<lambda>m. case m of
           Inl e \<Rightarrow> Call (Micro (ReqError (kindText KindInternal) ''response marshal failed'')) (\<lambda>_. Ret (Returned ()))
         | Inr payload \<Rightarrow> Call (Micro (ReqRespond payload)) (\<lambda>_. Ret (Returned ())))))"

section \<open>What mounting guarantees\<close>

text \<open>The endpoints the actions ask for, in order, and the grouping of them by service.\<close>

definition endpoint_of :: "nat \<Rightarrow> (string \<times> IdempotencyConfig) option \<Rightarrow> binding \<Rightarrow> microEndpoint list" where
  "endpoint_of ex meta b = (case b of IsService sb \<Rightarrow> [\<lparr>me_Binding = sb, me_Exec = ex, me_Meta = meta\<rparr>] | _ \<Rightarrow> [])"

definition wanted_endpoints :: "any_action list \<Rightarrow> microEndpoint list" where
  "wanted_endpoints actions = concat (map (\<lambda>act. case aa_Exec act of None \<Rightarrow> []
     | Some ex \<Rightarrow> concat (map (endpoint_of ex (aa_Describe act)) (aa_Bindings act))) actions)"

abbreviation service_of :: "microEndpoint \<Rightarrow> string" where
  "service_of ep \<equiv> sb_Service (me_Binding ep)"

definition grouped :: "microEndpoint list \<Rightarrow> micro_groups \<Rightarrow> bool" where
  "grouped eps g \<longleftrightarrow> distinct (snd g) \<and> set (snd g) = service_of ` set eps \<and>
     (\<forall>s. fst g s = (if s \<in> service_of ` set eps then Some (filter (\<lambda>ep. service_of ep = s) eps) else None))"

lemma grouped_add:
  assumes "grouped eps (groups, order)" and "service_of ep = s"
  shows "grouped (eps @ [ep]) (groups(s \<mapsto> (case groups s of None \<Rightarrow> [] | Some es \<Rightarrow> es) @ [ep]),
    if groups s = None then order @ [s] else order)"
  using assms by (auto simp: grouped_def filter_empty_conv) (metis image_eqI)

lemma groupBindings_grouped:
  "grouped eps g \<Longrightarrow> grouped (eps @ concat (map (endpoint_of ex meta) bs)) (groupBindings ex meta bs g)"
proof (induction ex meta bs g arbitrary: eps rule: groupBindings.induct)
  case (2 ex meta sb bs groups order)
  let ?ep = "\<lparr>me_Binding = sb, me_Exec = ex, me_Meta = meta\<rparr>"
  have "grouped (eps @ [?ep]) (groups(sb_Service sb \<mapsto> (case groups (sb_Service sb) of None \<Rightarrow> [] | Some es \<Rightarrow> es) @ [?ep]),
    if groups (sb_Service sb) = None then order @ [sb_Service sb] else order)"
    by (rule grouped_add [OF "2.prems"]) simp
  from "2.IH" [OF refl refl refl this] show ?case by (simp add: endpoint_of_def Let_def)
qed (simp_all add: endpoint_of_def)

lemma groupActions_grouped:
  "grouped eps g \<Longrightarrow> grouped (eps @ wanted_endpoints acts) (groupActions acts g)"
proof (induction acts g arbitrary: eps rule: groupActions.induct)
  case (2 act acts g)
  show ?case
  proof (cases "aa_Exec act")
    case (Some ex)
    with "2.IH" groupBindings_grouped [OF "2.prems", of ex "aa_Describe act" "aa_Bindings act"]
    show ?thesis by (fastforce simp: wanted_endpoints_def)
  qed (use 2 in \<open>simp add: wanted_endpoints_def\<close>)
qed (simp add: wanted_endpoints_def)

lemma groups_of_actions: "grouped (wanted_endpoints acts) (groupActions acts (Map.empty, []))"
  using groupActions_grouped [of "[]" "(Map.empty, [])" acts] by (simp add: grouped_def)

text \<open>The endpoints added in a trace, and the names of the services that were accepted.\<close>

type_synonym registration = "string \<times> string \<times> nat \<times> endpoint_opt list"

definition registration_of :: "microEndpoint \<Rightarrow> registration" where
  "registration_of ep = (service_of ep, sb_Endpoint (me_Binding ep), me_Exec ep, endpointOpts (me_Binding ep))"

definition added :: "event list \<Rightarrow> registration list" where
  "added tr = concat (map (\<lambda>(q, a). case q of Micro (MicroAddEndpoint s n ex opts) \<Rightarrow> [(s, n, ex, opts)] | _ \<Rightarrow> []) tr)"

definition accepted_services :: "event list \<Rightarrow> string list" where
  "accepted_services tr = concat (map (\<lambda>(q, a). case q of
     Micro (MicroAddService cfg) \<Rightarrow> (if a_err a = None then [mc_Name cfg] else []) | _ \<Rightarrow> []) tr)"

lemma added_simps [simp]:
  "added [] = []" "added (tr1 @ tr2) = added tr1 @ added tr2"
  "added ((Micro (MicroAddEndpoint s n ex opts), a) # tr) = (s, n, ex, opts) # added tr"
  "added ((Micro (MicroAddService cfg), a) # tr) = added tr" "added ((Micro (MicroStop s), a) # tr) = added tr"
  by (simp_all add: added_def)

lemma accepted_services_simps [simp]:
  "accepted_services [] = []" "accepted_services (tr1 @ tr2) = accepted_services tr1 @ accepted_services tr2"
  "accepted_services ((Micro (MicroAddEndpoint s n ex opts), a) # tr) = accepted_services tr"
  "accepted_services ((Micro (MicroAddService cfg), a) # tr) =
     (if a_err a = None then mc_Name cfg # accepted_services tr else accepted_services tr)"
  "accepted_services ((Micro (MicroStop s), a) # tr) = accepted_services tr"
  by (simp_all add: accepted_services_def)

text \<open>A trace that ends with the given service stopped.\<close>

definition ends_stopped :: "string \<Rightarrow> event list \<Rightarrow> bool" where
  "ends_stopped svc tr \<longleftrightarrow> (\<exists>pre a. tr = pre @ [(Micro (MicroStop svc), a)])"

lemma ends_stoppedI [simp]: "ends_stopped svc [(Micro (MicroStop svc), a)]"
  by (simp add: ends_stopped_def)

lemma ends_stopped_more [simp]:
  "ends_stopped svc tr \<Longrightarrow> ends_stopped svc (e # tr)" "ends_stopped svc tr \<Longrightarrow> ends_stopped svc (tr' @ tr)"
  unfolding ends_stopped_def by (metis append_Cons, metis append_assoc)

lemma registerEndpoints_trace:
  assumes "replay (registerEndpoints svc eps) tr = Some r" and "\<forall>ep \<in> set eps. service_of ep = svc"
  shows "accepted_services tr = [] \<and> (r = None \<longrightarrow> added tr = map registration_of eps) \<and> (r \<noteq> None \<longrightarrow> ends_stopped svc tr)"
  using assms
  by (induction svc eps arbitrary: tr rule: registerEndpoints.induct)
     (auto simp: trace_simps registerMicroEndpoint_def registration_of_def)

lemma startServices_trace:
  assumes "replay (startServices groups names services) tr = Some (err, services')"
    and "\<forall>s \<in> set names. \<exists>eps. groups s = Some eps \<and> eps \<noteq> [] \<and> (\<forall>ep \<in> set eps. service_of ep = s)"
  shows "\<exists>new. services' = services @ new \<and>
    (err = None \<longrightarrow> new = names \<and> accepted_services tr = names \<and>
       added tr = map registration_of (concat (map (\<lambda>s. the (groups s)) names))) \<and>
    (err \<noteq> None \<longrightarrow> accepted_services tr = new \<or> (\<exists>s. accepted_services tr = new @ [s] \<and> ends_stopped s tr))"
  using assms
proof (induction names arbitrary: services tr)
  case (Cons s names)
  then obtain eps where eps: "groups s = Some eps" "eps \<noteq> []" "\<forall>ep \<in> set eps. service_of ep = s" by auto
  then have hd: "service_of (hd eps) = s" by simp
  let ?add = "Micro (MicroAddService (serviceConfig (me_Binding (hd eps))))"
  from Cons.prems(1) eps(1) hd
  consider (refused) a where "tr = [(?add, a)]" "a_err a \<noteq> None" "err \<noteq> None" "services' = services"
    | (failed) a tr1 where "tr = (?add, a) # tr1" "a_err a = None" "err \<noteq> None" "services' = services"
      "replay (registerEndpoints s eps) tr1 = Some err"
    | (started) a tr1 tr2 where "tr = (?add, a) # tr1 @ tr2" "a_err a = None"
      "replay (registerEndpoints s eps) tr1 = Some None"
      "replay (startServices groups names (services @ [s])) tr2 = Some (err, services')"
    by (auto simp: trace_simps Let_def)
  then show ?case
  proof cases
    case failed
    then show ?thesis using registerEndpoints_trace [OF failed(5) eps(3)] hd by (auto simp: serviceConfig_def)
  next
    case started
    from Cons.IH [OF started(4)] Cons.prems(2) obtain new where "services' = (services @ [s]) @ new"
      "err = None \<longrightarrow> new = names \<and> accepted_services tr2 = names \<and>
         added tr2 = map registration_of (concat (map (\<lambda>s. the (groups s)) names))"
      "err \<noteq> None \<longrightarrow> accepted_services tr2 = new \<or> (\<exists>s. accepted_services tr2 = new @ [s] \<and> ends_stopped s tr2)"
      by auto
    then show ?thesis using started(1,2) registerEndpoints_trace [OF started(3) eps(3)] hd eps(1)
      by (intro exI [of _ "s # new"]) (auto simp: serviceConfig_def)
  qed auto
qed (simp add: trace_simps)

lemma filter_groups:
  "distinct ks \<Longrightarrow> filter (\<lambda>x. f x = k) (concat (map (\<lambda>k'. filter (\<lambda>x. f x = k') xs) ks)) =
     (if k \<in> set ks then filter (\<lambda>x. f x = k) xs else [])"
  by (induction ks) (auto simp: filter_empty_conv intro: filter_cong)

lemma filter_registrations:
  "filter (\<lambda>r. fst r = s) (map registration_of eps) = map registration_of (filter (\<lambda>ep. service_of ep = s) eps)"
  by (induction eps) (auto simp: registration_of_def)

text \<open>
  C15: Mounting services is complete and leaks nothing. On success there is one service per name the
  executable actions use, all of them kept, and to each exactly the endpoints of its bindings are
  added, once and in the order of the actions, with their subject, queue group and metadata and the
  action they belong to. On failure every service that was accepted is kept for the shutdown or was
  stopped by the last call.
\<close>

theorem mountMicroServices_complete:
  assumes "replay (mountMicroServices actions services) tr = Some (err, services')"
  shows "\<exists>new. services' = services @ new \<and>
    (err = None \<longrightarrow> accepted_services tr = new \<and> distinct new \<and> set new = service_of ` set (wanted_endpoints actions) \<and>
       (\<forall>s. filter (\<lambda>r. fst r = s) (added tr) =
          map registration_of (filter (\<lambda>ep. service_of ep = s) (wanted_endpoints actions)))) \<and>
    (err \<noteq> None \<longrightarrow> accepted_services tr = new \<or> (\<exists>s. accepted_services tr = new @ [s] \<and> ends_stopped s tr))"
proof -
  let ?eps = "wanted_endpoints actions"
  obtain groups order where g: "groupActions actions (Map.empty, []) = (groups, order)" by fastforce
  with groups_of_actions [of actions] have "distinct order" and set: "set order = service_of ` set ?eps"
    and groups: "\<And>s. s \<in> set order \<Longrightarrow> groups s = Some (filter (\<lambda>ep. service_of ep = s) ?eps)"
    by (auto simp: grouped_def)
  have "replay (startServices groups order services) tr = Some (err, services')"
    using assms by (simp add: mountMicroServices_def g)
  moreover have "\<forall>s \<in> set order. \<exists>eps. groups s = Some eps \<and> eps \<noteq> [] \<and> (\<forall>ep \<in> set eps. service_of ep = s)"
    using set groups by (fastforce simp: filter_empty_conv)
  moreover have all: "map (\<lambda>s. the (groups s)) order = map (\<lambda>s. filter (\<lambda>ep. service_of ep = s) ?eps) order"
    using groups by simp
  moreover have "filter (\<lambda>r. fst r = s) (map registration_of (concat (map (\<lambda>s. the (groups s)) order))) =
    map registration_of (filter (\<lambda>ep. service_of ep = s) ?eps)" for s
    unfolding all filter_registrations filter_groups [OF \<open>distinct order\<close>]
    using set by (metis (mono_tags, lifting) filter_False image_eqI)
  ultimately show ?thesis
    using startServices_trace [of groups order services tr err services'] \<open>distinct order\<close> set by metis
qed

definition twoServices :: "any_action list" where
  "twoServices =
    [\<lparr>aa_Exec = Some 1, aa_Describe = None, aa_Bindings = [IsService (Service ''a'' ''1'' ''x'' ''a.x''), IsService (Service ''b'' ''1'' ''y'' ''b.y'')]\<rparr>,
     \<lparr>aa_Exec = Some 2, aa_Describe = None, aa_Bindings = [IsService (Service ''a'' ''2'' ''z'' ''a.z'')]\<rparr>]"

definition mountTrace :: "event list" where
  "mountTrace = map (\<lambda>q. (Micro q, answer0))
    [MicroAddService (serviceConfig (Service ''a'' ''1'' ''x'' ''a.x'')), MicroAddEndpoint ''a'' ''x'' 1 [EndpointSubject ''a.x''],
     MicroAddEndpoint ''a'' ''z'' 2 [EndpointSubject ''a.z''],
     MicroAddService (serviceConfig (Service ''b'' ''1'' ''y'' ''b.y'')), MicroAddEndpoint ''b'' ''y'' 1 [EndpointSubject ''b.y'']]"

theorem mountMicroServices_complete_witness:
  "distinct [''a'', ''b''] \<and> filter (\<lambda>r. fst r = ''a'') (added mountTrace) =
     map registration_of (filter (\<lambda>ep. service_of ep = ''a'') (wanted_endpoints twoServices))"
proof -
  have "replay (mountMicroServices twoServices []) mountTrace = Some (None, [''a'', ''b''])"
    by (simp add: mountMicroServices_def twoServices_def mountTrace_def replay.simps registerMicroEndpoint_def endpointOpts_def
        Service_def Let_def)
  from mountMicroServices_complete [OF this] show ?thesis by simp
qed

text \<open>
  The handler of an endpoint runs the action and answers the request, and calls nothing else: the
  idempotency configuration that \<open>me_Meta\<close> carries has no effect.
\<close>

lemma handleMicroRequest_calls:
  "only_calls (\<lambda>q. is_exec q \<or> q = ExecuteFinish \<or> (\<exists>v. q = CodecMarshal v) \<or> (\<exists>r. q = Micro r))
     (handleMicroRequest hn kindText from ctx b closing req)"
  by (auto simp: handleMicroRequest_def executeDecoded_def split: outcome.split sum.split)

end
