(* ===== verification/Settings.thy ===== *)
theory Settings
  imports KV_Client Streams
begin

text \<open>
  Building and checking a transport: \<open>New\<close> and the options of \<open>src/tnats/tnats.go\<close>,
  \<open>src/tnats/auth.go\<close> and \<open>src/tnats/embedded.go\<close>, the embedded server, and the validation of
  \<open>src/tnats/tnats_production.go\<close>.
\<close>

section \<open>Options\<close>

text \<open>
  The options of the client that the transport collects, by the library call that makes them.  Codecs
  and stores are opaque values, named by numbers.
\<close>

datatype nats_option =
    NatsName string | NatsUserInfo string string | NatsToken string | NatsNkey string
  | NatsSeedFunc nat | NatsUserCredentials string | NatsRootCAs string | NatsClientCert string string
  | NatsSecure | NatsOther nat

record ProductionSecurity =
  ps_CredentialsFile :: string
  ps_RootCAFile :: string
  ps_ClientCertFile :: string
  ps_ClientKeyFile :: string

record EmbeddedConfig =
  ec_Host :: string
  ec_Port :: int
  ec_JetStream :: bool
  ec_StoreDir :: string
  ec_ServerName :: string
  ec_MaxPayload :: int
  ec_MaxConnections :: int
  ec_Username :: string
  ec_Password :: string
  ec_Token :: string
  ec_Debug :: bool
  ec_Trace :: bool
  ec_NoLog :: bool
  ec_NoSigs :: bool
  ec_StartTimeout :: duration
  ec_Options :: "(server_Options \<Rightarrow> server_Options) option"

text \<open>The fields of \<open>Transport\<close> that options set.\<close>

record settings =
  st_url :: string
  st_codec :: nat
  st_idemStore :: nat
  st_options :: "nats_option list"
  st_productionSecurity :: "ProductionSecurity option"
  st_productionValidator :: bool
  st_streamConfigModifier :: "(StreamConfig \<Rightarrow> StreamConfig) option"
  st_fetchBatchSize :: int
  st_fetchTimeout :: duration
  st_embedded :: "EmbeddedConfig option"
  st_initErr :: "goerror option"

type_synonym transport_option = "settings \<Rightarrow> settings"

definition add_options :: "nats_option list \<Rightarrow> transport_option" where
  "add_options opts st = st\<lparr>st_options := st_options st @ opts\<rparr>"

definition WithCodec :: "nat option \<Rightarrow> transport_option" where
  "WithCodec c st = (case c of None \<Rightarrow> st | Some c \<Rightarrow> st\<lparr>st_codec := c\<rparr>)"

definition WithIdempotencyStore :: "nat option \<Rightarrow> transport_option" where
  "WithIdempotencyStore s st = (case s of None \<Rightarrow> st | Some s \<Rightarrow> st\<lparr>st_idemStore := s\<rparr>)"

definition WithNATSOptions :: "nats_option list \<Rightarrow> transport_option" where
  "WithNATSOptions options = add_options options"

definition WithFetchBatch :: "int \<Rightarrow> duration \<Rightarrow> transport_option" where
  "WithFetchBatch batchSize timeout st =
    (let st = (if batchSize > 0 then st\<lparr>st_fetchBatchSize := batchSize\<rparr> else st)
     in if timeout > 0 then st\<lparr>st_fetchTimeout := timeout\<rparr> else st)"

definition WithStreamConfigModifier :: "(StreamConfig \<Rightarrow> StreamConfig) option \<Rightarrow> transport_option" where
  "WithStreamConfigModifier modifier st = st\<lparr>st_streamConfigModifier := modifier\<rparr>"

definition WithProductionSecurity :: "ProductionSecurity \<Rightarrow> transport_option" where
  "WithProductionSecurity security st =
    add_options
      ((if ps_RootCAFile security \<noteq> [] then [NatsRootCAs (ps_RootCAFile security)] else [])
       @ (if ps_ClientCertFile security \<noteq> [] \<and> ps_ClientKeyFile security \<noteq> []
          then [NatsClientCert (ps_ClientCertFile security) (ps_ClientKeyFile security)] else [])
       @ (if ps_CredentialsFile security \<noteq> [] then [NatsUserCredentials (ps_CredentialsFile security)] else [])
       @ [NatsSecure])
      (st\<lparr>st_productionSecurity := Some security\<rparr>)"

definition WithProductionValidation :: "bool \<Rightarrow> transport_option" where
  "WithProductionValidation given st = st\<lparr>st_productionValidator := given\<rparr>"

definition WithUserInfo :: "string \<Rightarrow> string \<Rightarrow> transport_option" where
  "WithUserInfo username password = add_options [NatsUserInfo username password]"

definition WithToken :: "string \<Rightarrow> transport_option" where
  "WithToken token = add_options [NatsToken token]"

text \<open>The seed file is read by the client library, whose answer is the first argument.\<close>

definition WithNKeySeed :: "goerror + nats_option \<Rightarrow> string \<Rightarrow> transport_option" where
  "WithNKeySeed opt seedFile st = (case opt of
      Inl err \<Rightarrow> st\<lparr>st_initErr := Some (Wrapf (''tnats: invalid nkey seed file '' @ quoted seedFile) err)\<rparr>
    | Inr opt \<Rightarrow> add_options [opt] st)"

definition WithNKeySeedFunc :: "nat \<Rightarrow> transport_option" where
  "WithNKeySeedFunc seedFunc = add_options [NatsSeedFunc seedFunc]"

definition WithJWT :: "string \<Rightarrow> transport_option" where
  "WithJWT credsFile = add_options [NatsUserCredentials credsFile]"

definition WithTLS :: "string \<Rightarrow> string \<Rightarrow> string \<Rightarrow> transport_option" where
  "WithTLS rootCA clientCert clientKey = add_options
     ((if rootCA \<noteq> [] then [NatsRootCAs rootCA] else [])
      @ (if clientCert \<noteq> [] \<and> clientKey \<noteq> [] then [NatsClientCert clientCert clientKey] else [])
      @ [NatsSecure])"

definition joinNATSURLs :: "string list \<Rightarrow> string" where
  "joinNATSURLs urls = (case urls of [] \<Rightarrow> [] | u # us \<Rightarrow> u @ concat (map (\<lambda>u. '','' @ u) us))"

definition WithURLs :: "string \<Rightarrow> string list \<Rightarrow> transport_option" where
  "WithURLs primary extra st = st\<lparr>st_url := joinNATSURLs (primary # extra)\<rparr>"

definition applyDefaults :: "EmbeddedConfig \<Rightarrow> EmbeddedConfig" where
  "applyDefaults c =
    (let c = (if ec_Host c = [] then c\<lparr>ec_Host := ''127.0.0.1''\<rparr> else c);
         c = (if ec_ServerName c = [] then c\<lparr>ec_ServerName := ''nexss-embedded''\<rparr> else c);
         c = (if ec_StartTimeout c \<le> 0 then c\<lparr>ec_StartTimeout := 5 * Second\<rparr> else c)
     in if ec_MaxPayload c = 0 then c\<lparr>ec_MaxPayload := 8 * 1024 * 1024\<rparr> else c)"

definition WithEmbeddedServer :: "EmbeddedConfig \<Rightarrow> transport_option" where
  "WithEmbeddedServer cfg st = st\<lparr>st_embedded := Some (applyDefaults cfg)\<rparr>"

text \<open>A nil option is skipped; the default codec and store are those of other modules.\<close>

definition New_settings :: "nat \<Rightarrow> nat \<Rightarrow> string \<Rightarrow> transport_option option list \<Rightarrow> settings" where
  "New_settings defaultCodec memoryStore rawURL opts =
    fold (\<lambda>opt st. case opt of None \<Rightarrow> st | Some f \<Rightarrow> f st) opts
      \<lparr>st_url = rawURL, st_codec = defaultCodec, st_idemStore = memoryStore, st_options = [],
       st_productionSecurity = None, st_productionValidator = False, st_streamConfigModifier = None,
       st_fetchBatchSize = 1, st_fetchTimeout = Second, st_embedded = None, st_initErr = None\<rparr>"

section \<open>The embedded server\<close>

text \<open>On success the second result is the address of the server that now runs.\<close>

definition serverOptions :: "int \<Rightarrow> EmbeddedConfig \<Rightarrow> server_Options" where
  "serverOptions randomPort cfg =
    (let opts = \<lparr>so_Host = ec_Host cfg, so_Port = (if ec_Port cfg = 0 then randomPort else ec_Port cfg),
           so_ServerName = ec_ServerName cfg, so_JetStream = ec_JetStream cfg, so_StoreDir = ec_StoreDir cfg,
           so_MaxPayload = ec_MaxPayload cfg, so_MaxConn = ec_MaxConnections cfg, so_Username = ec_Username cfg,
           so_Password = ec_Password cfg, so_Authorization = ec_Token cfg, so_Debug = ec_Debug cfg,
           so_Trace = ec_Trace cfg, so_NoLog = ec_NoLog cfg, so_NoSigs = ec_NoSigs cfg, so_Rest = 0\<rparr>
     in case ec_Options cfg of None \<Rightarrow> opts | Some f \<Rightarrow> f opts)"

definition launchServer :: "int \<Rightarrow> EmbeddedConfig \<Rightarrow> (goerror option \<times> string option) io" where
  "launchServer randomPort cfg =
    Call (Run (NewServer (serverOptions randomPort cfg))) (\<lambda>a. case a_err a of
        Some e \<Rightarrow> Ret (Some (app KindInternal ''tnats: embedded server construction failed'' [e]), None)
      | None \<Rightarrow> Call (Run SrvStart) (\<lambda>_. Call (Run (SrvReadyForConnections (ec_StartTimeout cfg))) (\<lambda>a.
          if \<not> a_flag a then
            Call (Run SrvShutdown) (\<lambda>_. Call (Run SrvWaitForShutdown) (\<lambda>_.
              Ret (Some (app KindUnavailable ''tnats: embedded server startup timed out'' []), None)))
          else Call (Run SrvClientURL) (\<lambda>a. Ret (None, Some (case a_bytes a of Inl _ \<Rightarrow> [] | Inr url \<Rightarrow> url))))))"

definition startEmbedded :: "int \<Rightarrow> EmbeddedConfig option \<Rightarrow> (goerror option \<times> string option) io" where
  "startEmbedded randomPort embedded = (case embedded of
      None \<Rightarrow> Ret (None, None)
    | Some cfg \<Rightarrow>
        if ec_JetStream cfg \<and> ec_StoreDir cfg = []
        then Ret (Some (app KindBadRequest ''tnats: embedded JetStream requires StoreDir'' []), None)
        else if ec_JetStream cfg then
          Call (Run (OsMkdirAll (ec_StoreDir cfg))) (\<lambda>a. case a_err a of
              Some e \<Rightarrow> Ret (Some (app KindInternal ''tnats: cannot create jetstream store dir'' [e]), None)
            | None \<Rightarrow> launchServer randomPort cfg)
        else launchServer randomPort cfg)"

definition stopServer :: "bool \<Rightarrow> unit io" where
  "stopServer running = (if \<not> running then Ret ()
     else Call (Run SrvShutdown) (\<lambda>_. Call (Run SrvWaitForShutdown) (\<lambda>_. Ret ())))"

section \<open>Production validation\<close>

definition validateFile :: "string \<Rightarrow> string \<Rightarrow> goerror option io" where
  "validateFile label path =
    (if path = [] then Ret (Some (plain_error (''NATS '' @ label @ '' path is required'')))
     else Call (File (OsStat path)) (\<lambda>a. case a_err a of
         Some e \<Rightarrow> Ret (Some (Wrapf (''NATS '' @ label @ '' file'') e))
       | None \<Rightarrow>
           if a_flag a then Ret (Some (plain_error (''NATS '' @ label @ '' file '' @ quoted path @ '' is a directory'')))
           else Ret None))"

definition validateProductionFiles :: "ProductionSecurity \<Rightarrow> goerror option io" where
  "validateProductionFiles sec =
    bind (validateFile ''credentials'' (ps_CredentialsFile sec)) (\<lambda>err. case err of
        Some e \<Rightarrow> Ret (Some e)
      | None \<Rightarrow> bind (validateFile ''root CA'' (ps_RootCAFile sec)) (\<lambda>err. case err of
          Some e \<Rightarrow> Ret (Some e)
        | None \<Rightarrow>
            if ps_ClientCertFile sec \<noteq> [] \<or> ps_ClientKeyFile sec \<noteq> [] then
              bind (validateFile ''client cert'' (ps_ClientCertFile sec)) (\<lambda>err. case err of
                Some e \<Rightarrow> Ret (Some e)
              | None \<Rightarrow> validateFile ''client key'' (ps_ClientKeyFile sec))
            else Ret None))"

definition validateRootCA :: "string \<Rightarrow> goerror option io" where
  "validateRootCA path = Call (File (OsReadFile path)) (\<lambda>a. case a_bytes a of
      Inl e \<Rightarrow> Ret (Some (Wrapf ''read NATS root CA file'' e))
    | Inr rootPEM \<Rightarrow> Call (File (AppendCertsFromPEM rootPEM)) (\<lambda>a.
        if \<not> a_flag a then Ret (Some (plain_error (''parse NATS root CA file '' @ quoted path))) else Ret None))"

definition productionValidator :: "goerror option io" where
  "productionValidator = Call (File ProductionValidator) (\<lambda>a. Ret (a_err a))"

definition HasPrefix :: "string \<Rightarrow> string \<Rightarrow> bool" where
  "HasPrefix s p \<longleftrightarrow> take (length p) s = p"

definition ValidateProduction :: "settings \<Rightarrow> goerror option io" where
  "ValidateProduction st =
    (if st_url st = [] then Ret (Some (plain_error ''NATS URL is required in production''))
     else if \<not> HasPrefix (st_url st) ''tls://'' \<and> \<not> HasPrefix (st_url st) ''nats://''
     then Ret (Some (plain_error ''NATS URL must use nats:// or tls:// scheme''))
     else (case st_productionSecurity st of
         None \<Rightarrow>
           if \<not> st_productionValidator st
           then Ret (Some (plain_error (''NATS production security is required; configure ''
             @ ''tnats.WithProductionSecurity or tnats.WithProductionValidation'')))
           else productionValidator
       | Some sec \<Rightarrow>
           if ps_CredentialsFile sec = [] then Ret (Some (plain_error ''NATS credentials file is required in production''))
           else if ps_RootCAFile sec = [] then Ret (Some (plain_error ''NATS root CA file is required in production''))
           else bind (validateProductionFiles sec) (\<lambda>err. case err of
               Some e \<Rightarrow> Ret (Some e)
             | None \<Rightarrow> bind (validateRootCA (ps_RootCAFile sec)) (\<lambda>err. case err of
                 Some e \<Rightarrow> Ret (Some e)
               | None \<Rightarrow> if st_productionValidator st then productionValidator else Ret None))))"

section \<open>Well-formed settings\<close>

text \<open>The options this module offers.\<close>

inductive offered :: "transport_option \<Rightarrow> bool" where
  "offered (WithCodec c)" | "offered (WithIdempotencyStore s)" | "offered (WithNATSOptions os)"
| "offered (WithFetchBatch n d)" | "offered (WithStreamConfigModifier f)"
| "offered (WithProductionSecurity sec)" | "offered (WithProductionValidation v)"
| "offered (WithUserInfo u p)" | "offered (WithToken t)" | "offered (WithNKeySeed r f)" | "offered (WithNKeySeedFunc g)"
| "offered (WithJWT c)" | "offered (WithTLS ca cert key)" | "offered (WithURLs u us)" | "offered (WithEmbeddedServer cfg)"

text \<open>
  Settings a transport can run with: a positive fetch size and timeout, an embedded server with its
  defaults filled in, and for production security the client options that enforce it.
\<close>

definition embedded_ok :: "EmbeddedConfig \<Rightarrow> bool" where
  "embedded_ok c \<longleftrightarrow> ec_Host c \<noteq> [] \<and> ec_ServerName c \<noteq> [] \<and> ec_StartTimeout c > 0 \<and> ec_MaxPayload c \<noteq> 0"

definition enforced :: "ProductionSecurity \<Rightarrow> nats_option list \<Rightarrow> bool" where
  "enforced sec opts \<longleftrightarrow> NatsSecure \<in> set opts \<and>
     (ps_RootCAFile sec \<noteq> [] \<longrightarrow> NatsRootCAs (ps_RootCAFile sec) \<in> set opts) \<and>
     (ps_CredentialsFile sec \<noteq> [] \<longrightarrow> NatsUserCredentials (ps_CredentialsFile sec) \<in> set opts) \<and>
     (ps_ClientCertFile sec \<noteq> [] \<and> ps_ClientKeyFile sec \<noteq> [] \<longrightarrow>
        NatsClientCert (ps_ClientCertFile sec) (ps_ClientKeyFile sec) \<in> set opts)"

definition settings_ok :: "settings \<Rightarrow> bool" where
  "settings_ok st \<longleftrightarrow> st_fetchBatchSize st > 0 \<and> st_fetchTimeout st > 0 \<and>
     (\<forall>c. st_embedded st = Some c \<longrightarrow> embedded_ok c) \<and>
     (\<forall>sec. st_productionSecurity st = Some sec \<longrightarrow> enforced sec (st_options st))"

lemma applyDefaults_ok: "embedded_ok (applyDefaults c)"
  by (simp add: applyDefaults_def embedded_ok_def Let_def)

lemma enforced_more: "enforced sec opts \<Longrightarrow> enforced sec (opts @ opts')"
  by (auto simp: enforced_def)

lemma add_options_ok: "settings_ok st \<Longrightarrow> settings_ok (add_options opts st)"
  by (simp add: settings_ok_def add_options_def enforced_more)

lemma production_ok: "settings_ok st \<Longrightarrow> settings_ok (WithProductionSecurity sec st)"
  by (auto simp: settings_ok_def WithProductionSecurity_def add_options_def enforced_def)

lemma offered_ok: "offered f \<Longrightarrow> settings_ok st \<Longrightarrow> settings_ok (f st)"
  by (induction f rule: offered.induct)
     (auto simp: add_options_ok production_ok WithNATSOptions_def WithUserInfo_def WithToken_def WithNKeySeed_def
       WithNKeySeedFunc_def WithJWT_def WithTLS_def split: sum.split,
      auto simp: settings_ok_def applyDefaults_ok WithCodec_def WithIdempotencyStore_def WithFetchBatch_def
       WithStreamConfigModifier_def WithProductionValidation_def WithURLs_def WithEmbeddedServer_def Let_def split: option.split)

lemma New_settings_wf:
  assumes "\<forall>f. Some f \<in> set opts \<longrightarrow> offered f"
  shows "settings_ok (New_settings defaultCodec memoryStore rawURL opts)"
proof -
  have keep: "settings_ok (fold (\<lambda>opt st. case opt of None \<Rightarrow> st | Some f \<Rightarrow> f st) opts st)"
    if "settings_ok st" for st
    using assms that by (induction opts arbitrary: st) (auto simp: offered_ok split: option.split)
  show ?thesis unfolding New_settings_def by (rule keep) (simp add: settings_ok_def)
qed

text \<open>
  C29: Every transport built by \<open>New\<close> from the options of this module has well-formed settings: fetching
  asks for at least one message and waits a positive time, an embedded server has all its defaults, and
  production security always comes with TLS, its root certificates and its credentials in the options of
  the client.
\<close>

theorem New_settings_ok:
  assumes "\<forall>f. Some f \<in> set opts \<longrightarrow> offered f"
  shows "settings_ok (New_settings defaultCodec memoryStore rawURL opts)"
  using assms by (rule New_settings_wf)

theorem New_settings_ok_witness:
  "settings_ok (New_settings 0 0 ''nats://h'' [Some (WithFetchBatch 0 7), None,
     Some (WithProductionSecurity \<lparr>ps_CredentialsFile = ''c'', ps_RootCAFile = ''r'', ps_ClientCertFile = [], ps_ClientKeyFile = []\<rparr>)])"
  by (rule New_settings_ok) (auto intro: offered.intros)

section \<open>What validation guarantees\<close>

definition file_checked :: "string \<Rightarrow> event list \<Rightarrow> bool" where
  "file_checked path tr \<longleftrightarrow> (\<exists>a. (File (OsStat path), a) \<in> set tr \<and> a_err a = None \<and> \<not> a_flag a)"

definition root_parsed :: "string \<Rightarrow> event list \<Rightarrow> bool" where
  "root_parsed path tr \<longleftrightarrow> (\<exists>a b pem. (File (OsReadFile path), a) \<in> set tr \<and> a_bytes a = Inr pem \<and>
     (File (AppendCertsFromPEM pem), b) \<in> set tr \<and> a_flag b)"

definition validator_passed :: "event list \<Rightarrow> bool" where
  "validator_passed tr \<longleftrightarrow> (\<exists>a. (File ProductionValidator, a) \<in> set tr \<and> a_err a = None)"

lemma checks_append [simp]:
  "file_checked p (tr1 @ tr2) \<longleftrightarrow> file_checked p tr1 \<or> file_checked p tr2"
  "root_parsed p tr1 \<Longrightarrow> root_parsed p (tr1 @ tr2)" "root_parsed p tr2 \<Longrightarrow> root_parsed p (tr1 @ tr2)"
  "validator_passed (tr1 @ tr2) \<longleftrightarrow> validator_passed tr1 \<or> validator_passed tr2"
  by (auto simp: file_checked_def root_parsed_def validator_passed_def)

lemma validateFile_ok: "replay (validateFile label path) tr = Some None \<Longrightarrow> path \<noteq> [] \<and> file_checked path tr"
  by (auto simp: validateFile_def trace_simps file_checked_def split: if_splits)

lemma validateProductionFiles_ok:
  "replay (validateProductionFiles sec) tr = Some None \<Longrightarrow>
     file_checked (ps_CredentialsFile sec) tr \<and> file_checked (ps_RootCAFile sec) tr \<and>
     (ps_ClientCertFile sec \<noteq> [] \<or> ps_ClientKeyFile sec \<noteq> [] \<longrightarrow>
        file_checked (ps_ClientCertFile sec) tr \<and> file_checked (ps_ClientKeyFile sec) tr)"
  by (auto simp: validateProductionFiles_def trace_simps dest!: validateFile_ok split: if_splits)

lemma validateRootCA_ok: "replay (validateRootCA path) tr = Some None \<Longrightarrow> root_parsed path tr"
  by (auto simp: validateRootCA_def trace_simps root_parsed_def split: if_splits)

lemma productionValidator_ok: "replay productionValidator tr = Some None \<Longrightarrow> validator_passed tr"
  by (auto simp: productionValidator_def trace_simps validator_passed_def)

text \<open>What a passed validation of production security has seen.\<close>

definition security_checked :: "ProductionSecurity \<Rightarrow> event list \<Rightarrow> bool" where
  "security_checked sec tr \<longleftrightarrow> file_checked (ps_CredentialsFile sec) tr \<and> file_checked (ps_RootCAFile sec) tr \<and>
     root_parsed (ps_RootCAFile sec) tr \<and>
     (ps_ClientCertFile sec \<noteq> [] \<or> ps_ClientKeyFile sec \<noteq> [] \<longrightarrow>
        file_checked (ps_ClientCertFile sec) tr \<and> file_checked (ps_ClientKeyFile sec) tr)"

lemma validated_security:
  assumes "replay (ValidateProduction st) tr = Some None" and "st_productionSecurity st = Some sec"
  shows "security_checked sec tr \<and> ps_CredentialsFile sec \<noteq> [] \<and> ps_RootCAFile sec \<noteq> []"
  using assms unfolding ValidateProduction_def security_checked_def
  by (auto simp: trace_simps split: if_splits
      dest!: validateProductionFiles_ok validateRootCA_ok productionValidator_ok)

lemma validated_rest:
  assumes "replay (ValidateProduction st) tr = Some None"
  shows "(HasPrefix (st_url st) ''tls://'' \<or> HasPrefix (st_url st) ''nats://'') \<and>
    (st_productionValidator st \<longrightarrow> validator_passed tr) \<and> (st_productionSecurity st = None \<longrightarrow> st_productionValidator st)"
  using assms unfolding ValidateProduction_def
  by (auto simp: trace_simps split: if_splits option.splits dest!: productionValidator_ok)

text \<open>
  Production settings pass validation only if the server address has an accepted scheme and the
  security is really there. With configured security the credentials and root certificates, and a
  client certificate with its key if either is named, are existing files and the root certificates
  were parsed; a configured validator accepted, and without security there is one.
\<close>

theorem ValidateProduction_sound:
  assumes "replay (ValidateProduction st) tr = Some None"
  shows "(HasPrefix (st_url st) ''tls://'' \<or> HasPrefix (st_url st) ''nats://'') \<and>
    (st_productionValidator st \<longrightarrow> validator_passed tr) \<and>
    (case st_productionSecurity st of None \<Rightarrow> st_productionValidator st | Some sec \<Rightarrow> security_checked sec tr)"
  using validated_rest [OF assms] validated_security [OF assms] by (auto split: option.split)

definition checkedFiles :: "event list" where
  "checkedFiles = [(File (OsStat ''c''), answer0), (File (OsStat ''r''), answer0), (File (OsReadFile ''r''), answer0),
     (File (AppendCertsFromPEM []), answer0\<lparr>a_flag := True\<rparr>)]"

definition productionSettings :: settings where
  "productionSettings = New_settings 0 0 ''tls://h'' [Some (WithProductionSecurity
     \<lparr>ps_CredentialsFile = ''c'', ps_RootCAFile = ''r'', ps_ClientCertFile = [], ps_ClientKeyFile = []\<rparr>)]"

theorem ValidateProduction_sound_witness:
  "file_checked ''c'' checkedFiles \<and> file_checked ''r'' checkedFiles \<and> root_parsed ''r'' checkedFiles"
proof -
  have "replay (ValidateProduction productionSettings) checkedFiles = Some None"
    by (simp add: ValidateProduction_def productionSettings_def New_settings_def WithProductionSecurity_def add_options_def HasPrefix_def
        checkedFiles_def validateProductionFiles_def validateFile_def validateRootCA_def replay.simps)
  from ValidateProduction_sound [OF this] show ?thesis
    by (simp add: productionSettings_def New_settings_def WithProductionSecurity_def add_options_def security_checked_def)
qed

text \<open>
  Of several joined server addresses only the first has its scheme checked: whatever the others are,
  validation goes on exactly as for the first alone.
\<close>

lemma joinNATSURLs_prefix:
  "length p \<le> length u \<Longrightarrow> HasPrefix (joinNATSURLs (u # us)) p \<longleftrightarrow> HasPrefix u p"
  by (simp add: HasPrefix_def joinNATSURLs_def)

lemma ValidateProduction_first_url:
  assumes "6 < length primary"
  shows "ValidateProduction (WithURLs primary extra st) = ValidateProduction (WithURLs primary [] st)"
proof -
  have "HasPrefix (joinNATSURLs (primary # extra)) p \<longleftrightarrow> HasPrefix (joinNATSURLs [primary]) p" if "length p \<le> 7" for p
    using assms that by (simp add: joinNATSURLs_prefix)
  then show ?thesis using assms by (simp add: ValidateProduction_def WithURLs_def) (auto simp: joinNATSURLs_def)
qed

section \<open>What the embedded server guarantees\<close>

text \<open>
  Starting the embedded server leaves one running exactly on success: every server that was started
  is stopped again, and waited for, unless it is handed out.
\<close>

lemma startEmbedded_balance:
  assumes "replay (startEmbedded randomPort (Some cfg)) tr = Some (err, url)"
  shows "(err = None \<longleftrightarrow> url \<noteq> None) \<and>
    length (requests (\<lambda>q. q = Run SrvStart) tr) =
      length (requests (\<lambda>q. q = Run SrvWaitForShutdown) tr) + (if url = None then 0 else 1) \<and>
    (\<forall>opts a. (Run (NewServer opts), a) \<in> set tr \<longrightarrow> opts = serverOptions randomPort cfg \<and>
       (ec_JetStream cfg \<longrightarrow> ec_StoreDir cfg \<noteq> []))"
  using assms unfolding startEmbedded_def launchServer_def
  by (auto simp: trace_simps split: if_splits)

end
