(* ===== verification/Lifecycle.thy ===== *)
theory Lifecycle
  imports Micro Settings
begin

text \<open>
  A run of the transport from start to shutdown: \<open>Do\<close> and \<open>mountActions\<close> of
  \<open>src/tnats/tnats_runner.go\<close> with the readiness and worker bookkeeping of \<open>src/tnats/tnats.go\<close>.
\<close>

section \<open>State\<close>

text \<open>
  The fields of \<open>Transport\<close> that a run reads and writes.  \<open>r_ready\<close> is whether the channel \<open>ready\<close> is
  closed, \<open>r_readyOnce\<close> whether its \<open>sync.Once\<close> is spent, and \<open>r_muHeld\<close> whether the mutex is held by a
  goroutine that will not release it any more.
\<close>

record run_state =
  r_running :: bool
  r_closing :: bool
  r_ready :: bool
  r_readyErr :: "goerror option"
  r_readyOnce :: bool
  r_muHeld :: bool
  r_initErr :: "goerror option"
  r_embedded :: "EmbeddedConfig option"
  r_embeddedSrv :: bool
  r_url :: string
  r_actions :: "any_action list"
  r_microServices :: "string list"
  r_pull :: pull_state

definition idle_state :: "bool \<Rightarrow> string \<Rightarrow> goerror option \<Rightarrow> EmbeddedConfig option \<Rightarrow> run_state" where
  "idle_state ready url initErr embedded =
     \<lparr>r_running = False, r_closing = False, r_ready = ready, r_readyErr = None, r_readyOnce = False, r_muHeld = False,
      r_initErr = initErr, r_embedded = embedded, r_embeddedSrv = False, r_url = url, r_actions = [],
      r_microServices = [], r_pull = \<lparr>ps_subs = 0, ps_workers = 0\<rparr>\<rparr>"

text \<open>The state after \<open>New\<close>, and after \<open>FromConn\<close>, which closes \<open>ready\<close> itself.\<close>

definition New_run :: "settings \<Rightarrow> run_state" where
  "New_run st = idle_state False (st_url st) (st_initErr st) (st_embedded st)"

definition FromConn_run :: "string \<Rightarrow> run_state" where
  "FromConn_run connectedUrl = idle_state True connectedUrl None None"

fun CanHandle :: "binding \<Rightarrow> bool" where
  "CanHandle (IsInvalid s) = False" | "CanHandle (IsOther s) = False" | "CanHandle _ = True"

definition Mount :: "any_action list \<Rightarrow> run_state \<Rightarrow> run_state" where
  "Mount actions st = st\<lparr>r_actions := actions\<rparr>"

definition startWorker :: "run_state \<Rightarrow> bool \<times> run_state" where
  "startWorker st = (if r_closing st then (False, st)
     else (True, st\<lparr>r_pull := (r_pull st)\<lparr>ps_workers := Suc (ps_workers (r_pull st))\<rparr>\<rparr>))"

text \<open>
  \<open>signalReady\<close> returns or panics: closing a closed channel panics between the lock and the unlock.
\<close>

definition signalReady :: "goerror option \<Rightarrow> run_state \<Rightarrow> bool \<times> run_state" where
  "signalReady err st =
    (if r_readyOnce st then (True, st)
     else if r_ready st then (False, st\<lparr>r_readyOnce := True, r_readyErr := err, r_muHeld := True\<rparr>)
     else (True, st\<lparr>r_readyOnce := True, r_readyErr := err, r_ready := True\<rparr>))"

text \<open>What \<open>WaitReady\<close> may return, given how its context has ended; nothing while it waits.\<close>

definition WaitReady :: "run_state \<Rightarrow> goerror option \<Rightarrow> goerror option set" where
  "WaitReady st ctxErr = (if r_ready st then {r_readyErr st} else {}) \<union>
     (case ctxErr of None \<Rightarrow> {} | Some e \<Rightarrow> {Some e})"

section \<open>Mounting actions\<close>

definition add_sub :: "pull_state \<Rightarrow> pull_state" where
  "add_sub p = p\<lparr>ps_subs := Suc (ps_subs p)\<rparr>"

definition add_worker :: "pull_state \<Rightarrow> pull_state" where
  "add_worker p = p\<lparr>ps_workers := Suc (ps_workers p)\<rparr>"

fun mountBinding ::
  "ctx \<Rightarrow> (StreamConfig \<Rightarrow> StreamConfig) option \<Rightarrow> binding \<Rightarrow> pull_state \<Rightarrow> (goerror option \<times> pull_state) io" where
  "mountBinding ctx modifier (IsTopic b) p =
     bind (subscribeTopic b) (\<lambda>(err, ok). Ret (err, if ok then add_sub p else p))"
| "mountBinding ctx modifier (IsRequest b) p =
     bind (subscribeTopic \<lparr>tb_Subject = rb_Subject b, tb_QueueGroup = []\<rparr>) (\<lambda>(err, ok). Ret (err, if ok then add_sub p else p))"
| "mountBinding ctx modifier (IsKV b) p =
     bind (mountKV ctx b) (\<lambda>(err, ok). Ret (err, if ok then add_worker p else p))"
| "mountBinding ctx modifier (IsDurable b) p = subscribeDurable modifier b p"
| "mountBinding ctx modifier (IsConsumer b) p = subscribeConsumer modifier b p"
| "mountBinding ctx modifier (IsObject b) p =
     bind (mountObjectStore b) (\<lambda>(err, ok). Ret (err, if ok then add_worker p else p))"
| "mountBinding ctx modifier (IsService b) p = Ret (None, p)"
| "mountBinding ctx modifier (IsInvalid s) p = Ret (None, p)"
| "mountBinding ctx modifier (IsOther s) p = Ret (None, p)"

fun mountBindings ::
  "ctx \<Rightarrow> (StreamConfig \<Rightarrow> StreamConfig) option \<Rightarrow> binding list \<Rightarrow> pull_state \<Rightarrow> (goerror option \<times> pull_state) io" where
  "mountBindings ctx modifier [] p = Ret (None, p)"
| "mountBindings ctx modifier (b # bs) p = bind (mountBinding ctx modifier b p) (\<lambda>(err, p). case err of
      Some e \<Rightarrow> Ret (Some e, p)
    | None \<Rightarrow> mountBindings ctx modifier bs p)"

fun mountAll ::
  "ctx \<Rightarrow> (StreamConfig \<Rightarrow> StreamConfig) option \<Rightarrow> any_action list \<Rightarrow> pull_state \<Rightarrow> (goerror option \<times> pull_state) io" where
  "mountAll ctx modifier [] p = Ret (None, p)"
| "mountAll ctx modifier (act # acts) p =
    (if aa_Exec act = None then mountAll ctx modifier acts p
     else bind (mountBindings ctx modifier (aa_Bindings act) p) (\<lambda>(err, p). case err of
         Some e \<Rightarrow> Ret (Some e, p)
       | None \<Rightarrow> mountAll ctx modifier acts p))"

definition mountActions ::
  "ctx \<Rightarrow> (StreamConfig \<Rightarrow> StreamConfig) option \<Rightarrow> any_action list \<Rightarrow> pull_state \<Rightarrow> string list \<Rightarrow>
     (goerror option \<times> pull_state \<times> string list) io" where
  "mountActions ctx modifier actions p services =
    bind (mountAll ctx modifier actions p) (\<lambda>(err, p). case err of
        Some e \<Rightarrow> Ret (Some e, p, services)
      | None \<Rightarrow> bind (mountMicroServices actions services) (\<lambda>(err, services). Ret (err, p, services)))"

section \<open>A run\<close>

text \<open>How \<open>Do\<close> ends: it returns, it panics, or it waits forever for a mutex that is never released.\<close>

datatype do_end = Finished "goerror option" | Crash | Stuck

definition fail_ready :: "goerror \<Rightarrow> run_state \<Rightarrow> do_end \<times> run_state" where
  "fail_ready e st = (let (ok, st) = signalReady (Some e) st in (if ok then Finished (Some e) else Crash, st))"

text \<open>From the result of mounting to the end of the run.\<close>

definition serveMounted :: "ctx \<Rightarrow> goerror option \<Rightarrow> run_state \<Rightarrow> (do_end \<times> run_state) io" where
  "serveMounted ctx mountErr st = (case mountErr of
      Some e \<Rightarrow> Ret (fail_ready e st)
    | None \<Rightarrow> nc_Flush (WithTimeout (WithCancel ctx) defaultShutdownTimeout) (\<lambda>err. case err of
        Some e \<Rightarrow> Ret (fail_ready (MapErr e) st)
      | None \<Rightarrow>
          let (ok, st) = signalReady None st in
          if \<not> ok then Ret (Crash, st)
          else await_End (WithCancel ctx) (\<lambda>closed.
            if \<not> closed then Ret (Finished None, st)
            else ctx_Err ctx (\<lambda>ctxErr.
              if ctxErr \<noteq> None then Ret (Finished None, st)
              else nc_LastError (\<lambda>last.
                Ret (Finished (Some (app KindUnavailable ''nats: connection closed''
                  (case last of None \<Rightarrow> [] | Some e \<Rightarrow> [e]))), st))))))"

definition runMounted ::
  "ctx \<Rightarrow> (StreamConfig \<Rightarrow> StreamConfig) option \<Rightarrow> run_state \<Rightarrow> (do_end \<times> run_state) io" where
  "runMounted ctx modifier st =
    bind (mountActions (WithCancel ctx) modifier (r_actions st) (r_pull st) (r_microServices st)) (\<lambda>(err, p, services).
      serveMounted ctx err (st\<lparr>r_pull := p, r_microServices := services\<rparr>))"

fun stopServices :: "string list \<Rightarrow> unit io" where
  "stopServices [] = Ret ()"
| "stopServices (svc # svcs) = svc_Stop svc (\<lambda>_. stopServices svcs)"

primrec unsubscribeAll :: "nat \<Rightarrow> unit io" where
  "unsubscribeAll 0 = Ret ()"
| "unsubscribeAll (Suc n) = sub_Unsubscribe (\<lambda>_. unsubscribeAll n)"

text \<open>The deferred shutdown, which also runs when the body panics.\<close>

definition shutdownRun :: "do_end \<times> run_state \<Rightarrow> (do_end \<times> run_state) io" where
  "shutdownRun x = (let (r, st) = x in
     if r_muHeld st then Ret (Stuck, st)
     else bind (stopServices (r_microServices st)) (\<lambda>_. bind (unsubscribeAll (ps_subs (r_pull st))) (\<lambda>_.
       Call (Run WorkersWait) (\<lambda>_. Call (Run CloseTransport) (\<lambda>_.
         Ret (r, st\<lparr>r_closing := True, r_microServices := [], r_pull := \<lparr>ps_subs = 0, ps_workers = 0\<rparr>\<rparr>))))))"

definition stopEmbedded :: "do_end \<times> run_state \<Rightarrow> (do_end \<times> run_state) io" where
  "stopEmbedded x = (let (r, st) = x in
     if r = Stuck then Ret (r, st)
     else if r_muHeld st then Ret (Stuck, st)
     else bind (stopServer (r_embeddedSrv st)) (\<lambda>_. Ret (r, st\<lparr>r_embeddedSrv := False\<rparr>)))"

definition runConnected ::
  "ctx \<Rightarrow> (StreamConfig \<Rightarrow> StreamConfig) option \<Rightarrow> run_state \<Rightarrow> (do_end \<times> run_state) io" where
  "runConnected ctx modifier st = ensure_Conn (WithCancel ctx) (\<lambda>err. case err of
      Some e \<Rightarrow> Ret (fail_ready e st)
    | None \<Rightarrow> ensure_JetStream (\<lambda>err. case err of
        Some e \<Rightarrow> Ret (fail_ready e st)
      | None \<Rightarrow> bind (runMounted ctx modifier st) shutdownRun))"

definition finishDo :: "do_end \<times> run_state \<Rightarrow> do_end \<times> run_state" where
  "finishDo x = (if fst x = Stuck then x else (fst x, (snd x)\<lparr>r_running := False\<rparr>))"

definition Do ::
  "int \<Rightarrow> (StreamConfig \<Rightarrow> StreamConfig) option \<Rightarrow> ctx \<Rightarrow> run_state \<Rightarrow> (do_end \<times> run_state) io" where
  "Do randomPort modifier ctx st =
    (if r_running st then Ret (Finished (Some (plain_error ''nats transport is already running'')), st)
     else if r_muHeld st then Ret (Stuck, st\<lparr>r_running := True\<rparr>)
     else (let st = st\<lparr>r_running := True, r_closing := False\<rparr> in
       case r_initErr st of
         Some e \<Rightarrow> Ret (finishDo (fail_ready e st))
       | None \<Rightarrow> (case r_embedded st of
           None \<Rightarrow> bind (runConnected ctx modifier st) (\<lambda>x. Ret (finishDo x))
         | Some cfg \<Rightarrow> bind (startEmbedded randomPort (Some cfg)) (\<lambda>(err, url). case err of
             Some e \<Rightarrow> Ret (finishDo (fail_ready e st))
           | None \<Rightarrow> bind (runConnected ctx modifier (st\<lparr>r_embeddedSrv := True, r_url := the url\<rparr>)) (\<lambda>x.
               bind (stopEmbedded x) (\<lambda>x. Ret (finishDo x)))))))"

section \<open>Accounting for subscriptions and services\<close>

fun is_sub :: "request \<Rightarrow> bool" where
  "is_sub (JsPullSubscribe s d opts) = True" | "is_sub (Conn (NcSubscribe s q)) = True" | "is_sub _ = False"

fun is_stop :: "request \<Rightarrow> bool" where
  "is_stop (Micro (MicroStop s)) = True" | "is_stop _ = False"

definition plain_call :: "request \<Rightarrow> bool" where
  "plain_call q \<longleftrightarrow> \<not> is_sub q \<and> q \<noteq> SubUnsubscribe \<and> (\<forall>r. q \<noteq> Micro r) \<and> (\<forall>r. q \<noteq> Run r)"

text \<open>Subscriptions accepted and given back, services accepted and stopped, servers started and ended.\<close>

definition subs_opened :: "event list \<Rightarrow> nat" where
  "subs_opened tr = length (filter (\<lambda>(q, a). is_sub q \<and> a_err a = None) tr)"
definition subs_closed :: "event list \<Rightarrow> nat" where
  "subs_closed tr = length (requests (\<lambda>q. q = SubUnsubscribe) tr)"
definition services_started :: "event list \<Rightarrow> nat" where
  "services_started tr = length (accepted_services tr)"
definition services_stopped :: "event list \<Rightarrow> nat" where
  "services_stopped tr = length (requests is_stop tr)"
definition servers_started :: "event list \<Rightarrow> nat" where
  "servers_started tr = length (requests (\<lambda>q. q = Run SrvStart) tr)"
definition servers_ended :: "event list \<Rightarrow> nat" where
  "servers_ended tr = length (requests (\<lambda>q. q = Run SrvWaitForShutdown) tr)"

lemmas account_defs = subs_opened_def subs_closed_def services_started_def services_stopped_def
  servers_started_def servers_ended_def

lemma account_simps [simp]:
  "subs_opened [] = 0" "subs_closed [] = 0" "services_started [] = 0" "services_stopped [] = 0"
  "subs_opened (tr @ tr') = subs_opened tr + subs_opened tr'" "subs_closed (tr @ tr') = subs_closed tr + subs_closed tr'"
  "services_started (tr @ tr') = services_started tr + services_started tr'"
  "services_stopped (tr @ tr') = services_stopped tr + services_stopped tr'"
  "subs_opened ((q, a) # tr) = (if is_sub q \<and> a_err a = None then 1 else 0) + subs_opened tr"
  "subs_closed ((q, a) # tr) = (if q = SubUnsubscribe then 1 else 0) + subs_closed tr"
  "services_stopped ((q, a) # tr) = (if is_stop q then 1 else 0) + services_stopped tr"
  "servers_started [] = 0" "servers_ended [] = 0"
  "servers_started (tr @ tr') = servers_started tr + servers_started tr'" "servers_ended (tr @ tr') = servers_ended tr + servers_ended tr'"
  "servers_started ((q, a) # tr) = (if q = Run SrvStart then 1 else 0) + servers_started tr"
  "servers_ended ((q, a) # tr) = (if q = Run SrvWaitForShutdown then 1 else 0) + servers_ended tr"
  by (simp_all add: account_defs)

lemma services_started_Cons [simp]:
  "services_started ((Micro (MicroAddService cfg), a) # tr) = (if a_err a = None then 1 else 0) + services_started tr"
  "(\<And>cfg. q \<noteq> Micro (MicroAddService cfg)) \<Longrightarrow> services_started ((q, a) # tr) = services_started tr"
  by (auto simp: services_started_def accepted_services_def split: request.split micro_request.split)

text \<open>
  The books of a trace: from \<open>n\<close> to \<open>n'\<close> subscriptions and from \<open>k\<close> to \<open>k'\<close> services, with no server
  started or ended.
\<close>

definition accounts :: "nat \<Rightarrow> nat \<Rightarrow> nat \<Rightarrow> nat \<Rightarrow> event list \<Rightarrow> bool" where
  "accounts n n' k k' tr \<longleftrightarrow> n + subs_opened tr = n' + subs_closed tr \<and> k + services_started tr = k' + services_stopped tr \<and>
     servers_started tr = 0 \<and> servers_ended tr = 0"

lemma accounts_append: "accounts n m k l tr1 \<Longrightarrow> accounts m n' l k' tr2 \<Longrightarrow> accounts n n' k k' (tr1 @ tr2)"
  by (simp add: accounts_def)

lemma plain_trace: "only_calls plain_call p \<Longrightarrow> replay p tr = Some x \<Longrightarrow> accounts n n k k tr"
proof -
  assume p: "only_calls plain_call p" "replay p tr = Some x"
  then have "\<forall>(q, a) \<in> set tr. plain_call q" using only_calls_replay by fast
  then have "subs_opened tr = 0 \<and> subs_closed tr = 0 \<and> services_started tr = 0 \<and> services_stopped tr = 0 \<and>
    servers_started tr = 0 \<and> servers_ended tr = 0"
  proof (induction tr)
    case (Cons e tr)
    obtain q a where "e = (q, a)" by fastforce
    with Cons show ?case by (cases q) (auto simp: plain_call_def)
  qed simp
  then show ?thesis by (simp add: accounts_def)
qed

lemma infra_plain:
  "only_calls plain_call (ensureConsumerInfra modifier b)" "only_calls plain_call (ensureDurableInfra modifier d)"
  "only_calls plain_call (ensureUnlimitedConsumerDeliveries stream durable)"
proof -
  have rounds: "only_calls plain_call (ensureStreamRounds modifier name subjects n)" for name subjects n
    by (induction n) (auto simp: case_prod_beta Let_def plain_call_def split: sum.split option.split)
  then have stream: "only_calls plain_call (ensureStream modifier name subjects)" for name subjects
    by (simp add: ensureStream_def)
  show "only_calls plain_call (ensureConsumerInfra modifier b)" "only_calls plain_call (ensureDurableInfra modifier d)"
    by (auto simp: ensureConsumerInfra_def ensureDurableInfra_def Let_def stream intro!: only_calls_bind split: option.split)
  show "only_calls plain_call (ensureUnlimitedConsumerDeliveries stream durable)"
    by (auto simp: ensureUnlimitedConsumerDeliveries_def plain_call_def split: sum.split option.split)
qed

lemma pullSubscription_accounts:
  "replay (pullSubscription subject stream durable opts) tr = Some err \<Longrightarrow>
     accounts n (if err = None then Suc n else n) k k tr"
  by (auto simp: pullSubscription_def trace_simps accounts_def
      dest: plain_trace [OF infra_plain(3), of _ _ _ _ 0 0, unfolded accounts_def])

lemma plain_mounts: "only_calls plain_call (mountKV ctx kb)" "only_calls plain_call (mountObjectStore ob)"
proof -
  have "plain_call (CtxErr c)" "plain_call (JsKeyValue s)" "plain_call (Watch w)" "plain_call (Store q)" for c s w q
    by (simp_all add: plain_call_def)
  then show "only_calls plain_call (mountKV ctx kb)" "only_calls plain_call (mountObjectStore ob)"
    by (auto simp: mountKV_def mountObjectStore_def split: option.split intro!: only_calls_ctx_Err)
qed

lemma subscribe_stages_accounts:
  assumes "replay (subscribe_stages invalid infra (pullSubscription subject stream durable opts) p) tr = Some (err, p')"
    and infra: "only_calls plain_call infra"
  shows "accounts (ps_subs p) (ps_subs p') k k tr"
proof -
  consider "tr = []" "p' = p"
    | tr1 tr2 e where "tr = tr1 @ tr2" "replay infra tr1 = Some (Some e)" "tr2 = []" "p' = p"
    | tr1 tr2 where "tr = tr1 @ tr2" "replay infra tr1 = Some None"
        "replay (pullSubscription subject stream durable opts) tr2 = Some err" "p' = (if err = None then start_worker p else p)"
    using assms(1) by (auto simp: subscribe_stages_def trace_simps)
  then show ?thesis
  proof cases
    case 3
    then have "accounts (ps_subs p) (ps_subs p') k k tr2"
      using pullSubscription_accounts [OF 3(3), of "ps_subs p" k] by (auto simp: start_worker_def split: if_splits)
    then show ?thesis unfolding 3(1) by (rule accounts_append [OF plain_trace [OF infra 3(2)]])
  qed (use plain_trace [OF infra] in \<open>auto simp: accounts_def\<close>)
qed

lemma mountBinding_accounts:
  assumes "replay (mountBinding ctx modifier b p) tr = Some (err, p')"
  shows "accounts (ps_subs p) (ps_subs p') k k tr"
proof (cases b)
  case (IsTopic t)
  then show ?thesis using assms by (auto simp: subscribeTopic_def trace_simps accounts_def add_sub_def)
next
  case (IsRequest t)
  then show ?thesis using assms by (auto simp: subscribeTopic_def trace_simps accounts_def add_sub_def)
next
  case (IsKV kb)
  then show ?thesis using assms plain_trace [OF plain_mounts(1)]
    by (auto simp: trace_simps add_worker_def split: if_splits)
next
  case (IsObject ob)
  then show ?thesis using assms plain_trace [OF plain_mounts(2)]
    by (auto simp: trace_simps add_worker_def split: if_splits)
next
  case (IsDurable d)
  then show ?thesis using assms subscribe_stages_accounts [OF _ infra_plain(2)] by (simp add: subscribeDurable_stages)
next
  case (IsConsumer c)
  then show ?thesis using assms subscribe_stages_accounts [OF _ infra_plain(1)]
    by (simp add: subscribeConsumer_stages openConsumerSubscription_def)
qed (use assms in \<open>auto simp: trace_simps accounts_def\<close>)

lemma mountBindings_accounts:
  "replay (mountBindings ctx modifier bs p) tr = Some (err, p') \<Longrightarrow> accounts (ps_subs p) (ps_subs p') k k tr"
proof (induction bs arbitrary: p tr)
  case (Cons b bs)
  then show ?case
    by (auto simp: trace_simps dest: mountBinding_accounts [where k = k] intro: accounts_append)
qed (simp add: trace_simps accounts_def)

lemma mountAll_accounts:
  "replay (mountAll ctx modifier acts p) tr = Some (err, p') \<Longrightarrow> accounts (ps_subs p) (ps_subs p') k k tr"
proof (induction acts arbitrary: p tr)
  case (Cons act acts)
  then show ?case
    by (auto simp: trace_simps dest: mountBindings_accounts [where k = k] intro: accounts_append split: if_splits)
qed (simp add: trace_simps accounts_def)

lemma registerEndpoints_accounts:
  "replay (registerEndpoints svc eps) tr = Some r \<Longrightarrow> accounts n n (Suc k) (if r = None then Suc k else k) tr"
  by (induction eps arbitrary: tr) (auto simp: trace_simps registerMicroEndpoint_def accounts_def)

lemma startServices_accounts:
  "replay (startServices groups names services) tr = Some (err, services') \<Longrightarrow>
     accounts n n (length services) (length services') tr"
proof (induction names arbitrary: services tr)
  case (Cons name names)
  then show ?case
    by (fastforce simp: trace_simps Let_def accounts_def
        dest: registerEndpoints_accounts [where n = n and k = "length services"])
qed (simp add: trace_simps accounts_def)

lemma mountActions_accounts:
  assumes "replay (mountActions ctx modifier acts p services) tr = Some (err, p', services')"
  shows "accounts (ps_subs p) (ps_subs p') (length services) (length services') tr"
  using assms
  by (auto simp: mountActions_def mountMicroServices_def case_prod_beta trace_simps
      dest: mountAll_accounts [where k = "length services"] startServices_accounts [where n = "ps_subs p'"]
      intro: accounts_append)

section \<open>What a run guarantees\<close>

text \<open>
  The channel \<open>ready\<close> is closed exactly if its \<open>Once\<close> is spent, and the mutex is free; a transport at
  rest has nothing mounted.
\<close>

definition ready_ok :: "run_state \<Rightarrow> bool" where
  "ready_ok st \<longleftrightarrow> \<not> r_muHeld st \<and> (r_ready st \<longleftrightarrow> r_readyOnce st)"

definition at_rest :: "run_state \<Rightarrow> bool" where
  "at_rest st \<longleftrightarrow> \<not> r_running st \<and> \<not> r_embeddedSrv st \<and> r_microServices st = [] \<and>
     r_pull st = \<lparr>ps_subs = 0, ps_workers = 0\<rparr>"

definition signalled :: "goerror option \<Rightarrow> run_state \<Rightarrow> run_state" where
  "signalled err st = (if r_readyOnce st then st else st\<lparr>r_readyOnce := True, r_readyErr := err, r_ready := True\<rparr>)"

lemma signalReady_eq: "ready_ok st \<Longrightarrow> signalReady err st = (True, signalled err st)"
  by (simp add: ready_ok_def signalReady_def signalled_def)

lemma fail_ready_eq: "ready_ok st \<Longrightarrow> fail_ready e st = (Finished (Some e), signalled (Some e) st)"
  by (simp add: fail_ready_def signalReady_eq)

lemma signalled_simps [simp]:
  "r_muHeld (signalled err st) = r_muHeld st" "r_pull (signalled err st) = r_pull st"
  "r_microServices (signalled err st) = r_microServices st" "r_embeddedSrv (signalled err st) = r_embeddedSrv st"
  "r_readyOnce (signalled err st)"
  "r_readyErr (signalled err st) = (if r_readyOnce st then r_readyErr st else err)"
  by (simp_all add: signalled_def)

lemma signalled_ok: "ready_ok st \<Longrightarrow> ready_ok (signalled err st)"
  by (auto simp: ready_ok_def signalled_def)

lemma ready_ok_upd [simp]:
  "ready_ok (st\<lparr>r_pull := p, r_microServices := ss\<rparr>) = ready_ok st"
  "ready_ok (st\<lparr>r_running := b, r_closing := c\<rparr>) = ready_ok st"
  "ready_ok (st\<lparr>r_embeddedSrv := b, r_url := u\<rparr>) = ready_ok st"
  by (simp_all add: ready_ok_def)

text \<open>Everything is mounted and the server has confirmed it.\<close>

definition mounted_and_flushed ::
  "ctx \<Rightarrow> (StreamConfig \<Rightarrow> StreamConfig) option \<Rightarrow> run_state \<Rightarrow> event list \<Rightarrow> bool" where
  "mounted_and_flushed ctx modifier st tr \<longleftrightarrow> (\<exists>pre mid post a p services.
     tr = pre @ mid @ (Conn (NcFlush (WithTimeout (WithCancel ctx) defaultShutdownTimeout)), a) # post \<and> a_err a = None \<and>
     replay (mountActions (WithCancel ctx) modifier (r_actions st) (r_pull st) (r_microServices st)) mid =
       Some (None, p, services))"

lemma serveMounted_trace:
  assumes "replay (serveMounted ctx mountErr st) tr = Some (r, st1)" and ok: "ready_ok st"
  shows "\<exists>err e. r = Finished err \<and> st1 = signalled e st \<and> accounts n n k k tr \<and>
    (e = None \<longrightarrow> mountErr = None \<and> (\<exists>a tr'. a_err a = None \<and>
       tr = (Conn (NcFlush (WithTimeout (WithCancel ctx) defaultShutdownTimeout)), a) # tr')) \<and>
    (e \<noteq> None \<longrightarrow> err = e)"
proof (cases mountErr)
  case None
  then show ?thesis using assms(1) unfolding serveMounted_def
    by (cases "ctx = Background";
        auto simp: trace_simps fail_ready_eq [OF ok] signalReady_eq [OF ok] accounts_def split: if_splits option.splits; blast)
next
  case (Some e)
  then show ?thesis using assms(1)
    by (auto simp: serveMounted_def trace_simps fail_ready_eq [OF ok] accounts_def; blast)
qed

lemma runMounted_trace:
  assumes "replay (runMounted ctx modifier st) tr = Some (r, st1)" and "ready_ok st"
  shows "\<exists>err e p services. r = Finished err \<and> st1 = signalled e (st\<lparr>r_pull := p, r_microServices := services\<rparr>) \<and>
    accounts (ps_subs (r_pull st)) (ps_subs p) (length (r_microServices st)) (length services) tr \<and>
    (e = None \<longrightarrow> mounted_and_flushed ctx modifier st tr) \<and> (e \<noteq> None \<longrightarrow> err = e)"
proof -
  obtain tr1 tr2 mountErr p services where tr: "tr = tr1 @ tr2"
    and mount: "replay (mountActions (WithCancel ctx) modifier (r_actions st) (r_pull st) (r_microServices st)) tr1 =
      Some (mountErr, p, services)"
    and serve: "replay (serveMounted ctx mountErr (st\<lparr>r_pull := p, r_microServices := services\<rparr>)) tr2 = Some (r, st1)"
    using assms(1) unfolding runMounted_def by (auto simp: trace_simps)
  obtain err e where e: "r = Finished err" "st1 = signalled e (st\<lparr>r_pull := p, r_microServices := services\<rparr>)"
      "e \<noteq> None \<longrightarrow> err = e" "accounts (ps_subs p) (ps_subs p) (length services) (length services) tr2"
    and ready: "e = None \<longrightarrow> mountErr = None \<and> (\<exists>a tr'. a_err a = None \<and>
       tr2 = (Conn (NcFlush (WithTimeout (WithCancel ctx) defaultShutdownTimeout)), a) # tr')"
    using serveMounted_trace [OF serve, of "ps_subs p" "length services"] assms(2) by auto
  have "mounted_and_flushed ctx modifier st tr" if "e = None"
    using ready that mount unfolding mounted_and_flushed_def tr by (metis append_Nil)
  then show ?thesis using e accounts_append [OF mountActions_accounts [OF mount] e(4)] tr by blast
qed

lemma stopServices_accounts: "replay (stopServices svcs) tr = Some x \<Longrightarrow> accounts n n (length svcs) 0 tr"
  by (induction svcs arbitrary: tr) (auto simp: trace_simps accounts_def)

lemma unsubscribeAll_accounts: "replay (unsubscribeAll m) tr = Some x \<Longrightarrow> accounts m 0 k k tr"
  by (induction m arbitrary: tr) (auto simp: trace_simps accounts_def)

lemma shutdownRun_trace:
  assumes "replay (shutdownRun (r, st)) tr = Some (r', st')" and "\<not> r_muHeld st"
  shows "r' = r \<and> st' = st\<lparr>r_closing := True, r_microServices := [], r_pull := \<lparr>ps_subs = 0, ps_workers = 0\<rparr>\<rparr> \<and>
    accounts (ps_subs (r_pull st)) 0 (length (r_microServices st)) 0 tr"
  using assms unfolding shutdownRun_def
  by (auto simp: trace_simps accounts_def dest!: stopServices_accounts [where n = 0] unsubscribeAll_accounts [where k = 0])

text \<open>
  What a part of a run makes of its state: it returns, leaves nothing mounted, and has signalled the
  error \<open>e\<close>, which is then its own, or readiness after everything was mounted.
\<close>

definition run_ends ::
  "ctx \<Rightarrow> (StreamConfig \<Rightarrow> StreamConfig) option \<Rightarrow> run_state \<Rightarrow> event list \<Rightarrow> goerror option \<Rightarrow> goerror option \<Rightarrow> run_state \<Rightarrow> bool" where
  "run_ends ctx modifier st tr err e st' \<longleftrightarrow> ready_ok st' \<and> r_readyOnce st' \<and>
     (r_readyOnce st \<longrightarrow> r_readyErr st' = r_readyErr st) \<and> (\<not> r_readyOnce st \<longrightarrow> r_readyErr st' = e) \<and>
     r_microServices st' = [] \<and> r_pull st' = \<lparr>ps_subs = 0, ps_workers = 0\<rparr> \<and> r_embeddedSrv st' = r_embeddedSrv st \<and>
     (e = None \<longrightarrow> mounted_and_flushed ctx modifier st tr) \<and> (e \<noteq> None \<longrightarrow> err = e)"

lemma run_endsI:
  assumes "ready_ok st" "r_microServices st = []" "r_pull st = \<lparr>ps_subs = 0, ps_workers = 0\<rparr>"
  shows "run_ends ctx modifier st tr (Some e) (Some e) (signalled (Some e) st)"
  using assms unfolding run_ends_def by (simp add: signalled_ok)

lemma mounted_more:
  "mounted_and_flushed ctx modifier st tr \<Longrightarrow> mounted_and_flushed ctx modifier st (tr1 @ tr @ tr2)"
  unfolding mounted_and_flushed_def by (metis append_assoc append_Cons)

lemma runConnected_trace:
  assumes "replay (runConnected ctx modifier st) tr = Some (r, st')" and ok: "ready_ok st"
    and rest: "r_microServices st = []" "r_pull st = \<lparr>ps_subs = 0, ps_workers = 0\<rparr>"
  shows "\<exists>err e. r = Finished err \<and> run_ends ctx modifier st tr err e st' \<and> accounts 0 0 0 0 tr"
proof -
  have "(\<exists>e. r = Finished (Some e) \<and> st' = signalled (Some e) st \<and> accounts 0 0 0 0 tr) \<or>
    (\<exists>c j tr1 tr2 r1 st1. tr = [(Conn (EnsureConnection (WithCancel ctx)), c), (Conn EnsureJetStream, j)] @ tr1 @ tr2 \<and>
      replay (runMounted ctx modifier st) tr1 = Some (r1, st1) \<and> replay (shutdownRun (r1, st1)) tr2 = Some (r, st'))"
    using assms(1) unfolding runConnected_def by (auto simp: trace_simps fail_ready_eq [OF ok] accounts_def)
  then show ?thesis
  proof (elim disjE exE conjE)
    fix e assume "r = Finished (Some e)" "st' = signalled (Some e) st" "accounts 0 0 0 0 tr"
    then show ?thesis using run_endsI [OF ok rest] by blast
  next
    fix c j tr1 tr2 r1 st1
    assume tr: "tr = [(Conn (EnsureConnection (WithCancel ctx)), c), (Conn EnsureJetStream, j)] @ tr1 @ tr2"
      and mount: "replay (runMounted ctx modifier st) tr1 = Some (r1, st1)" and down: "replay (shutdownRun (r1, st1)) tr2 = Some (r, st')"
    obtain err e p services where e: "r1 = Finished err" "st1 = signalled e (st\<lparr>r_pull := p, r_microServices := services\<rparr>)"
      "accounts 0 (ps_subs p) 0 (length services) tr1" "e = None \<longrightarrow> mounted_and_flushed ctx modifier st tr1" "e \<noteq> None \<longrightarrow> err = e"
      using runMounted_trace [OF mount ok] rest by auto
    have "\<not> r_muHeld st1" using ok e(2) by (simp add: ready_ok_def)
    note st' = shutdownRun_trace [OF down this]
    have "accounts 0 0 0 0 tr" using e(3) st' by (simp add: tr e(2) accounts_def)
    moreover have "e = None \<longrightarrow> mounted_and_flushed ctx modifier st tr" using e(4) mounted_more unfolding tr by blast
    moreover have "ready_ok st'" using st' signalled_ok [of "st\<lparr>r_pull := p, r_microServices := services\<rparr>" e] ok
      by (simp add: e(2) ready_ok_def)
    ultimately show ?thesis using st' e(1,5)
      by (intro exI [of _ err] exI [of _ e]) (simp add: e(2) run_ends_def)
  qed
qed

lemma finishDo_Finished [simp]: "finishDo (Finished err, st) = (Finished err, st\<lparr>r_running := False\<rparr>)"
  by (simp add: finishDo_def)

lemma stopEmbedded_trace:
  assumes "replay (stopEmbedded (r, st)) tr = Some (r', st')" and "r \<noteq> Stuck" "\<not> r_muHeld st"
  shows "r' = r \<and> st' = st\<lparr>r_embeddedSrv := False\<rparr> \<and> subs_opened tr = 0 \<and> subs_closed tr = 0 \<and>
    services_started tr = 0 \<and> services_stopped tr = 0 \<and> servers_started tr = 0 \<and>
    servers_ended tr = (if r_embeddedSrv st then 1 else 0)"
  using assms by (auto simp: stopEmbedded_def stopServer_def trace_simps split: if_splits)

lemma startEmbedded_trace:
  assumes "replay (startEmbedded randomPort (Some cfg)) tr = Some (err, url)"
  shows "subs_opened tr = 0 \<and> subs_closed tr = 0 \<and> services_started tr = 0 \<and> services_stopped tr = 0 \<and>
    servers_started tr = servers_ended tr + (if err = None then 1 else 0)"
  using assms unfolding startEmbedded_def launchServer_def by (auto simp: trace_simps split: if_splits)

text \<open>The three ways through \<open>Do\<close> on a transport that is not running.\<close>

lemma Do_cases:
  assumes "replay (Do randomPort modifier ctx st) tr = Some (r, st')" and ok: "ready_ok st" and "at_rest st"
  defines "st0 \<equiv> st\<lparr>r_running := True, r_closing := False\<rparr>"
  obtains (failed) e err where "(r, st') = finishDo (Finished (Some e), signalled (Some e) st0)" "accounts 0 0 0 0 tr \<or>
      (\<exists>cfg url. replay (startEmbedded randomPort (Some cfg)) tr = Some (Some err, url))"
  | (plain) r1 st1 where "replay (runConnected ctx modifier st0) tr = Some (r1, st1)" "(r, st') = finishDo (r1, st1)"
  | (embedded) cfg tr1 tr2 tr3 url r1 st1 r2 st2 where "tr = tr1 @ tr2 @ tr3"
      "replay (startEmbedded randomPort (Some cfg)) tr1 = Some (None, url)"
      "replay (runConnected ctx modifier (st0\<lparr>r_embeddedSrv := True, r_url := the url\<rparr>)) tr2 = Some (r1, st1)"
      "replay (stopEmbedded (r1, st1)) tr3 = Some (r2, st2)" "(r, st') = finishDo (r2, st2)"
proof -
  have ok0: "ready_ok st0" using ok by (simp add: st0_def)
  have run: "replay (case r_initErr st0 of
         Some e \<Rightarrow> Ret (finishDo (fail_ready e st0))
       | None \<Rightarrow> (case r_embedded st0 of
           None \<Rightarrow> bind (runConnected ctx modifier st0) (\<lambda>x. Ret (finishDo x))
         | Some cfg \<Rightarrow> bind (startEmbedded randomPort (Some cfg)) (\<lambda>(err, url). case err of
             Some e \<Rightarrow> Ret (finishDo (fail_ready e st0))
           | None \<Rightarrow> bind (runConnected ctx modifier (st0\<lparr>r_embeddedSrv := True, r_url := the url\<rparr>)) (\<lambda>x.
               bind (stopEmbedded x) (\<lambda>x. Ret (finishDo x)))))) tr = Some (r, st')"
    using assms(1) ok \<open>at_rest st\<close> by (simp add: Do_def Let_def at_rest_def ready_ok_def flip: st0_def)
  show thesis
  proof (cases "r_initErr st0")
    case (Some e)
    then show thesis using run failed [of e e] by (simp add: trace_simps fail_ready_eq [OF ok0] accounts_def)
  next
    case init: None
    show thesis
    proof (cases "r_embedded st0")
      case None
      then show thesis using run init plain by (auto simp: trace_simps)
    next
      case (Some cfg)
      then show thesis using run init failed embedded by (auto simp: trace_simps fail_ready_eq [OF ok0]) blast+
    qed
  qed
qed

definition balanced :: "event list \<Rightarrow> bool" where
  "balanced tr \<longleftrightarrow> subs_opened tr = subs_closed tr \<and> services_started tr = services_stopped tr \<and>
     servers_started tr = servers_ended tr"

lemma accounts_balanced: "accounts n n k k tr \<Longrightarrow> balanced tr"
  by (simp add: accounts_def balanced_def)

lemma mounted_cong:
  "mounted_and_flushed ctx modifier (st\<lparr>r_running := b, r_closing := c\<rparr>) tr = mounted_and_flushed ctx modifier st tr"
  "mounted_and_flushed ctx modifier (st\<lparr>r_embeddedSrv := d, r_url := u\<rparr>) tr = mounted_and_flushed ctx modifier st tr"
  by (simp_all add: mounted_and_flushed_def)

lemma Do_run:
  assumes "replay (Do randomPort modifier ctx st) tr = Some (r, st')" and ok: "ready_ok st" and rest: "at_rest st"
  shows "\<exists>err e. r = Finished err \<and> ready_ok st' \<and> at_rest st' \<and> r_readyOnce st' \<and>
    (r_readyOnce st \<longrightarrow> r_readyErr st' = r_readyErr st) \<and> (\<not> r_readyOnce st \<longrightarrow> r_readyErr st' = e) \<and> balanced tr \<and>
    (e = None \<longrightarrow> mounted_and_flushed ctx modifier st tr) \<and> (e \<noteq> None \<longrightarrow> err = e)"
  using assms
proof (cases rule: Do_cases)
  case (failed e err)
  then have "balanced tr" using accounts_balanced startEmbedded_trace by (fastforce simp: balanced_def)
  moreover have "ready_ok (signalled (Some e) (st\<lparr>r_running := True, r_closing := False\<rparr>))" using ok by (simp add: signalled_ok)
  ultimately show ?thesis using failed(1) rest
    by (intro exI [of _ "Some e"]) (auto simp: ready_ok_def at_rest_def)
next
  case (plain r1 st1)
  let ?st = "st\<lparr>r_running := True, r_closing := False\<rparr>"
  obtain err e where "r1 = Finished err" "run_ends ctx modifier ?st tr err e st1" "accounts 0 0 0 0 tr"
    using runConnected_trace [OF plain(1)] ok rest by (auto simp: at_rest_def)
  then show ?thesis using plain(2) rest
    by (intro exI [of _ err] exI [of _ e]) (auto simp: run_ends_def mounted_cong at_rest_def ready_ok_def accounts_balanced)
next
  case (embedded cfg tr1 tr2 tr3 url r1 st1 r2 st2)
  let ?st = "st\<lparr>r_running := True, r_closing := False, r_embeddedSrv := True, r_url := the url\<rparr>"
  obtain err e where e: "r1 = Finished err" "run_ends ctx modifier ?st tr2 err e st1" and acc: "accounts 0 0 0 0 tr2"
    using runConnected_trace [OF embedded(3)] ok rest by (auto simp: at_rest_def)
  then have "r1 \<noteq> Stuck" "\<not> r_muHeld st1" and srv: "r_embeddedSrv st1" by (auto simp: run_ends_def ready_ok_def)
  note stop = stopEmbedded_trace [OF embedded(4) this(1,2)]
  have "balanced tr" using startEmbedded_trace [OF embedded(2)] acc stop srv
    by (simp add: embedded(1) balanced_def accounts_def)
  moreover have "e = None \<longrightarrow> mounted_and_flushed ctx modifier st tr"
    using e(2) mounted_more [of ctx modifier st tr2 tr1 tr3] by (simp add: run_ends_def mounted_and_flushed_def embedded(1))
  ultimately show ?thesis using embedded(5) stop e
    by (intro exI [of _ err] exI [of _ e]) (auto simp: run_ends_def at_rest_def ready_ok_def)
qed

text \<open>
  C7: A run of a transport made by \<open>New\<close> always cleans up after itself. From a state at rest, however
  it ends, \<open>Do\<close> returns, never panics and never blocks on its own mutex; the transport is at rest
  again, every subscription, service and embedded server it had accepted has been given back, and
  readiness has been signalled.
\<close>

theorem Do_cleans_up:
  assumes "replay (Do randomPort modifier ctx st) tr = Some (r, st')" and "ready_ok st" and "at_rest st"
  shows "(\<exists>err. r = Finished err) \<and> ready_ok st' \<and> at_rest st' \<and> r_ready st' \<and>
    subs_opened tr = subs_closed tr \<and> services_started tr = services_stopped tr \<and> servers_started tr = servers_ended tr"
  using Do_run [OF assms] by (auto simp: balanced_def ready_ok_def)

definition topicAction :: any_action where
  "topicAction = \<lparr>aa_Exec = Some 1, aa_Describe = None, aa_Bindings = [IsTopic \<lparr>tb_Subject = ''s'', tb_QueueGroup = []\<rparr>]\<rparr>"

definition freshRun :: run_state where
  "freshRun = Mount [topicAction] (New_run (New_settings 0 0 ''nats://h'' []))"

definition shortRun :: "event list" where
  "shortRun = [(Conn (EnsureConnection (WithCancel Background)), answer0), (Conn EnsureJetStream, answer0),
     (Conn (NcSubscribe ''s'' None), answer0), (Conn (NcFlush (WithTimeout (WithCancel Background) defaultShutdownTimeout)), answer0),
     (Conn (AwaitEnd (WithCancel Background)), answer0), (SubUnsubscribe, answer0), (Run WorkersWait, answer0),
     (Run CloseTransport, answer0)]"

lemma freshRun_ok: "ready_ok freshRun" "at_rest freshRun" "\<not> r_readyOnce freshRun"
  by (simp_all add: freshRun_def Mount_def New_run_def New_settings_def idle_state_def ready_ok_def at_rest_def)

lemma shortRun_run:
  "replay (Do (-1) None Background freshRun) shortRun =
     Some (Finished None, freshRun\<lparr>r_closing := True, r_ready := True, r_readyOnce := True\<rparr>)"
  by (simp add: Do_def shortRun_def freshRun_def Mount_def New_run_def New_settings_def idle_state_def runConnected_def runMounted_def
      mountActions_def topicAction_def subscribeTopic_def mountMicroServices_def serveMounted_def signalReady_def shutdownRun_def
      finishDo_def add_sub_def replay.simps Let_def)

theorem Do_cleans_up_witness: "at_rest (freshRun\<lparr>r_closing := True, r_ready := True, r_readyOnce := True\<rparr>) \<and>
    subs_opened shortRun = subs_closed shortRun"
  using Do_cleans_up [OF shortRun_run freshRun_ok(1,2)] by simp

text \<open>
  C13: The first run decides readiness truthfully. \<open>WaitReady\<close> then reports what was signalled: no
  error only if every binding of every action was mounted and the server has confirmed it by a
  flush, and an error only if it is the one \<open>Do\<close> returns.
\<close>

theorem Do_readiness:
  assumes "replay (Do randomPort modifier ctx st) tr = Some (r, st')" and "ready_ok st" and "at_rest st" and "\<not> r_readyOnce st"
  shows "WaitReady st' None = {r_readyErr st'} \<and>
    (r_readyErr st' = None \<longrightarrow> mounted_and_flushed ctx modifier st tr) \<and>
    (\<forall>e. r_readyErr st' = Some e \<longrightarrow> r = Finished (Some e))"
  using Do_run [OF assms(1-3)] assms(4) by (auto simp: ready_ok_def WaitReady_def)

theorem Do_readiness_witness: "mounted_and_flushed Background None freshRun shortRun"
proof -
  have "r_readyErr (freshRun\<lparr>r_closing := True, r_ready := True, r_readyOnce := True\<rparr>) = None"
    by (simp add: freshRun_def Mount_def New_run_def idle_state_def)
  then show ?thesis using Do_readiness [OF shortRun_run freshRun_ok] by simp
qed

text \<open>A later run of the same transport does not change what was signalled by the first.\<close>

lemma Do_readiness_sticks:
  assumes "replay (Do randomPort modifier ctx st) tr = Some (r, st')" and "ready_ok st" and "at_rest st" and "r_readyOnce st"
  shows "WaitReady st' None = {r_readyErr st}"
  using Do_run [OF assms(1-3)] assms(4) by (auto simp: ready_ok_def WaitReady_def)

section \<open>A run on a supplied connection\<close>

text \<open>The channel is closed although its \<open>Once\<close> is not spent: signalling panics with the mutex held.\<close>

definition preclosed :: "run_state \<Rightarrow> bool" where
  "preclosed st \<longleftrightarrow> r_ready st \<and> \<not> r_readyOnce st"

definition broken :: "goerror option \<Rightarrow> run_state \<Rightarrow> run_state" where
  "broken err st = st\<lparr>r_readyOnce := True, r_readyErr := err, r_muHeld := True\<rparr>"

lemma preclosed_signal:
  "preclosed st \<Longrightarrow> signalReady err st = (False, broken err st)" "preclosed st \<Longrightarrow> fail_ready e st = (Crash, broken (Some e) st)"
  by (simp_all add: preclosed_def signalReady_def fail_ready_def broken_def)

lemma broken_held [simp]: "r_muHeld (broken err st)"
  by (simp add: broken_def)

lemma preclosed_serve:
  assumes "replay (serveMounted ctx mountErr st) tr = Some (r, st')" and "preclosed st"
  shows "r = Crash \<and> r_muHeld st'"
  using assms(1) by (auto simp: serveMounted_def trace_simps preclosed_signal [OF assms(2)])

lemma preclosed_connected:
  assumes "replay (runConnected ctx modifier st) tr = Some (r, st')" and "preclosed st"
  shows "r_muHeld st' \<and> (r = Crash \<or> r = Stuck) \<and> ((\<exists>a. (Conn EnsureJetStream, a) \<in> set tr \<and> a_err a = None) \<longrightarrow> r = Stuck)"
proof -
  have "preclosed (st\<lparr>r_pull := p, r_microServices := ss\<rparr>)" for p ss using assms(2) by (simp add: preclosed_def)
  then have m: "r1 = Crash \<and> r_muHeld st1" if "replay (runMounted ctx modifier st) tr1 = Some (r1, st1)" for tr1 r1 st1
    using that unfolding runMounted_def by (auto simp: trace_simps dest: preclosed_serve)
  show ?thesis using assms(1)
    unfolding runConnected_def by (auto simp: trace_simps preclosed_signal [OF assms(2)] shutdownRun_def dest: m)
qed

text \<open>
  C20: A transport made by \<open>FromConn\<close> cannot be run: whatever is mounted and however the calls of \<open>Do\<close>
  are answered, \<open>Do\<close> never returns. Signalling readiness panics on the channel that \<open>FromConn\<close> has
  already closed and leaves the mutex locked; once the connection is set up, the deferred shutdown
  then waits for that mutex forever.
\<close>

theorem FromConn_Do_never_returns:
  assumes "replay (Do randomPort modifier ctx (Mount actions (FromConn_run url))) tr = Some (r, st')"
  shows "r_muHeld st' \<and> (\<forall>err. r \<noteq> Finished err) \<and>
    ((\<exists>a. (Conn EnsureJetStream, a) \<in> set tr \<and> a_err a = None) \<longrightarrow> r = Stuck)"
proof -
  let ?st = "(Mount actions (FromConn_run url))\<lparr>r_running := True, r_closing := False\<rparr>"
  have "preclosed ?st" by (simp add: preclosed_def Mount_def FromConn_run_def idle_state_def)
  moreover obtain r1 st1 where "replay (runConnected ctx modifier ?st) tr = Some (r1, st1)" "(r, st') = finishDo (r1, st1)"
    using assms by (auto simp: Do_def Mount_def FromConn_run_def idle_state_def trace_simps)
  ultimately show ?thesis using preclosed_connected [of ctx modifier ?st tr r1 st1] by (auto simp: finishDo_def split: if_splits)
qed

definition suppliedRun :: "event list" where
  "suppliedRun = take 4 shortRun"

theorem FromConn_Do_never_returns_witness:
  "\<exists>st'. replay (Do (-1) None Background (Mount [topicAction] (FromConn_run ''nats://h''))) suppliedRun = Some (Stuck, st') \<and>
     r_muHeld st'"
proof -
  let ?run = "replay (Do (-1) None Background (Mount [topicAction] (FromConn_run ''nats://h''))) suppliedRun"
  have "\<exists>x. ?run = Some x"
    by (simp add: Do_def suppliedRun_def shortRun_def Mount_def FromConn_run_def idle_state_def runConnected_def runMounted_def
      mountActions_def topicAction_def subscribeTopic_def mountMicroServices_def serveMounted_def signalReady_def shutdownRun_def
      finishDo_def add_sub_def replay.simps Let_def)
  then obtain r st' where run: "?run = Some (r, st')" by auto
  have "(Conn EnsureJetStream, answer0) \<in> set suppliedRun" by (simp add: suppliedRun_def shortRun_def)
  then show ?thesis using FromConn_Do_never_returns [OF run] run by auto
qed

end
