(* ===== verification/Encodings.thy ===== *)
theory Encodings
  imports Effects "HOL-Library.Log_Nat"
begin

text \<open>
  The parts of Go's standard library that the flow actions use on text and bytes: base64, the validity
  of UTF-8, trimming, cutting and splitting of strings, and durations.
\<close>

section \<open>Base64\<close>

text \<open>\<open>base64.StdEncoding\<close>: 64 characters for 6-bit digits, with padding.\<close>

definition b64_char :: "nat \<Rightarrow> char" where
  "b64_char n = char_of (if n < 26 then 65 + n else if n < 52 then 71 + n else if n < 62 then n - 4
     else if n = 62 then 43 else 47 :: nat)"

definition b64_digit :: "char \<Rightarrow> nat option" where
  "b64_digit c = (let n = of_char c :: nat in
     if 65 \<le> n \<and> n \<le> 90 then Some (n - 65) else if 97 \<le> n \<and> n \<le> 122 then Some (n - 71)
     else if 48 \<le> n \<and> n \<le> 57 then Some (n + 4) else if n = 43 then Some 62 else if n = 47 then Some 63 else None)"

abbreviation pad :: char where "pad \<equiv> CHR ''=''"

abbreviation byte :: "nat \<Rightarrow> char" where "byte n \<equiv> char_of n"

fun EncodeToString :: "bytes \<Rightarrow> string" where
  "EncodeToString [] = []"
| "EncodeToString [a] = (let v = of_char a * 65536 :: nat in
     [b64_char (v div 262144), b64_char (v div 4096 mod 64), pad, pad])"
| "EncodeToString [a, b] = (let v = of_char a * 65536 + of_char b * 256 :: nat in
     [b64_char (v div 262144), b64_char (v div 4096 mod 64), b64_char (v div 64 mod 64), pad])"
| "EncodeToString (a # b # c # rest) = (let v = of_char a * 65536 + of_char b * 256 + of_char c :: nat in
     [b64_char (v div 262144), b64_char (v div 4096 mod 64), b64_char (v div 64 mod 64), b64_char (v mod 64)]
     @ EncodeToString rest)"

text \<open>
  Decoding by groups of four characters; padding is accepted only in the last group, and bits of the
  last digit that no byte uses are dropped.
\<close>

fun decodeQuanta :: "string \<Rightarrow> bytes option" where
  "decodeQuanta [] = Some []"
| "decodeQuanta (a # b # c # d # rest) =
    (case (b64_digit a, b64_digit b) of
       (Some w, Some x) \<Rightarrow>
         if c = pad then
           (if d = pad \<and> rest = [] then Some [byte ((w * 262144 + x * 4096) div 65536 mod 256)] else None)
         else (case b64_digit c of
             None \<Rightarrow> None
           | Some y \<Rightarrow>
               let v = w * 262144 + x * 4096 + y * 64 in
               if d = pad then (if rest = [] then Some [byte (v div 65536 mod 256), byte (v div 256 mod 256)] else None)
               else (case b64_digit d of
                   None \<Rightarrow> None
                 | Some z \<Rightarrow> map_option (\<lambda>tail. [byte ((v + z) div 65536 mod 256), byte ((v + z) div 256 mod 256),
                     byte ((v + z) mod 256)] @ tail) (decodeQuanta rest)))
     | _ \<Rightarrow> None)"
| "decodeQuanta _ = None"

text \<open>Line breaks are skipped wherever they stand.  The error stands for the position of the bad input.\<close>

definition DecodeString :: "string \<Rightarrow> goerror + bytes" where
  "DecodeString s = (case decodeQuanta (filter (\<lambda>c. c \<noteq> CHR 0x0A \<and> c \<noteq> CHR 0x0D) s) of
     None \<Rightarrow> Inl (plain_error ''illegal base64 data'') | Some d \<Rightarrow> Inr d)"

section \<open>UTF-8\<close>

abbreviation in_range :: "char \<Rightarrow> nat \<Rightarrow> nat \<Rightarrow> bool" where
  "in_range c lo hi \<equiv> lo \<le> of_char c \<and> of_char c \<le> hi"

abbreviation continuation :: "char \<Rightarrow> bool" where
  "continuation c \<equiv> in_range c 0x80 0xBF"

text \<open>\<open>utf8.Valid\<close>: the length of the valid encoding of one rune at the start, if there is one.\<close>

definition rune_len :: "bytes \<Rightarrow> nat option" where
  "rune_len s = (case s of
      [] \<Rightarrow> None
    | a # r \<Rightarrow>
        if in_range a 0 0x7F then Some 1
        else if in_range a 0xC2 0xDF then (case r of b # _ \<Rightarrow> if continuation b then Some 2 else None | _ \<Rightarrow> None)
        else if in_range a 0xE0 0xEF then (case r of
            b # c # _ \<Rightarrow>
              if in_range b (if of_char a = (0xE0 :: nat) then 0xA0 else 0x80) (if of_char a = (0xED :: nat) then 0x9F else 0xBF)
                \<and> continuation c then Some 3 else None
          | _ \<Rightarrow> None)
        else if in_range a 0xF0 0xF4 then (case r of
            b # c # d # _ \<Rightarrow>
              if in_range b (if of_char a = (0xF0 :: nat) then 0x90 else 0x80) (if of_char a = (0xF4 :: nat) then 0x8F else 0xBF)
                \<and> continuation c \<and> continuation d then Some 4 else None
          | _ \<Rightarrow> None)
        else None)"

lemma rune_len_pos: "rune_len s = Some n \<Longrightarrow> 0 < n \<and> n \<le> length s"
  by (auto simp: rune_len_def split: list.splits if_splits)

function utf8_Valid :: "bytes \<Rightarrow> bool" where
  "utf8_Valid s = (if s = [] then True else (case rune_len s of None \<Rightarrow> False | Some n \<Rightarrow> utf8_Valid (drop n s)))"
  by pat_completeness auto
termination
  by (relation "measure length") (auto dest: rune_len_pos)

section \<open>Strings\<close>

text \<open>The encodings of the runes that \<open>unicode.IsSpace\<close> accepts.\<close>

definition spaces :: "bytes list" where
  "spaces = map (\<lambda>n. [char_of n]) [0x09, 0x0A, 0x0B, 0x0C, 0x0D, 0x20 :: nat]
     @ [[char_of (0xC2 :: nat), char_of (0x85 :: nat)], [char_of (0xC2 :: nat), char_of (0xA0 :: nat)],
        [char_of (0xE1 :: nat), char_of (0x9A :: nat), char_of (0x80 :: nat)]]
     @ map (\<lambda>n. [char_of (0xE2 :: nat), char_of (0x80 :: nat), char_of n]) ([0x80 ..< 0x8B] @ [0xA8, 0xA9, 0xAF :: nat])
     @ [[char_of (0xE2 :: nat), char_of (0x81 :: nat), char_of (0x9F :: nat)],
        [char_of (0xE3 :: nat), char_of (0x80 :: nat), char_of (0x80 :: nat)]]"

definition leading_space :: "bytes list \<Rightarrow> string \<Rightarrow> bytes option" where
  "leading_space sps s = List.find (\<lambda>sp. sp \<noteq> [] \<and> take (length sp) s = sp) sps"

lemma leading_space_shorter: "leading_space sps s = Some sp \<Longrightarrow> length (drop (length sp) s) < length s"
  unfolding leading_space_def find_Some_iff by (metis append_take_drop_id length_append length_greater_0_conv less_add_same_cancel2)

function trimLeft :: "bytes list \<Rightarrow> string \<Rightarrow> string" where
  "trimLeft sps s = (case leading_space sps s of None \<Rightarrow> s | Some sp \<Rightarrow> trimLeft sps (drop (length sp) s))"
  by pat_completeness auto
termination
  by (relation "measure (length \<circ> snd)") (auto dest: leading_space_shorter)

definition TrimSpace :: "string \<Rightarrow> string" where
  "TrimSpace s = rev (trimLeft (map rev spaces) (rev (trimLeft spaces s)))"

text \<open>Lower case of the ASCII letters, all that the comparisons of the actions depend on.\<close>

definition lower_char :: "char \<Rightarrow> char" where
  "lower_char c = (if in_range c 65 90 then char_of (of_char c + 32 :: nat) else c)"

definition ToLower :: "string \<Rightarrow> string" where "ToLower = map lower_char"

text \<open>\<open>strings.Cut\<close> and \<open>strings.Split\<close> at a character.\<close>

definition Cut :: "string \<Rightarrow> char \<Rightarrow> string \<times> string \<times> bool" where
  "Cut s sep = (if sep \<in> set s then (takeWhile (\<lambda>c. c \<noteq> sep) s, tl (dropWhile (\<lambda>c. c \<noteq> sep) s), True) else (s, [], False))"

fun Split :: "string \<Rightarrow> char \<Rightarrow> string list" where
  "Split [] sep = [[]]"
| "Split (c # s) sep = (if c = sep then [] # Split s sep
     else (case Split s sep of [] \<Rightarrow> [[c]] | part # parts \<Rightarrow> (c # part) # parts))"

section \<open>Floating point\<close>

text \<open>
  A positive \<open>float64\<close> of the normal range: an integer and a power of two.  \<open>round53\<close> is the nearest one
  to a positive fraction, with ties to the even integer.
\<close>

type_synonym float64 = "nat \<times> int"

definition round53 :: "nat \<Rightarrow> nat \<Rightarrow> float64" where
  "round53 n d =
    (let k = 53 + int (floorlog 2 d) - int (floorlog 2 n);
         quotient = (\<lambda>k. if k \<ge> 0 then (n * 2 ^ nat k, d) else (n, d * 2 ^ nat (- k)));
         k = (if fst (quotient k) div snd (quotient k) \<ge> 2 ^ 53 then k - 1 else k);
         (n', d') = quotient k; q = n' div d'; r = n' mod d'
     in (if 2 * r > d' \<or> (2 * r = d' \<and> odd q) then q + 1 else q, - k))"

definition float_mult :: "float64 \<Rightarrow> float64 \<Rightarrow> float64" where
  "float_mult x y = (let (m, e) = round53 (fst x * fst y) 1 in (m, e + snd x + snd y))"

definition truncate :: "float64 \<Rightarrow> nat" where
  "truncate x = (if snd x \<ge> 0 then fst x * 2 ^ nat (snd x) else fst x div 2 ^ nat (- snd x))"

section \<open>Durations\<close>

text \<open>\<open>time.ParseDuration\<close>; results of 2 to the power 63 and more are errors.\<close>

abbreviation two63 :: nat where "two63 \<equiv> 9223372036854775808"

abbreviation is_digit :: "char \<Rightarrow> bool" where "is_digit c \<equiv> in_range c 48 57"

abbreviation digit :: "char \<Rightarrow> nat" where "digit c \<equiv> of_char c - 48"

fun leadingInt :: "nat \<Rightarrow> string \<Rightarrow> (nat \<times> string) option" where
  "leadingInt x [] = Some (x, [])"
| "leadingInt x (c # s) =
    (if \<not> is_digit c then Some (x, c # s)
     else if x > two63 div 10 then None
     else if x * 10 + digit c > two63 then None
     else leadingInt (x * 10 + digit c) s)"

text \<open>The scale, a power of ten of at most 19 digits, is exact as a \<open>float64\<close>.\<close>

fun leadingFraction :: "nat \<Rightarrow> nat \<Rightarrow> bool \<Rightarrow> string \<Rightarrow> nat \<times> nat \<times> string" where
  "leadingFraction x scale overflow [] = (x, scale, [])"
| "leadingFraction x scale overflow (c # s) =
    (if \<not> is_digit c then (x, scale, c # s)
     else if overflow then leadingFraction x scale True s
     else if x > (two63 - 1) div 10 then leadingFraction x scale True s
     else if x * 10 + digit c > two63 then leadingFraction x scale True s
     else leadingFraction (x * 10 + digit c) (scale * 10) False s)"

definition unitMap :: "string \<Rightarrow> nat option" where
  "unitMap = map_of [(''ns'', 1), (''us'', 1000), ([char_of (0xC2 :: nat), char_of (0xB5 :: nat), CHR ''s''], 1000),
     ([char_of (0xCE :: nat), char_of (0xBC :: nat), CHR ''s''], 1000), (''ms'', 1000000), (''s'', 1000000000),
     (''m'', 60000000000), (''h'', 3600000000000)]"

text \<open>\<open>uint64(float64(f) * (float64(unit) / scale))\<close>.\<close>

definition fractionOf :: "nat \<Rightarrow> nat \<Rightarrow> nat \<Rightarrow> nat" where
  "fractionOf f unit scale = truncate (float_mult (round53 f 1) (round53 unit scale))"

text \<open>The digits of one number, before and after the point, and the remaining text.\<close>

definition parseNumber :: "string \<Rightarrow> (nat \<times> nat \<times> nat \<times> string) option" where
  "parseNumber s0 =
    (if s0 = [] \<or> (hd s0 \<noteq> CHR ''.'' \<and> \<not> is_digit (hd s0)) then None
     else (case leadingInt 0 s0 of
         None \<Rightarrow> None
       | Some (v, s1) \<Rightarrow>
           let pre = length s1 \<noteq> length s0 in
           if s1 \<noteq> [] \<and> hd s1 = CHR ''.'' then
             let (f, scale, s2) = leadingFraction 0 1 False (tl s1); post = length s2 \<noteq> length (tl s1)
             in if \<not> pre \<and> \<not> post then None else Some (v, f, scale, s2)
           else if \<not> pre then None else Some (v, 0, 1, s1)))"

text \<open>The unit of a number: the value and the remaining text.\<close>

definition parseUnit :: "nat \<Rightarrow> nat \<Rightarrow> nat \<Rightarrow> string \<Rightarrow> (nat \<times> string) option" where
  "parseUnit v f scale s =
    (let u = takeWhile (\<lambda>c. c \<noteq> CHR ''.'' \<and> \<not> is_digit c) s in
     if u = [] then None
     else (case unitMap u of
         None \<Rightarrow> None
       | Some unit \<Rightarrow>
           if v > two63 div unit then None
           else if f > 0 \<and> v * unit + fractionOf f unit scale > two63 then None
           else Some (v * unit + (if f > 0 then fractionOf f unit scale else 0), drop (length u) s)))"

definition parseStep :: "string \<Rightarrow> (nat \<times> string) option" where
  "parseStep s = (case parseNumber s of None \<Rightarrow> None | Some (v, f, scale, s') \<Rightarrow> parseUnit v f scale s')"

lemma leadingInt_shorter: "leadingInt x s = Some (v, s') \<Longrightarrow> length s' \<le> length s"
  by (induction x s rule: leadingInt.induct) (auto split: if_splits)

lemma leadingFraction_shorter: "leadingFraction x sc b s = (f, scale, s') \<Longrightarrow> length s' \<le> length s"
  by (induction x sc b s rule: leadingFraction.induct) (auto split: if_splits intro: le_SucI)

lemma parseNumber_shorter: "parseNumber s = Some (v, f, scale, s') \<Longrightarrow> length s' \<le> length s"
  by (auto simp: parseNumber_def Let_def split: if_splits option.splits prod.splits
      dest!: leadingInt_shorter leadingFraction_shorter)

lemma parseUnit_shorter: "parseUnit v f scale s = Some (w, s') \<Longrightarrow> length s' < length s"
  by (auto simp: parseUnit_def Let_def split: if_splits option.splits) (cases s; simp)+

lemma parseStep_shorter: "parseStep s = Some (v, s') \<Longrightarrow> length s' < length s"
  by (auto simp: parseStep_def split: option.splits dest!: parseNumber_shorter parseUnit_shorter)

function parseSum :: "nat \<Rightarrow> string \<Rightarrow> nat option" where
  "parseSum d s = (if s = [] then Some d else (case parseStep s of
     None \<Rightarrow> None
   | Some (v, s') \<Rightarrow> if d + v > two63 then None else parseSum (d + v) s'))"
  by pat_completeness auto
termination
  by (relation "measure (length \<circ> snd)") (auto dest: parseStep_shorter)

definition ParseDuration :: "string \<Rightarrow> goerror + duration" where
  "ParseDuration orig =
    (let invalid = Inl (plain_error ''time: invalid duration'');
         signed = (orig \<noteq> [] \<and> (hd orig = CHR ''-'' \<or> hd orig = CHR ''+''));
         neg = (signed \<and> hd orig = CHR ''-'');
         s = (if signed then tl orig else orig)
     in if s = ''0'' then Inr 0
        else if s = [] then invalid
        else (case parseSum 0 s of
            None \<Rightarrow> invalid
          | Some d \<Rightarrow>
              if neg then Inr (- int d)
              else if d > two63 - 1 then invalid else Inr (int d)))"

declare utf8_Valid.simps [simp del] trimLeft.simps [simp del] parseSum.simps [simp del]

section \<open>Round trips and bounds\<close>

lemma b64_digit_char [simp]: "n < 64 \<Longrightarrow> b64_digit (b64_char n) = Some n"
  by (auto simp: b64_digit_def b64_char_def Let_def)

lemma b64_char_no_pad [simp]: "n < 64 \<Longrightarrow> b64_char n \<noteq> pad"
  by (auto dest!: b64_digit_char simp: b64_digit_def)

lemma b64_char_no_break [simp]: "n < 64 \<Longrightarrow> b64_char n \<noteq> CHR 0x0A" "n < 64 \<Longrightarrow> b64_char n \<noteq> CHR 0x0D"
  by (auto dest!: b64_digit_char simp: b64_digit_def)

lemma digits_back: "v div 262144 * 262144 + v div 4096 mod 64 * 4096 + v div 64 mod 64 * 64 + v mod 64 = (v :: nat)"
proof -
  have "v div 4096 = v div 64 div 64" "v div 262144 = v div 4096 div 64" by (simp_all flip: div_mult2_eq)
  then show ?thesis
    using div_mult_mod_eq [of v 64] div_mult_mod_eq [of "v div 64" 64] div_mult_mod_eq [of "v div 4096" 64] by linarith
qed

lemma bytes_back:
  fixes a b c :: nat
  assumes "a < 256" "b < 256" "c < 256"
  shows "(a * 65536 + b * 256 + c) div 65536 mod 256 = a" "(a * 65536 + b * 256 + c) div 256 mod 256 = b"
    "(a * 65536 + b * 256 + c) mod 256 = c" "(a * 65536 + b * 256 + c) div 262144 < 64"
proof -
  have v: "a * 65536 + b * 256 + c = c + (a * 256 + b) * 256" by simp
  have d: "(a * 65536 + b * 256 + c) div 256 = a * 256 + b" unfolding v by (subst div_mult_self1) (use assms in simp_all)
  have "(a * 65536 + b * 256 + c) div 65536 = (a * 65536 + b * 256 + c) div 256 div 256" by (simp flip: div_mult2_eq)
  then have e: "(a * 65536 + b * 256 + c) div 65536 = a" unfolding d using assms by simp
  then show "(a * 65536 + b * 256 + c) div 65536 mod 256 = a" using assms by simp
  show "(a * 65536 + b * 256 + c) div 256 mod 256 = b" unfolding d using assms by simp
  show "(a * 65536 + b * 256 + c) mod 256 = c" unfolding v by (subst mod_mult_self1) (use assms in simp)
  show "(a * 65536 + b * 256 + c) div 262144 < 64" using assms by simp
qed

lemma of_char_256 [simp]: "of_char c < (256 :: nat)"
  by (rule nat_of_char_less_256)

lemma byte_eq: "n mod 256 = of_char c \<Longrightarrow> byte n = c"
  by (metis char_of_mod_256 char_of_char)

lemma decode_encode_quanta: "decodeQuanta (EncodeToString d) = Some d"
proof (induction d rule: EncodeToString.induct)
  case (2 a)
  define v where "v = (of_char a * 65536 :: nat)"
  have "v div 262144 * 262144 + v div 4096 mod 64 * 4096 = v" using digits_back [of v] by (simp add: v_def)
  moreover have "v div 262144 < 64" "v div 65536 mod 256 = of_char a" using bytes_back [of "of_char a" 0 0] by (simp_all add: v_def)
  ultimately show ?case by (simp add: Let_def byte_eq flip: v_def)
next
  case (3 a b)
  define v where "v = (of_char a * 65536 + of_char b * 256 :: nat)"
  have "v div 262144 * 262144 + v div 4096 mod 64 * 4096 + v div 64 mod 64 * 64 = v" using digits_back [of v] by (simp add: v_def)
  moreover have "v div 262144 < 64" "v div 65536 mod 256 = of_char a" "v div 256 mod 256 = of_char b"
    using bytes_back [of "of_char a" "of_char b" 0] by (simp_all only: v_def add_0_right of_char_256)
  ultimately show ?case by (simp add: Let_def byte_eq flip: v_def)
next
  case (4 a b c rest)
  define v where "v = (of_char a * 65536 + of_char b * 256 + of_char c :: nat)"
  have "v div 262144 < 64" "v div 65536 mod 256 = of_char a" "v div 256 mod 256 = of_char b" "v mod 256 = of_char c"
    unfolding v_def by (rule bytes_back; simp)+
  then show ?case using 4 digits_back [of v] by (simp add: Let_def byte_eq flip: v_def)
qed simp

lemma encode_no_break: "c \<in> set (EncodeToString d) \<Longrightarrow> c \<noteq> CHR 0x0A \<and> c \<noteq> CHR 0x0D"
proof (induction d rule: EncodeToString.induct)
  case (2 a)
  then show ?case using bytes_back(4) [of "of_char a" 0 0] by (auto simp: Let_def)
next
  case (3 a b)
  then show ?case using bytes_back(4) [of "of_char a" "of_char b" 0] by (auto simp: Let_def)
next
  case (4 a b c rest)
  then show ?case using bytes_back(4) [of "of_char a" "of_char b" "of_char c"] by (auto simp: Let_def)
qed simp

text \<open>Decoding base64 gives back what was encoded.\<close>

lemma base64_roundtrip: "DecodeString (EncodeToString d) = Inr d"
proof -
  have "filter (\<lambda>c. c \<noteq> CHR 0x0A \<and> c \<noteq> CHR 0x0D) (EncodeToString d) = EncodeToString d"
    using encode_no_break by (simp add: filter_id_conv)
  then show ?thesis by (simp add: DecodeString_def decode_encode_quanta)
qed

text \<open>Trimming keeps a text that starts and ends with visible ASCII characters.\<close>

lemma trimLeft_visible:
  assumes "s = [] \<or> hd s \<notin> hd ` set sps"
  shows "trimLeft sps s = s"
proof -
  have "take (length sp) s \<noteq> sp" if "sp \<in> set sps" "sp \<noteq> []" for sp
    using assms that by (cases s; cases sp) force+
  then have "leading_space sps s = None" by (auto simp: leading_space_def find_None_iff)
  then show ?thesis by (simp add: trimLeft.simps)
qed

definition visible :: "char \<Rightarrow> bool" where
  "visible c \<longleftrightarrow> in_range c 33 127"

lemma spaces_invisible: "sp \<in> set spaces \<Longrightarrow> \<not> visible (hd sp) \<and> \<not> visible (last sp)"
  by (auto simp: spaces_def visible_def)

lemma TrimSpace_visible:
  assumes "s \<noteq> []" "visible (hd s)" "visible (last s)"
  shows "TrimSpace s = s"
proof -
  have "trimLeft spaces s = s" using assms(2) by (intro trimLeft_visible) (auto dest: spaces_invisible)
  moreover have "trimLeft (map rev spaces) (rev s) = rev s"
    using assms(1,3) by (intro trimLeft_visible) (auto simp: hd_rev dest: spaces_invisible)
  ultimately show ?thesis by (simp add: TrimSpace_def)
qed

text \<open>Splitting gives back the parts that were joined.\<close>

fun joined :: "char \<Rightarrow> string list \<Rightarrow> string" where
  "joined sep [] = []"
| "joined sep [p] = p"
| "joined sep (p # ps) = p @ sep # joined sep ps"

lemma Split_plain: "sep \<notin> set p \<Longrightarrow> Split p sep = [p]"
  by (induction p) auto

lemma Split_append: "sep \<notin> set p \<Longrightarrow> Split (p @ sep # s) sep = p # Split s sep"
  by (induction p) auto

lemma Split_joined: "ps \<noteq> [] \<Longrightarrow> \<forall>p \<in> set ps. sep \<notin> set p \<Longrightarrow> Split (joined sep ps) sep = ps"
  by (induction sep ps rule: joined.induct) (auto simp: Split_plain Split_append)

lemma Split_nonempty: "Split s sep \<noteq> []"
  by (induction s) (auto split: list.split)

lemma joined_Split: "joined sep (Split s sep) = s"
proof (induction s)
  case (Cons c s)
  then show ?case using Split_nonempty [of s sep] by (cases "Split s sep" rule: list.exhaust; cases "tl (Split s sep)") auto
qed simp

lemma Split_clean: "p \<in> set (Split s sep) \<Longrightarrow> sep \<notin> set p"
  by (induction s arbitrary: p) (auto split: list.splits if_splits)

text \<open>A parsed duration is in the range of \<open>int64\<close>.\<close>

lemma parseSum_bound: "parseSum d s = Some r \<Longrightarrow> d \<le> two63 \<Longrightarrow> r \<le> two63"
proof (induction d s rule: parseSum.induct)
  case (1 d s)
  then show ?case by (subst (asm) (2) parseSum.simps) (auto split: if_splits option.splits)
qed

lemma ParseDuration_range: "ParseDuration s = Inr d \<Longrightarrow> in_int64 d"
  by (auto simp: ParseDuration_def Let_def in_int64_def split: if_splits option.splits dest!: parseSum_bound)

end
