(* ===== verification/Flow.thy ===== *)
theory Flow
  imports Lifecycle Encodings
begin

text \<open>
  The flow library over the transport: the bundle, its binding modifiers and its actions
  (\<open>src/nexssflow/library.go\<close>, \<open>src/nexssflow/jetstream_actions.go\<close>).  Decoding the bundle's options
  and resolving action names belong to the flow compiler and are parameters.
\<close>

section \<open>Configuration and bundle\<close>

record Config =
  fc_URL :: string
  fc_Name :: string
  fc_Timeout :: duration
  fc_CredsFile :: string
  fc_Token :: string
  fc_RootCAFile :: string
  fc_ClientCertFile :: string
  fc_ClientKeyFile :: string
  fc_Production :: bool

definition normalizeConfig :: "Config \<Rightarrow> Config" where
  "normalizeConfig cfg =
    (let cfg = (if fc_URL cfg = [] then cfg\<lparr>fc_URL := ''nats://127.0.0.1:4222''\<rparr> else cfg);
         cfg = (if fc_Name cfg = [] then cfg\<lparr>fc_Name := ''nflow-client''\<rparr> else cfg)
     in if fc_Timeout cfg \<le> 0 then cfg\<lparr>fc_Timeout := 5 * Second\<rparr> else cfg)"

definition bundleOptions :: "Config \<Rightarrow> transport_option list" where
  "bundleOptions cfg = WithNATSOptions [NatsName (fc_Name cfg)] #
    (if fc_Production cfg then
       [WithProductionSecurity \<lparr>ps_CredentialsFile = fc_CredsFile cfg, ps_RootCAFile = fc_RootCAFile cfg,
          ps_ClientCertFile = fc_ClientCertFile cfg, ps_ClientKeyFile = fc_ClientKeyFile cfg\<rparr>]
     else
       (if fc_CredsFile cfg \<noteq> [] then [WithJWT (fc_CredsFile cfg)] else [])
       @ (if fc_Token cfg \<noteq> [] then [WithToken (fc_Token cfg)] else [])
       @ (if fc_RootCAFile cfg \<noteq> [] \<or> fc_ClientCertFile cfg \<noteq> []
          then [WithTLS (fc_RootCAFile cfg) (fc_ClientCertFile cfg) (fc_ClientKeyFile cfg)] else []))"

text \<open>A bundle by the transport it owns and the configuration of its library.\<close>

definition NewBundle :: "nat \<Rightarrow> nat \<Rightarrow> Config \<Rightarrow> (goerror + settings \<times> Config) io" where
  "NewBundle defaultCodec memoryStore cfg0 =
    (let cfg = normalizeConfig cfg0 in
     if fc_CredsFile cfg \<noteq> [] \<and> fc_Token cfg \<noteq> []
     then Ret (Inl (plain_error ''configure only one of creds_file or token''))
     else if (fc_ClientCertFile cfg = []) \<noteq> (fc_ClientKeyFile cfg = [])
     then Ret (Inl (plain_error ''client_cert_file and client_key_file must be configured together''))
     else (let tr = New_settings defaultCodec memoryStore (fc_URL cfg) (map Some (bundleOptions cfg)) in
       if fc_Production cfg then
         bind (ValidateProduction tr) (\<lambda>err. case err of
           Some e \<Rightarrow> Ret (Inl (Wrapf ''validate production NATS settings'' e))
         | None \<Rightarrow> Ret (Inr (tr, normalizeConfig cfg)))
       else Ret (Inr (tr, normalizeConfig cfg))))"

definition Bundle :: "nat \<Rightarrow> nat \<Rightarrow> goerror + Config \<Rightarrow> (settings \<times> Config) outcome io" where
  "Bundle defaultCodec memoryStore decoded = (case decoded of
      Inl e \<Rightarrow> Ret Panicked
    | Inr cfg \<Rightarrow> bind (NewBundle defaultCodec memoryStore cfg) (\<lambda>r. case r of
        Inl e \<Rightarrow> Ret Panicked
      | Inr b \<Rightarrow> Ret (Returned b)))"

section \<open>Binding modifiers\<close>

abbreviation colon :: char where "colon \<equiv> CHR '':''"

definition topicModifier :: "string \<Rightarrow> binding" where
  "topicModifier raw = (let (subject, queue, _) = Cut raw CHR ''@'' in IsTopic (Topic (TrimSpace subject) [TrimSpace queue]))"

definition requestModifier :: "string \<Rightarrow> binding" where
  "requestModifier subject = IsRequest (Request (TrimSpace subject) [])"

definition durableModifier :: "string \<Rightarrow> binding" where
  "durableModifier raw = (case Split raw colon of
      [a, b, c, d] \<Rightarrow> IsDurable (DurableWork a b c d)
    | _ \<Rightarrow> IsInvalid ''@nats_durable expects stream:subject:durable:dlq'')"

definition consumerModifier :: "string \<Rightarrow> binding" where
  "consumerModifier raw = (case Split raw colon of
      [a, b, c] \<Rightarrow> IsConsumer (Consumer a b c)
    | _ \<Rightarrow> IsInvalid ''@nats_consumer expects stream:subject:durable'')"

definition kvModifier :: "string \<Rightarrow> binding" where
  "kvModifier raw = (let (bucket, key, ok) = Cut raw colon in
     if \<not> ok then IsInvalid ''@nats_kv expects bucket:key (key may be empty to watch all keys)''
     else IsKV (KV (TrimSpace bucket) (TrimSpace key)))"

definition objectModifier :: "string \<Rightarrow> binding" where
  "objectModifier raw = (let (bucket, pattern, ok) = Cut raw colon in
     if \<not> ok then IsInvalid ''@nats_object expects bucket:pattern (pattern may be empty to watch all objects)''
     else IsObject (ObjectStore (TrimSpace bucket) (TrimSpace pattern)))"

definition microModifier :: "string \<Rightarrow> binding" where
  "microModifier raw = (case Split raw colon of
      [a, b, c, d] \<Rightarrow> IsService (Service a b c d)
    | _ \<Rightarrow> IsInvalid ''@nats_micro expects service:version:endpoint:subject'')"

definition Modifiers :: "(string \<times> (string \<Rightarrow> binding)) list" where
  "Modifiers = [(''nats_topic'', topicModifier), (''nats_request'', requestModifier), (''nats-rpc'', requestModifier),
     (''nats_durable'', durableModifier), (''nats_consumer'', consumerModifier), (''nats_kv'', kvModifier),
     (''nats_object'', objectModifier), (''nats_micro'', microModifier)]"

section \<open>Listening\<close>

text \<open>
  The resolver finds an action by name; one that can also list its actions has \<open>rv_Actions\<close>, whose
  entries may be nil.
\<close>

record resolver =
  rv_Action :: "string \<Rightarrow> any_action option"
  rv_Actions :: "any_action option list option"

definition listenEndpoints :: "json \<Rightarrow> string list" where
  "listenEndpoints input = (case input of
      JObj m \<Rightarrow> (case map_of m ''endpoints'' of
          Some (JArr eps) \<Rightarrow> concat (map (\<lambda>e. case e of JStr s \<Rightarrow> [s] | _ \<Rightarrow> []) eps)
        | _ \<Rightarrow> [])
    | _ \<Rightarrow> [])"

fun resolveEndpoints :: "(string \<Rightarrow> any_action option) \<Rightarrow> string list \<Rightarrow> goerror + any_action list" where
  "resolveEndpoints resolve [] = Inr []"
| "resolveEndpoints resolve (name # names) = (case resolve name of
      None \<Rightarrow> Inl (app KindNotFound (''nats.listen: endpoint not found: '' @ name) [])
    | Some act \<Rightarrow> (case resolveEndpoints resolve names of Inl e \<Rightarrow> Inl e | Inr acts \<Rightarrow> Inr (act # acts)))"

fun natsBound :: "binding \<Rightarrow> bool" where
  "natsBound (IsTopic b) = True" | "natsBound (IsRequest b) = True" | "natsBound (IsDurable b) = True"
| "natsBound (IsConsumer b) = True" | "natsBound (IsKV b) = True" | "natsBound (IsObject b) = True"
| "natsBound (IsService b) = True" | "natsBound _ = False"

fun filterNATSBoundActions :: "any_action option list \<Rightarrow> any_action list" where
  "filterNATSBoundActions [] = []"
| "filterNATSBoundActions (None # acts) = filterNATSBoundActions acts"
| "filterNATSBoundActions (Some act # acts) =
    (if list_ex natsBound (aa_Bindings act) then act # filterNATSBoundActions acts else filterNATSBoundActions acts)"

fun invalidText :: "binding \<Rightarrow> string option" where
  "invalidText (IsInvalid s) = Some s" | "invalidText _ = None"

text \<open>The first action with an invalid binding, in the order of the loops.\<close>

fun findInvalid :: "any_action list \<Rightarrow> (string \<times> string) option" where
  "findInvalid [] = None"
| "findInvalid (act # acts) = (case List.find (\<lambda>b. invalidText b \<noteq> None) (aa_Bindings act) of
      Some b \<Rightarrow> Some (case aa_Describe act of None \<Rightarrow> [] | Some meta \<Rightarrow> fst meta, the (invalidText b))
    | None \<Rightarrow> findInvalid acts)"

text \<open>The actions a call of \<open>nats.listen\<close> mounts.\<close>

definition listenActions :: "resolver option \<Rightarrow> json \<Rightarrow> goerror + any_action list" where
  "listenActions resolver input = (case resolver of
      None \<Rightarrow> Inl (plain_error ''nats.listen: action resolver is nil'')
    | Some rv \<Rightarrow>
        (case (if length (listenEndpoints input) > 0 then resolveEndpoints (rv_Action rv) (listenEndpoints input)
               else (let acts = (case rv_Actions rv of None \<Rightarrow> [] | Some acts \<Rightarrow> filterNATSBoundActions acts)
                     in if length acts = 0 then Inl (plain_error ''nats.listen: no actions found'') else Inr acts)) of
           Inl e \<Rightarrow> Inl e
         | Inr acts \<Rightarrow> (case findInvalid acts of
             Some (name, bad) \<Rightarrow> Inl (app KindBadRequest
               (''nats.listen: action '' @ quoted name @ '' has invalid binding: '' @ bad) [])
           | None \<Rightarrow> Inr acts)))"

text \<open>
  What \<open>nats.listen\<close> returns, from the result of \<open>WaitReady\<close>, the error of \<open>Do\<close> and whether its context was
  cancelled when the run had ended.  It reports readiness exactly if \<open>WaitReady\<close> returned no error.
\<close>

definition listenResult :: "goerror option \<Rightarrow> goerror option \<Rightarrow> bool \<Rightarrow> goerror option" where
  "listenResult waitErr doErr canceled = (case waitErr of
      Some err \<Rightarrow>
        if canceled then None
        else (case doErr of
            Some e \<Rightarrow> Some (app KindUnavailable ''nats.listen: transport failed to start'' [e])
          | None \<Rightarrow> Some (app KindUnavailable ''nats.listen: timeout waiting for connection'' [err]))
    | None \<Rightarrow> if canceled then None else doErr)"

section \<open>Messaging actions\<close>

definition publishAction ::
  "(ctx \<Rightarrow> header \<Rightarrow> header) \<Rightarrow> Config \<Rightarrow> ctx \<Rightarrow> string \<Rightarrow> json \<Rightarrow> (goerror + json) io" where
  "publishAction propagate cfg ctx subject payload =
    (if subject = [] then Ret (Inl (app KindBadRequest ''nats.publish: subject is required'' []))
     else bind (Publish propagate (WithTimeout ctx (fc_Timeout cfg)) subject payload) (\<lambda>err. case err of
         Some e \<Rightarrow> Ret (Inl e)
       | None \<Rightarrow> Ret (Inr (JObj [(''status'', JStr ''published''), (''subject'', JStr subject)]))))"

definition requestAction ::
  "header_names \<Rightarrow> (id_kind \<Rightarrow> ctx \<Rightarrow> string) \<Rightarrow> Config \<Rightarrow> ctx \<Rightarrow> string \<Rightarrow> json \<Rightarrow> (goerror + json) io" where
  "requestAction hn ids cfg ctx subject payload =
    (if subject = [] then Ret (Inl (app KindBadRequest ''nats.request: subject is required'' []))
     else bind (Request_io hn ids (WithTimeout ctx (fc_Timeout cfg)) subject payload True) (\<lambda>r. case r of
         Inl e \<Rightarrow> Ret (Inl e)
       | Inr out \<Rightarrow> Ret (Inr (case out of None \<Rightarrow> JNull | Some v \<Rightarrow> v))))"

definition publishDurableAction ::
  "header_names \<Rightarrow> (id_kind \<Rightarrow> ctx \<Rightarrow> string) \<Rightarrow> (StreamConfig \<Rightarrow> StreamConfig) option \<Rightarrow> Config \<Rightarrow> ctx \<Rightarrow>
     string \<Rightarrow> string \<Rightarrow> string \<Rightarrow> string \<Rightarrow> json \<Rightarrow> string set \<Rightarrow> ((goerror + json) \<times> string set) io" where
  "publishDurableAction hn ids modifier cfg ctx stream subject durable dlq payload verified =
    (if stream = [] \<or> subject = [] \<or> durable = [] \<or> dlq = []
     then Ret (Inl (app KindBadRequest ''nats.publish_durable: stream, subject, durable, and dlq are required'' []), verified)
     else bind (PublishDurable hn ids modifier (WithTimeout ctx (fc_Timeout cfg)) (DurableWork stream subject durable dlq)
         payload verified) (\<lambda>(err, verified). case err of
           Some e \<Rightarrow> Ret (Inl e, verified)
         | None \<Rightarrow> Ret (Inr (JObj [(''status'', JStr ''durable''), (''subject'', JStr subject), (''stream'', JStr stream)]), verified)))"

section \<open>What the bundle guarantees\<close>

lemma normalizeConfig_idem: "normalizeConfig (normalizeConfig cfg) = normalizeConfig cfg"
  by (simp add: normalizeConfig_def Let_def)

lemma normalizeConfig_simps [simp]:
  "fc_Production (normalizeConfig cfg) = fc_Production cfg" "fc_CredsFile (normalizeConfig cfg) = fc_CredsFile cfg"
  "fc_Token (normalizeConfig cfg) = fc_Token cfg" "fc_RootCAFile (normalizeConfig cfg) = fc_RootCAFile cfg"
  "fc_ClientCertFile (normalizeConfig cfg) = fc_ClientCertFile cfg" "fc_ClientKeyFile (normalizeConfig cfg) = fc_ClientKeyFile cfg"
  "fc_Timeout (normalizeConfig cfg) > 0" "fc_URL (normalizeConfig cfg) \<noteq> []" "fc_Name (normalizeConfig cfg) \<noteq> []"
  by (simp_all add: normalizeConfig_def Let_def)

lemma bundleOptions_offered: "f \<in> set (bundleOptions cfg) \<Longrightarrow> offered f"
  by (auto simp: bundleOptions_def intro: offered.intros split: if_splits)

abbreviation bundleSecurity :: "Config \<Rightarrow> ProductionSecurity" where
  "bundleSecurity cfg \<equiv> \<lparr>ps_CredentialsFile = fc_CredsFile cfg, ps_RootCAFile = fc_RootCAFile cfg,
     ps_ClientCertFile = fc_ClientCertFile cfg, ps_ClientKeyFile = fc_ClientKeyFile cfg\<rparr>"

lemma production_settings:
  "fc_Production cfg \<Longrightarrow>
     st_productionSecurity (New_settings dc ms url (map Some (bundleOptions cfg))) = Some (bundleSecurity cfg)"
  by (simp add: New_settings_def bundleOptions_def WithNATSOptions_def WithProductionSecurity_def add_options_def)

lemma authentication_used:
  "NatsUserCredentials c \<in> set (st_options (New_settings dc ms url (map Some (bundleOptions cfg)))) \<Longrightarrow> fc_CredsFile cfg \<noteq> []"
  "NatsToken t \<in> set (st_options (New_settings dc ms url (map Some (bundleOptions cfg)))) \<Longrightarrow> fc_Token cfg \<noteq> []"
  by (auto simp: New_settings_def bundleOptions_def WithNATSOptions_def WithProductionSecurity_def WithJWT_def WithToken_def
      WithTLS_def add_options_def split: if_splits)

text \<open>
  C16: A bundle is handed out only with sound settings. Its transport is well-formed, its actions have a
  positive timeout, and at most one way of authentication is configured. In production the client
  enforces TLS with the configured root certificates and credentials, and these files were checked.
\<close>

theorem NewBundle_secure:
  assumes "replay (NewBundle dc ms cfg) tr = Some (Inr (st, cfg'))"
  shows "settings_ok st \<and> fc_Timeout cfg' > 0 \<and>
    (\<forall>c t. \<not> (NatsUserCredentials c \<in> set (st_options st) \<and> NatsToken t \<in> set (st_options st))) \<and>
    (fc_Production cfg \<longrightarrow> {NatsSecure, NatsRootCAs (fc_RootCAFile cfg), NatsUserCredentials (fc_CredsFile cfg)} \<subseteq> set (st_options st) \<and>
       security_checked (bundleSecurity cfg) tr)"
proof -
  let ?cfg = "normalizeConfig cfg"
  have st: "st = New_settings dc ms (fc_URL ?cfg) (map Some (bundleOptions ?cfg))" and cfg': "cfg' = normalizeConfig ?cfg"
    and one: "\<not> (fc_CredsFile cfg \<noteq> [] \<and> fc_Token cfg \<noteq> [])"
    and val: "fc_Production cfg \<Longrightarrow> replay (ValidateProduction st) tr = Some None"
    using assms by (auto simp: NewBundle_def Let_def trace_simps split: if_splits)
  have ok: "settings_ok st" unfolding st by (rule New_settings_wf) (auto dest: bundleOptions_offered)
  have "\<not> (NatsUserCredentials c \<in> set (st_options st) \<and> NatsToken t \<in> set (st_options st))" for c t
    using authentication_used [of _ dc ms "fc_URL ?cfg" ?cfg] one unfolding st by auto
  moreover have "{NatsSecure, NatsRootCAs (fc_RootCAFile cfg), NatsUserCredentials (fc_CredsFile cfg)} \<subseteq> set (st_options st) \<and>
      security_checked (bundleSecurity cfg) tr" if "fc_Production cfg"
  proof -
    have sec: "st_productionSecurity st = Some (bundleSecurity cfg)"
      using production_settings [of ?cfg dc ms "fc_URL ?cfg"] that unfolding st by simp
    then show ?thesis using validated_security [OF val [OF that] sec] ok by (auto simp: settings_ok_def enforced_def)
  qed
  ultimately show ?thesis using ok cfg' by simp
qed

definition productionConfig :: Config where
  "productionConfig = \<lparr>fc_URL = ''tls://h'', fc_Name = [], fc_Timeout = 0, fc_CredsFile = ''c'', fc_Token = [],
     fc_RootCAFile = ''r'', fc_ClientCertFile = [], fc_ClientKeyFile = [], fc_Production = True\<rparr>"

theorem NewBundle_secure_witness:
  "\<exists>st cfg'. replay (NewBundle 0 0 productionConfig) checkedFiles = Some (Inr (st, cfg')) \<and> NatsSecure \<in> set (st_options st)"
proof -
  have "\<exists>st cfg'. replay (NewBundle 0 0 productionConfig) checkedFiles = Some (Inr (st, cfg'))"
    by (simp add: NewBundle_def productionConfig_def normalizeConfig_def Let_def bundleOptions_def New_settings_def WithNATSOptions_def
        WithProductionSecurity_def add_options_def ValidateProduction_def HasPrefix_def checkedFiles_def validateProductionFiles_def
        validateFile_def validateRootCA_def replay.simps)
  then obtain st cfg' where run: "replay (NewBundle 0 0 productionConfig) checkedFiles = Some (Inr (st, cfg'))" by blast
  moreover have "fc_Production productionConfig" by (simp add: productionConfig_def)
  ultimately show ?thesis using NewBundle_secure [OF run] by blast
qed

section \<open>What the modifiers accept\<close>

lemma Split_iff: "Split raw sep = ps \<longleftrightarrow> ps \<noteq> [] \<and> raw = joined sep ps \<and> (\<forall>p \<in> set ps. sep \<notin> set p)"
  using Split_joined Split_nonempty joined_Split Split_clean by metis

text \<open>
  The colon-separated modifiers read exactly what they document. \<open>nats_durable\<close> and \<open>nats_micro\<close>
  give the binding of four parts exactly for the text that joins these parts, and \<open>nats_consumer\<close> that
  of three; every other text gives an invalid binding.
\<close>

theorem modifiers_exact:
  "(durableModifier raw = IsDurable (DurableWork a b c d) \<longleftrightarrow>
      raw = joined colon [a, b, c, d] \<and> colon \<notin> set (a @ b @ c @ d)) \<and>
   (microModifier raw = IsService (Service a b c d) \<longleftrightarrow>
      raw = joined colon [a, b, c, d] \<and> colon \<notin> set (a @ b @ c @ d)) \<and>
   (consumerModifier raw = IsConsumer (Consumer a b c) \<longleftrightarrow>
      raw = joined colon [a, b, c] \<and> colon \<notin> set (a @ b @ c)) \<and>
   (\<exists>m. durableModifier raw = IsInvalid m) = (\<nexists>a b c d. durableModifier raw = IsDurable (DurableWork a b c d)) \<and>
   (\<exists>m. microModifier raw = IsInvalid m) = (\<nexists>a b c d. microModifier raw = IsService (Service a b c d)) \<and>
   (\<exists>m. consumerModifier raw = IsInvalid m) = (\<nexists>a b c. consumerModifier raw = IsConsumer (Consumer a b c))"
proof -
  have four: "Split raw colon = [a, b, c, d] \<longleftrightarrow> raw = joined colon [a, b, c, d] \<and> colon \<notin> set (a @ b @ c @ d)"
    by (subst Split_iff) auto
  have three: "Split raw colon = [a, b, c] \<longleftrightarrow> raw = joined colon [a, b, c] \<and> colon \<notin> set (a @ b @ c)"
    by (subst Split_iff) auto
  have "durableModifier raw = IsDurable (DurableWork a b c d) \<longleftrightarrow> Split raw colon = [a, b, c, d]"
    by (auto simp: durableModifier_def DurableWork_def split: list.split)
  moreover have "microModifier raw = IsService (Service a b c d) \<longleftrightarrow> Split raw colon = [a, b, c, d]"
    by (auto simp: microModifier_def Service_def split: list.split)
  moreover have "consumerModifier raw = IsConsumer (Consumer a b c) \<longleftrightarrow> Split raw colon = [a, b, c]"
    by (auto simp: consumerModifier_def Consumer_def ConsumerBinding0_def split: list.split)
  moreover have "(\<exists>m. durableModifier raw = IsInvalid m) = (\<nexists>a b c d. durableModifier raw = IsDurable (DurableWork a b c d))"
    by (auto simp: durableModifier_def split: list.split)
  moreover have "(\<exists>m. microModifier raw = IsInvalid m) = (\<nexists>a b c d. microModifier raw = IsService (Service a b c d))"
    by (auto simp: microModifier_def split: list.split)
  moreover have "(\<exists>m. consumerModifier raw = IsInvalid m) = (\<nexists>a b c. consumerModifier raw = IsConsumer (Consumer a b c))"
    by (auto simp: consumerModifier_def split: list.split)
  ultimately show ?thesis unfolding four three by blast
qed

section \<open>What listening guarantees\<close>

lemma resolveEndpoints_iff: "resolveEndpoints resolve names = Inr acts \<longleftrightarrow> map resolve names = map Some acts"
proof (induction names arbitrary: acts)
  case (Cons name names)
  show ?case
  proof (cases "resolveEndpoints resolve names")
    case (Inl e)
    with Cons.IH have "map resolve names \<noteq> map Some as" for as by (metis sum.distinct(1))
    with Inl show ?thesis by (cases acts) (auto split: option.splits)
  next
    case (Inr as)
    with Cons.IH [of as] have "map resolve names = map Some as" by simp
    with Inr show ?thesis by (cases acts) (auto simp: inj_map_eq_map split: option.splits)
  qed
qed auto

lemma invalidText_None_iff: "invalidText b = None \<longleftrightarrow> (\<forall>s. b \<noteq> IsInvalid s)"
  by (cases b) auto

lemma findInvalid_None_iff:
  "findInvalid acts = None \<longleftrightarrow> (\<forall>act \<in> set acts. \<forall>s. IsInvalid s \<notin> set (aa_Bindings act))"
proof (induction acts)
  case (Cons a acts)
  have "List.find (\<lambda>b. invalidText b \<noteq> None) (aa_Bindings a) = None \<longleftrightarrow> (\<forall>s. IsInvalid s \<notin> set (aa_Bindings a))"
    unfolding find_None_iff invalidText_None_iff by blast
  with Cons.IH show ?case by (auto split: option.splits)
qed simp

lemma filterNATSBoundActions_eq:
  "filterNATSBoundActions acts = [act. Some act \<leftarrow> acts, list_ex natsBound (aa_Bindings act)]"
  by (induction acts rule: filterNATSBoundActions.induct) auto

lemma natsBound_CanHandle: "natsBound b = CanHandle b"
  by (cases b) auto

lemma filterNATSBoundActions_CanHandle:
  "[act. Some act \<leftarrow> acts, list_ex CanHandle (aa_Bindings act)] = filterNATSBoundActions acts"
  unfolding filterNATSBoundActions_eq natsBound_CanHandle ..

text \<open>
  C19: \<open>nats.listen\<close> goes on with a list of actions exactly if it may.  With endpoint names in its input
  the list is what the names resolve to, in order, each of them found; without names it is every action
  of the resolver with a binding the transport can handle, in order, and there is one.  In both cases
  none of the listed actions has a binding that a modifier marked invalid.  Otherwise it stops with an
  error before anything is mounted.
\<close>

theorem listenActions_exact:
  "listenActions (Some rv) input = Inr acts \<longleftrightarrow>
     (if listenEndpoints input \<noteq> [] then map (rv_Action rv) (listenEndpoints input) = map Some acts
      else (\<exists>all. rv_Actions rv = Some all \<and>
        acts = [act. Some act \<leftarrow> all, list_ex CanHandle (aa_Bindings act)] \<and> acts \<noteq> [])) \<and>
     (\<forall>act \<in> set acts. \<forall>s. IsInvalid s \<notin> set (aa_Bindings act))"
proof (cases "listenEndpoints input = []")
  case True
  then show ?thesis
    unfolding findInvalid_None_iff [symmetric] filterNATSBoundActions_CanHandle listenActions_def
    by (auto simp: Let_def split: option.splits)
next
  case False
  then show ?thesis
    unfolding findInvalid_None_iff [symmetric] resolveEndpoints_iff [symmetric] listenActions_def
    by (auto split: option.splits sum.splits)
qed

definition oneTopic :: resolver where
  "oneTopic = \<lparr>rv_Action = (\<lambda>name. if name = ''bad'' then Some (topicAction\<lparr>aa_Bindings := [IsInvalid ''b'']\<rparr>) else None),
     rv_Actions = Some [None, Some topicAction, Some (topicAction\<lparr>aa_Bindings := [IsInvalid ''b'']\<rparr>)]\<rparr>"

theorem listenActions_exact_witness:
  "listenActions (Some oneTopic) JNull = Inr [topicAction] \<and>
   listenActions (Some oneTopic) (JObj [(''endpoints'', JArr [JStr ''bad''])]) \<noteq>
     Inr [topicAction\<lparr>aa_Bindings := [IsInvalid ''b'']\<rparr>]"
  unfolding listenActions_exact
  by (simp add: listenEndpoints_def oneTopic_def topicAction_def)

end
