(* ===== verification/Flow_Actions.thy ===== *)
theory Flow_Actions
  imports Flow
begin

text \<open>
  The key-value and object actions of the flow library: \<open>src/nexssflow/jetstream_actions.go\<close>.
\<close>

section \<open>Requests and values\<close>

record KVGetResponse =
  kg_Bucket :: string
  kg_Key :: string
  kg_Found :: bool
  kg_Value :: json
  kg_Encoding :: string
  kg_Revision :: u64
  kg_Created :: instant

record KVWriteResponse =
  kw_Bucket :: string
  kw_Key :: string
  kw_Revision :: u64

record ObjectPutRequest =
  op_Bucket :: string
  op_Name :: string
  op_Data :: string
  op_Encoding :: string
  op_MaxBytes :: int

record ObjectGetResponse =
  og_Bucket :: string
  og_Name :: string
  og_Data :: string
  og_Encoding :: string
  og_Size :: int

definition defaultFlowObjectMaxBytes :: int where
  "defaultFlowObjectMaxBytes = 8 * 1024 * 1024"

definition validateKVRequest :: "string \<Rightarrow> string \<Rightarrow> string \<Rightarrow> goerror option" where
  "validateKVRequest actionName bucket key =
    (if TrimSpace bucket = [] \<or> TrimSpace key = []
     then Some (app KindBadRequest (actionName @ '': bucket and key are required'') []) else None)"

text \<open>The nil value of Go is \<open>JNull\<close>.\<close>

definition marshalKVValue :: "json \<Rightarrow> (goerror + bytes \<Rightarrow> 'a io) \<Rightarrow> 'a io" where
  "marshalKVValue value k =
    (if value = JNull then k (Inl (plain_error ''value is required'')) else json_Marshal value k)"

definition decodeKVValue :: "bytes \<Rightarrow> (json \<times> string) io" where
  "decodeKVValue d = json_Unmarshal d (\<lambda>r. case r of
      Inr decoded \<Rightarrow> Ret (decoded, ''json'')
    | Inl _ \<Rightarrow> Ret (JStr (EncodeToString d), ''base64''))"

definition parseKVTTL :: "string \<Rightarrow> goerror + duration" where
  "parseKVTTL raw =
    (if raw = [] then Inr 0
     else (case ParseDuration raw of
         Inl e \<Rightarrow> Inl e
       | Inr ttl \<Rightarrow> if ttl < Second then Inl (plain_error ''ttl must be at least one second'') else Inr ttl))"

definition objectLimit :: "int \<Rightarrow> goerror + int" where
  "objectLimit maxBytes =
    (if maxBytes < 0 then Inl (plain_error ''negative byte limit'')
     else if maxBytes = 0 then Inr defaultFlowObjectMaxBytes else Inr maxBytes)"

definition decodeObjectInput :: "string \<Rightarrow> string \<Rightarrow> goerror + bytes" where
  "decodeObjectInput d encoding =
    (let e = ToLower (TrimSpace encoding) in
     if e = [] \<or> e = ''utf-8'' \<or> e = ''utf8'' then Inr d
     else if e = ''base64'' then DecodeString d
     else Inl (plain_error (''unsupported encoding '' @ quoted encoding @ ''; use utf-8 or base64'')))"

text \<open>The encoding of an object's content in the response of \<open>nats.object.get\<close>.\<close>

definition encodeObjectOutput :: "bytes \<Rightarrow> string \<times> string" where
  "encodeObjectOutput d = (if \<not> utf8_Valid d then (''base64'', EncodeToString d) else (''utf-8'', d))"

section \<open>Key-value actions\<close>

abbreviation call_ctx :: "Config \<Rightarrow> ctx \<Rightarrow> ctx" where
  "call_ctx cfg ctx \<equiv> WithTimeout ctx (fc_Timeout cfg)"

definition kvGetAction :: "Config \<Rightarrow> ctx \<Rightarrow> string \<Rightarrow> string \<Rightarrow> (goerror + KVGetResponse) io" where
  "kvGetAction cfg ctx bucket key = (case validateKVRequest ''nats.kv.get'' bucket key of
      Some e \<Rightarrow> Ret (Inl e)
    | None \<Rightarrow> bind (GetKV (call_ctx cfg ctx) bucket key) (\<lambda>r. case r of
        Inl err \<Rightarrow>
          if errors_Is err (JsErr ''ErrKeyNotFound'')
          then Ret (Inr \<lparr>kg_Bucket = bucket, kg_Key = key, kg_Found = False, kg_Value = JNull, kg_Encoding = [],
             kg_Revision = 0, kg_Created = 0\<rparr>)
          else Ret (Inl err)
      | Inr entry \<Rightarrow> bind (decodeKVValue (ke_Value entry)) (\<lambda>(value, encoding).
          Ret (Inr \<lparr>kg_Bucket = bucket, kg_Key = key, kg_Found = True, kg_Value = value, kg_Encoding = encoding,
             kg_Revision = ke_Revision entry, kg_Created = ke_Created entry\<rparr>))))"

definition written :: "string \<Rightarrow> string \<Rightarrow> (goerror + u64) io \<Rightarrow> (goerror + KVWriteResponse) io" where
  "written bucket key p = bind p (\<lambda>r. case r of
      Inl e \<Rightarrow> Ret (Inl e)
    | Inr revision \<Rightarrow> Ret (Inr \<lparr>kw_Bucket = bucket, kw_Key = key, kw_Revision = revision\<rparr>))"

definition kvPutAction :: "Config \<Rightarrow> ctx \<Rightarrow> string \<Rightarrow> string \<Rightarrow> json \<Rightarrow> (goerror + KVWriteResponse) io" where
  "kvPutAction cfg ctx bucket key value = (case validateKVRequest ''nats.kv.put'' bucket key of
      Some e \<Rightarrow> Ret (Inl e)
    | None \<Rightarrow> marshalKVValue value (\<lambda>r. case r of
        Inl e \<Rightarrow> Ret (Inl (app KindBadRequest ''nats.kv.put: value must be JSON encodable'' [e]))
      | Inr d \<Rightarrow> written bucket key (PutKV (call_ctx cfg ctx) bucket key d)))"

definition kvCreateAction :: "Config \<Rightarrow> ctx \<Rightarrow> string \<Rightarrow> string \<Rightarrow> json \<Rightarrow> string \<Rightarrow> (goerror + KVWriteResponse) io" where
  "kvCreateAction cfg ctx bucket key value rawTTL = (case validateKVRequest ''nats.kv.create'' bucket key of
      Some e \<Rightarrow> Ret (Inl e)
    | None \<Rightarrow> marshalKVValue value (\<lambda>r. case r of
        Inl e \<Rightarrow> Ret (Inl (app KindBadRequest ''nats.kv.create: value must be JSON encodable'' [e]))
      | Inr d \<Rightarrow> (case parseKVTTL rawTTL of
          Inl e \<Rightarrow> Ret (Inl (app KindBadRequest ''nats.kv.create: ttl must be at least 1s, for example 15m'' [e]))
        | Inr ttl \<Rightarrow> written bucket key (CreateKV (call_ctx cfg ctx) bucket key d ttl))))"

definition kvUpdateAction :: "Config \<Rightarrow> ctx \<Rightarrow> string \<Rightarrow> string \<Rightarrow> json \<Rightarrow> u64 \<Rightarrow> (goerror + KVWriteResponse) io" where
  "kvUpdateAction cfg ctx bucket key value revision = (case validateKVRequest ''nats.kv.update'' bucket key of
      Some e \<Rightarrow> Ret (Inl e)
    | None \<Rightarrow>
        if revision = 0
        then Ret (Inl (app KindBadRequest ''nats.kv.update: revision is required and must be greater than zero'' []))
        else marshalKVValue value (\<lambda>r. case r of
            Inl e \<Rightarrow> Ret (Inl (app KindBadRequest ''nats.kv.update: value must be JSON encodable'' [e]))
          | Inr d \<Rightarrow> written bucket key (UpdateKV (call_ctx cfg ctx) bucket key d revision)))"

definition kvDeleteAction :: "Config \<Rightarrow> ctx \<Rightarrow> string \<Rightarrow> string \<Rightarrow> u64 option \<Rightarrow> (goerror + json) io" where
  "kvDeleteAction cfg ctx bucket key revision = (case validateKVRequest ''nats.kv.delete'' bucket key of
      Some e \<Rightarrow> Ret (Inl e)
    | None \<Rightarrow>
        if revision = Some 0 then Ret (Inl (app KindBadRequest ''nats.kv.delete: revision must be greater than zero'' []))
        else bind (DeleteKV (call_ctx cfg ctx) bucket key revision) (\<lambda>err. case err of
            Some e \<Rightarrow> Ret (Inl e)
          | None \<Rightarrow> Ret (Inr (JObj [(''bucket'', JStr bucket), (''key'', JStr key), (''deleted'', JBool True)]))))"

section \<open>Object actions\<close>

definition objectPutAction :: "Config \<Rightarrow> ctx \<Rightarrow> ObjectPutRequest \<Rightarrow> (goerror + json) io" where
  "objectPutAction cfg ctx req =
    (if op_Bucket req = [] \<or> op_Name req = []
     then Ret (Inl (app KindBadRequest ''nats.object.put: bucket and name are required'' []))
     else (case objectLimit (op_MaxBytes req) of
         Inl e \<Rightarrow> Ret (Inl (app KindBadRequest ''nats.object.put: max_bytes must be zero or positive'' [e]))
       | Inr limit \<Rightarrow> (case decodeObjectInput (op_Data req) (op_Encoding req) of
           Inl e \<Rightarrow> Ret (Inl (app KindBadRequest ''nats.object.put: invalid data or encoding'' [e]))
         | Inr d \<Rightarrow>
             if int (length d) > limit
             then Ret (Inl (app KindBadRequest (''nats.object.put: data is '' @ decimal (length d) @ '' bytes; limit is ''
               @ decimal (nat limit)) []))
             else bind (PutObject (call_ctx cfg ctx) (op_Bucket req) (op_Name req) d) (\<lambda>r. case r of
                 Inl e \<Rightarrow> Ret (Inl e)
               | Inr info \<Rightarrow> Ret (Inr (JObj [(''bucket'', JStr (op_Bucket req)), (''name'', JStr (op_Name req)),
                   (''size'', JNum (uint (oi_Size info))), (''chunks'', JNum (uint (oi_Chunks info))),
                   (''digest'', JStr (oi_Digest info))]))))))"

definition objectGetAction :: "Config \<Rightarrow> ctx \<Rightarrow> string \<Rightarrow> string \<Rightarrow> int \<Rightarrow> (goerror + ObjectGetResponse) io" where
  "objectGetAction cfg ctx bucket name maxBytes =
    (if bucket = [] \<or> name = []
     then Ret (Inl (app KindBadRequest ''nats.object.get: bucket and name are required'' []))
     else (case objectLimit maxBytes of
         Inl e \<Rightarrow> Ret (Inl (app KindBadRequest ''nats.object.get: max_bytes must be zero or positive'' [e]))
       | Inr limit \<Rightarrow> bind (GetObjectLimited (call_ctx cfg ctx) bucket name limit) (\<lambda>r. case r of
           Inl e \<Rightarrow> Ret (Inl e)
         | Inr d \<Rightarrow> (let (encoding, value) = encodeObjectOutput d in
             Ret (Inr \<lparr>og_Bucket = bucket, og_Name = name, og_Data = value, og_Encoding = encoding, og_Size = int (length d)\<rparr>)))))"

definition objectDeleteAction :: "Config \<Rightarrow> ctx \<Rightarrow> string \<Rightarrow> string \<Rightarrow> (goerror + json) io" where
  "objectDeleteAction cfg ctx bucket name =
    (if bucket = [] \<or> name = []
     then Ret (Inl (app KindBadRequest ''nats.object.delete: bucket and name are required'' []))
     else bind (DeleteObject (call_ctx cfg ctx) bucket name) (\<lambda>err. case err of
         Some e \<Rightarrow> Ret (Inl e)
       | None \<Rightarrow> Ret (Inr (JObj [(''bucket'', JStr bucket), (''name'', JStr name), (''deleted'', JBool True)]))))"

section \<open>The library\<close>

text \<open>The names of the actions, in the order of the library, with the transport and configuration they share.\<close>

definition jetStreamActions :: "string list" where
  "jetStreamActions = [''nats.kv.get'', ''nats.kv.put'', ''nats.kv.create'', ''nats.kv.update'', ''nats.kv.delete'',
     ''nats.object.put'', ''nats.object.get'', ''nats.object.delete'']"

definition Library :: "nat \<Rightarrow> nat \<Rightarrow> settings option \<Rightarrow> Config \<Rightarrow> settings \<times> Config \<times> string list" where
  "Library defaultCodec memoryStore tr cfg =
    (let cfg = normalizeConfig cfg in
     (case tr of None \<Rightarrow> New_settings defaultCodec memoryStore (fc_URL cfg) [] | Some tr \<Rightarrow> tr, cfg,
      [''nats.listen'', ''nats.publish'', ''nats.request'', ''nats.publish_durable''] @ jetStreamActions))"

lemma Library_ok:
  assumes "\<And>st. tr = Some st \<Longrightarrow> settings_ok st" and "Library dc ms tr cfg = (st, cfg', names)"
  shows "settings_ok st \<and> fc_Timeout cfg' > 0 \<and> distinct names"
  using assms by (cases tr) (auto simp: Library_def jetStreamActions_def Let_def intro: New_settings_wf)

section \<open>Objects survive a round trip\<close>

lemma utf8_encoding_ok: "decodeObjectInput d ''utf-8'' = Inr d" "decodeObjectInput d ''base64'' = DecodeString d"
proof -
  have "TrimSpace ''utf-8'' = ''utf-8''" "TrimSpace ''base64'' = ''base64''"
    by (simp_all add: TrimSpace_visible visible_def)
  then show "decodeObjectInput d ''utf-8'' = Inr d" "decodeObjectInput d ''base64'' = DecodeString d"
    by (simp_all add: decodeObjectInput_def ToLower_def lower_char_def)
qed

lemma object_encoding_roundtrip: "decodeObjectInput (snd (encodeObjectOutput d)) (fst (encodeObjectOutput d)) = Inr d"
  by (simp add: encodeObjectOutput_def utf8_encoding_ok base64_roundtrip)

lemma objectLimit_pos: "objectLimit m = Inr limit \<Longrightarrow> 0 < limit"
  by (auto simp: objectLimit_def defaultFlowObjectMaxBytes_def split: if_splits)

lemma GetObjectLimited_bound:
  assumes "replay (GetObjectLimited ctx bucket name limit) tr = Some (Inr d)" and "0 < limit"
  shows "int (length d) \<le> limit"
proof -
  have "\<exists>tr'. replay (readObjectBytes ctx name limit) tr' = Some (Inr d)"
    using assms unfolding GetObjectLimited_def
    by (cases "ctx = Background") (auto simp: Let_def trace_simps split: if_splits)
  then show ?thesis using readObjectBytes_bound [of ctx name limit _ d] assms(2) by (auto simp: read_limit_def)
qed

lemma objectGetAction_read:
  assumes "replay (objectGetAction cfg ctx bucket name maxBytes) tr = Some (Inr resp)"
  obtains limit d where "objectLimit maxBytes = Inr limit" "replay (GetObjectLimited (call_ctx cfg ctx) bucket name limit) tr = Some (Inr d)"
    "og_Data resp = snd (encodeObjectOutput d)" "og_Encoding resp = fst (encodeObjectOutput d)" "og_Size resp = int (length d)"
  using assms unfolding objectGetAction_def
  by (auto simp: trace_simps case_prod_beta Let_def split: if_splits sum.splits)

text \<open>
  C14: Objects survive the flow actions byte for byte. When the response of \<open>nats.object.get\<close> is handed to
  \<open>nats.object.put\<close> with the encoding it names and the same limit, text or binary, the put passes all its
  checks and does exactly what storing the bytes that were read does: the same calls with these bytes,
  with success exactly if the store accepts them.
\<close>

theorem object_actions_roundtrip:
  assumes got: "replay (objectGetAction cfg ctx bucket name maxBytes) tr = Some (Inr resp)"
    and put: "replay (objectPutAction cfg' ctx' \<lparr>op_Bucket = bucket', op_Name = name', op_Data = og_Data resp,
      op_Encoding = og_Encoding resp, op_MaxBytes = maxBytes\<rparr>) tr' = Some r"
    and "bucket' \<noteq> []" "name' \<noteq> []"
  shows "\<exists>limit d stored. replay (GetObjectLimited (call_ctx cfg ctx) bucket name limit) tr = Some (Inr d) \<and>
    og_Size resp = int (length d) \<and> int (length d) \<le> limit \<and>
    replay (PutObject (call_ctx cfg' ctx') bucket' name' d) tr' = Some stored \<and> (isl r \<longleftrightarrow> isl stored)"
proof -
  obtain limit d where d: "objectLimit maxBytes = Inr limit" "replay (GetObjectLimited (call_ctx cfg ctx) bucket name limit) tr = Some (Inr d)"
    "og_Data resp = snd (encodeObjectOutput d)" "og_Encoding resp = fst (encodeObjectOutput d)" "og_Size resp = int (length d)"
    using got by (rule objectGetAction_read)
  note bound = GetObjectLimited_bound [OF d(2) objectLimit_pos [OF d(1)]]
  have "\<exists>stored. replay (PutObject (call_ctx cfg' ctx') bucket' name' d) tr' = Some stored \<and> (isl r \<longleftrightarrow> isl stored)"
    using put assms(3,4) bound unfolding objectPutAction_def
    by (auto simp: d(1,3,4) object_encoding_roundtrip trace_simps)
  then show ?thesis using d(2,5) bound by blast
qed

definition binaryObject :: "event list" where
  "binaryObject = [(CtxErr (WithTimeout Background 5), answer0), (Conn (EnsureConnection (WithTimeout Background 5)), answer0),
     (Conn EnsureJetStream, answer0), (Store (JsObjectStore ''b''), answer0), (Store (ObsGet (WithTimeout Background 5) ''o''), answer0),
     (Store (ObjCopyN 11), answer0\<lparr>a_copied := ([CHR 0xFF, CHR 0x00], Some (sentinel_error (IoErr ''EOF'')))\<rparr>), (Store ObjClose, answer0)]"

definition binaryStored :: "event list" where
  "binaryStored = [(CtxErr (WithTimeout Background 5), answer0), (Conn (EnsureConnection (WithTimeout Background 5)), answer0),
     (Conn EnsureJetStream, answer0), (Store (JsObjectStore ''c''), answer0\<lparr>a_err := Some (plain_error [])\<rparr>)]"

definition flowConfig :: Config where
  "flowConfig = \<lparr>fc_URL = [], fc_Name = [], fc_Timeout = 5, fc_CredsFile = [], fc_Token = [], fc_RootCAFile = [],
     fc_ClientCertFile = [], fc_ClientKeyFile = [], fc_Production = False\<rparr>"

lemma binary_encoded: "encodeObjectOutput [CHR 0xFF, CHR 0x00] = (''base64'', ''/wA='')"
  by (simp add: encodeObjectOutput_def utf8_Valid.simps [of "[CHR 0xFF, CHR 0x00]"] rune_len_def b64_char_def char_of_def bit_0 Let_def)

lemma ctx_Err_timeout: "ctx_Err (WithTimeout c d) k = Call (CtxErr (WithTimeout c d)) (\<lambda>a. k (a_err a))"
  by (simp add: ctx_Err_def)

lemma binary_read:
  "replay (GetObjectLimited (WithTimeout Background 5) ''b'' ''o'' 10) binaryObject = Some (Inr [CHR 0xFF, CHR 0x00])"
  by (simp add: GetObjectLimited_def readObjectBytes_def ctx_Err_timeout binaryObject_def replay.simps sentinel_error_def Let_def)

lemma binary_run:
  "replay (objectGetAction flowConfig Background ''b'' ''o'' 10) binaryObject =
     Some (Inr \<lparr>og_Bucket = ''b'', og_Name = ''o'', og_Data = ''/wA='', og_Encoding = ''base64'', og_Size = 2\<rparr>)"
proof -
  note step = replay_bind_append [OF binary_read, of _ "[]", simplified]
  show ?thesis by (simp add: objectGetAction_def objectLimit_def flowConfig_def step binary_encoded replay.simps)
qed

theorem object_actions_roundtrip_witness:
  "\<exists>limit d stored. replay (GetObjectLimited (WithTimeout Background 5) ''b'' ''o'' limit) binaryObject = Some (Inr d) \<and> length d = 2 \<and>
     replay (PutObject (WithTimeout Background 5) ''c'' ''o'' d) binaryStored = Some stored \<and> isl stored"
proof -
  have dec: "decodeObjectInput ''/wA='' ''base64'' = Inr [CHR 0xFF, CHR 0x00]"
    using object_encoding_roundtrip [of "[CHR 0xFF, CHR 0x00]"] by (simp add: binary_encoded)
  have "replay (objectPutAction flowConfig Background \<lparr>op_Bucket = ''c'', op_Name = ''o'', op_Data = ''/wA='', op_Encoding = ''base64'',
      op_MaxBytes = 10\<rparr>) binaryStored = Some (Inl (MapErr (plain_error [])))"
    by (simp add: objectPutAction_def objectLimit_def dec PutObject_def ctx_Err_timeout binaryStored_def flowConfig_def replay.simps)
  then have put: "replay (objectPutAction flowConfig Background \<lparr>op_Bucket = ''c'', op_Name = ''o'',
      op_Data = og_Data \<lparr>og_Bucket = ''b'', og_Name = ''o'', og_Data = ''/wA='', og_Encoding = ''base64'', og_Size = 2\<rparr>,
      op_Encoding = og_Encoding \<lparr>og_Bucket = ''b'', og_Name = ''o'', og_Data = ''/wA='', og_Encoding = ''base64'', og_Size = 2\<rparr>,
      op_MaxBytes = 10\<rparr>) binaryStored = Some (Inl (MapErr (plain_error [])))" by simp
  have "fc_Timeout flowConfig = 5" by (simp add: flowConfig_def)
  with object_actions_roundtrip [OF binary_run put] show ?thesis by auto
qed

section \<open>Expiry of created keys\<close>

fun created_ttl :: "request \<Rightarrow> duration option option" where
  "created_ttl (Store (KvOp c b k (OpCreate d ttl))) = Some ttl" | "created_ttl _ = None"

lemma kvCreateAction_run:
  assumes "replay (kvCreateAction cfg ctx bucket key value rawTTL) tr = Some r" and "(q, a) \<in> set tr" and "created_ttl q = Some ttl"
  shows "\<exists>d t. parseKVTTL rawTTL = Inr t \<and> value \<noteq> JNull \<and> q = Store (KvOp (call_ctx cfg ctx) bucket key (OpCreate d ttl)) \<and>
    ttl = (if t > 0 then Some t else None) \<and> (\<exists>c. (JsonMarshal value, c) \<in> set tr \<and> a_bytes c = Inr d)"
proof -
  consider "(q, a) \<notin> set tr \<or> created_ttl q = None"
    | c d t tr' r' where "parseKVTTL rawTTL = Inr t" "value \<noteq> JNull" "tr = (JsonMarshal value, c) # tr'" "a_bytes c = Inr d"
      "replay (CreateKV (call_ctx cfg ctx) bucket key d t) tr' = Some r'"
    using assms(1) unfolding kvCreateAction_def marshalKVValue_def written_def
    by (auto simp: trace_simps split: option.splits if_splits sum.splits)
  then show ?thesis
  proof cases
    case 2
    have q: "(q, a) \<in> set tr'" using assms(2,3) 2(3) by auto
    from CreateKV_outcome [OF 2(5)] show ?thesis
    proof (unfold kv_outcome_def, elim disjE conjE exE)
      assume "requests is_kv_op tr' = []"
      then have "\<not> is_kv_op q" using q by (force simp: requests_def filter_empty_conv)
      then show ?thesis using assms(3) by (cases q rule: created_ttl.cases) auto
    next
      fix pre b assume tr': "tr' = pre @ [(Store (KvOp (call_ctx cfg ctx) bucket key (OpCreate d (if t > 0 then Some t else None))), b)]"
        and "requests is_kv_op pre = []"
      then have "(q, a) \<notin> set pre" using assms(3)
        by (cases q rule: created_ttl.cases) (force simp: requests_def filter_empty_conv)+
      then show ?thesis using q 2 assms(3) unfolding tr' by auto
    qed
  qed (use assms in auto)
qed

text \<open>
  C28: \<open>nats.kv.create\<close> gives a key the expiry it was asked for or creates nothing. What it creates holds
  the JSON encoding of a value that is not null; the key never expires exactly if no expiry was asked for,
  and otherwise expires after the parsed duration, which is at least a second and fits 64 bits.
\<close>

theorem kvCreateAction_expiry:
  assumes "replay (kvCreateAction cfg ctx bucket key value rawTTL) tr = Some r"
    and "(Store (KvOp c b k (OpCreate d ttl)), a) \<in> set tr"
  shows "c = WithTimeout ctx (fc_Timeout cfg) \<and> b = bucket \<and> k = key \<and> value \<noteq> JNull \<and>
    (\<exists>m. (JsonMarshal value, m) \<in> set tr \<and> a_bytes m = Inr d) \<and> (ttl = None \<longleftrightarrow> rawTTL = []) \<and>
    (\<forall>t. ttl = Some t \<longrightarrow> ParseDuration rawTTL = Inr t \<and> Second \<le> t \<and> in_int64 t)"
proof -
  obtain t where t: "parseKVTTL rawTTL = Inr t" "ttl = (if t > 0 then Some t else None)"
    and rest: "c = WithTimeout ctx (fc_Timeout cfg)" "b = bucket" "k = key" "value \<noteq> JNull"
      "\<exists>m. (JsonMarshal value, m) \<in> set tr \<and> a_bytes m = Inr d"
    using kvCreateAction_run [OF assms, of ttl] by auto
  have "rawTTL = [] \<and> t = 0 \<or> rawTTL \<noteq> [] \<and> ParseDuration rawTTL = Inr t \<and> Second \<le> t"
    using t(1) by (auto simp: parseKVTTL_def split: if_splits sum.splits)
  then show ?thesis using rest t(2) ParseDuration_range [of rawTTL t] by (auto split: if_splits)
qed

definition createdKey :: "event list" where
  "createdKey = [(JsonMarshal (JNum 1), answer0\<lparr>a_bytes := Inr ''1''\<rparr>), (Conn (EnsureConnection (WithTimeout Background 5)), answer0),
     (Conn JetStreamNew, answer0), (Store (JsKeyValueCtx (WithTimeout Background 5) ''b''), answer0),
     (Store (KvOp (WithTimeout Background 5) ''b'' ''k'' (OpCreate ''1'' (Some (90 * Second)))), answer0)]"

theorem kvCreateAction_expiry_witness:
  "ParseDuration ''1m30s'' = Inr (90 * Second) \<and> Second \<le> 90 * Second"
proof -
  have ttl: "parseKVTTL ''1m30s'' = Inr (90 * Second)"
    by (simp add: parseKVTTL_def ParseDuration_def parseSum.simps parseStep_def parseNumber_def parseUnit_def unitMap_def Let_def char_of_def)
  have "TrimSpace ''b'' = ''b''" "TrimSpace ''k'' = ''k''" by (simp_all add: TrimSpace_visible visible_def)
  then have "replay (kvCreateAction flowConfig Background ''b'' ''k'' (JNum 1) ''1m30s'') createdKey =
      Some (Inr \<lparr>kw_Bucket = ''b'', kw_Key = ''k'', kw_Revision = 0\<rparr>)"
    by (simp add: kvCreateAction_def validateKVRequest_def marshalKVValue_def ttl written_def CreateKV_def keyValue_def createdKey_def
        flowConfig_def replay.simps)
  from kvCreateAction_expiry [OF this, of "WithTimeout Background 5" "''b''" "''k''" "''1''" "Some (90 * Second)" answer0]
  show ?thesis by (simp add: createdKey_def)
qed

end
