(* ===== verification/Dial_Signals.thy ===== *)
theory Dial_Signals
  imports Connection Settings
begin

text \<open>
  What a dial waits for: the client options of \<open>dialConnection\<close>, the callbacks that
  \<open>connectionCallbacks\<close> puts around those of the user, and the loop of \<open>waitForInitialConnection\<close>
  on the channels they signal (\<open>src/tnats/lazy.go\<close>), with the option of \<open>WithNKeySeedFunc\<close>
  (\<open>src/tnats/auth.go\<close>).  \<open>Connection\<close> leaves it to the environment when the loop is woken; here
  the wake-ups come from the client.
\<close>

section \<open>Options of the client\<close>

text \<open>
  A callback by what it does when the client calls it: signal one of the two channels, or run a
  function of the user.
\<close>

datatype callback_action = SignalConnected | SignalClosed | UserCB nat

type_synonym callback = "callback_action list"

record client_options =
  co_RetryOnFailedConnect :: bool
  co_MaxReconnect :: int
  co_ReconnectBufSize :: int
  co_Timeout :: duration
  co_ConnectedCB :: "callback option"
  co_ReconnectedCB :: "callback option"
  co_ClosedCB :: "callback option"
  co_Nkey :: string
  co_SignatureCB :: "nat option"

text \<open>An option changes the options of the client or fails; the client applies them in order.\<close>

type_synonym client_option = "client_options \<Rightarrow> goerror + client_options"

fun apply_options :: "client_option list \<Rightarrow> client_options \<Rightarrow> goerror + client_options" where
  "apply_options [] o1 = Inr o1"
| "apply_options (f # fs) o1 = (case f o1 of Inl e \<Rightarrow> Inl e | Inr o2 \<Rightarrow> apply_options fs o2)"

definition wrap_callback :: "callback_action \<Rightarrow> callback option \<Rightarrow> callback option" where
  "wrap_callback sig cb = Some (sig # (case cb of None \<Rightarrow> [] | Some acts \<Rightarrow> acts))"

definition connectionCallbacks :: client_option where
  "connectionCallbacks o1 = Inr (o1\<lparr>
     co_ConnectedCB := wrap_callback SignalConnected (co_ConnectedCB o1),
     co_ReconnectedCB := wrap_callback SignalConnected (co_ReconnectedCB o1),
     co_ClosedCB := wrap_callback SignalClosed (co_ClosedCB o1)\<rparr>)"

definition dialOptions :: "client_option list \<Rightarrow> client_option list" where
  "dialOptions options =
     [\<lambda>o1. Inr (o1\<lparr>co_RetryOnFailedConnect := True\<rparr>), \<lambda>o1. Inr (o1\<lparr>co_MaxReconnect := -1\<rparr>),
      \<lambda>o1. Inr (o1\<lparr>co_ReconnectBufSize := 8 * 1024 * 1024\<rparr>), \<lambda>o1. Inr (o1\<lparr>co_Timeout := 3 * Second\<rparr>)]
     @ options @ [connectionCallbacks]"

text \<open>
  The option of \<open>WithNKeySeedFunc\<close>: the function of the user and the key library are parameters, and
  a key pair is opaque.
\<close>

definition nkeySeedOption ::
  "goerror + string \<Rightarrow> (string \<Rightarrow> goerror + nat) \<Rightarrow> (nat \<Rightarrow> goerror + string) \<Rightarrow> client_option" where
  "nkeySeedOption seedFunc FromSeed PublicKey o1 = (case seedFunc of
      Inl err \<Rightarrow> Inl (Wrapf ''tnats: nkey seed retrieval failed'' err)
    | Inr seed \<Rightarrow> (case FromSeed seed of
        Inl err \<Rightarrow> Inl (Wrapf ''tnats: decode nkey seed'' err)
      | Inr kp \<Rightarrow> (case PublicKey kp of
          Inl err \<Rightarrow> Inl (Wrapf ''tnats: derive nkey public'' err)
        | Inr pub \<Rightarrow> Inr (o1\<lparr>co_Nkey := pub, co_SignatureCB := Some kp\<rparr>))))"

section \<open>A dial in progress\<close>

text \<open>
  The thread \<open>i\<close> waits for the connection \<open>nc\<close>.  Both channels have capacity one, so each is whether
  it holds a token.  \<open>dl_pending\<close> are the actions of callbacks the client has scheduled and not yet
  run, in order; \<open>dl_events\<close> are the callbacks of the user for what has happened so far, and \<open>dl_ran\<close>
  those that were run.
\<close>

record dial =
  dl_pc :: dial_pc
  dl_connected :: bool
  dl_closed :: bool
  dl_isConnected :: bool
  dl_isClosed :: bool
  dl_pending :: "callback_action list"
  dl_events :: "nat list"
  dl_ran :: "nat list"
  dl_ctxErr :: "goerror option"
  dl_shared :: shared

text \<open>\<open>signal\<close> sends without blocking: a token that is already there stays the only one.\<close>

fun run_action :: "callback_action \<Rightarrow> dial \<Rightarrow> dial" where
  "run_action SignalConnected d = d\<lparr>dl_connected := True\<rparr>"
| "run_action SignalClosed d = d\<lparr>dl_closed := True\<rparr>"
| "run_action (UserCB f) d = d\<lparr>dl_ran := dl_ran d @ [f]\<rparr>"

fun user_part :: "callback_action list \<Rightarrow> nat list" where
  "user_part [] = []"
| "user_part (UserCB f # as) = f # user_part as"
| "user_part (_ # as) = user_part as"

text \<open>The user's own callback, and the client's scheduling of the installed one.\<close>

definition schedule :: "callback option \<Rightarrow> callback option \<Rightarrow> dial \<Rightarrow> dial" where
  "schedule user installed d =
     d\<lparr>dl_pending := dl_pending d @ (case installed of None \<Rightarrow> [] | Some acts \<Rightarrow> acts),
       dl_events := dl_events d @ (case user of None \<Rightarrow> [] | Some acts \<Rightarrow> user_part acts)\<rparr>"

definition dial_env :: "dial \<Rightarrow> goerror option \<Rightarrow> select_case \<Rightarrow> env" where
  "dial_env d lastErr c = \<lparr>e_ctxErr = dl_ctxErr d, e_err = lastErr, e_flag = dl_isConnected d,
     e_parentDone = dl_ctxErr d \<noteq> None, e_select = c\<rparr>"

text \<open>
  One turn of \<open>waitForInitialConnection\<close>: the checks at its head, or a case of its \<open>select\<close>, which
  is ready only if its channel holds a token (and takes it) or its context has ended.
\<close>

fun select_ready :: "dial \<Rightarrow> select_case \<Rightarrow> bool" where
  "select_ready d Connected = dl_connected d"
| "select_ready d Closed = dl_closed d"
| "select_ready d _ = True"

fun take_token :: "select_case \<Rightarrow> dial \<Rightarrow> dial" where
  "take_token Connected d = d\<lparr>dl_connected := False\<rparr>"
| "take_token Closed d = d\<lparr>dl_closed := False\<rparr>"
| "take_token _ d = d"

definition waitForInitialConnection :: "tid \<Rightarrow> goerror option \<Rightarrow> select_case \<Rightarrow> dial \<Rightarrow> dial option" where
  "waitForInitialConnection i lastErr c d = (case dl_pc d of
      Wait nc \<Rightarrow> Some (d\<lparr>dl_pc := wait_head (dial_env d lastErr c) i nc (dl_shared d)\<rparr>)
    | Select nc \<Rightarrow>
        if \<not> select_ready d c then None
        else map_option (\<lambda>p. take_token c d\<lparr>dl_pc := p\<rparr>) (wait_select (dial_env d lastErr c) i nc (dl_shared d))
    | _ \<Rightarrow> None)"

text \<open>
  The client, as it is documented: it schedules the callback of every connect, reconnect and close,
  and runs scheduled callbacks in order.  \<open>user\<close> are the options without \<open>connectionCallbacks\<close>,
  \<open>full\<close> those the client was given.  The context may end and other threads may go on at any time.
\<close>

inductive dial_step :: "client_options \<Rightarrow> client_options \<Rightarrow> tid \<Rightarrow> dial \<Rightarrow> dial \<Rightarrow> bool"
  for user full i where
  wait: "waitForInitialConnection i lastErr c d = Some d' \<Longrightarrow> dial_step user full i d d'"
| connect: "\<not> dl_isConnected d \<Longrightarrow> \<not> dl_isClosed d \<Longrightarrow>
    dial_step user full i d (schedule (co_ConnectedCB user) (co_ConnectedCB full) (d\<lparr>dl_isConnected := True\<rparr>))"
| reconnect: "\<not> dl_isConnected d \<Longrightarrow> \<not> dl_isClosed d \<Longrightarrow>
    dial_step user full i d (schedule (co_ReconnectedCB user) (co_ReconnectedCB full) (d\<lparr>dl_isConnected := True\<rparr>))"
| disconnect: "dl_isConnected d \<Longrightarrow> dial_step user full i d (d\<lparr>dl_isConnected := False\<rparr>)"
| close: "\<not> dl_isClosed d \<Longrightarrow> dial_step user full i d
    (schedule (co_ClosedCB user) (co_ClosedCB full) (d\<lparr>dl_isConnected := False, dl_isClosed := True\<rparr>))"
| dispatch: "dl_pending d = x # xs \<Longrightarrow> dial_step user full i d (run_action x (d\<lparr>dl_pending := xs\<rparr>))"
| ctx_end: "dl_ctxErr d = None \<Longrightarrow> dial_step user full i d (d\<lparr>dl_ctxErr := Some err\<rparr>)"
| others: "s_cancelled (dl_shared d) \<subseteq> s_cancelled s \<Longrightarrow> dial_step user full i d (d\<lparr>dl_shared := s\<rparr>)"

text \<open>
  The dial after \<open>nats.Connect\<close> returned without error: with \<open>RetryOnFailedConnect\<close> the connection
  may or may not be established yet; if it is, its callback is scheduled.
\<close>

definition dial_start :: "client_options \<Rightarrow> client_options \<Rightarrow> bool \<Rightarrow> conn \<Rightarrow> shared \<Rightarrow> dial" where
  "dial_start user full connected nc s =
    (let d = \<lparr>dl_pc = Wait nc, dl_connected = False, dl_closed = False, dl_isConnected = False, dl_isClosed = False,
        dl_pending = [], dl_events = [], dl_ran = [], dl_ctxErr = None, dl_shared = s\<rparr>
     in if connected then schedule (co_ConnectedCB user) (co_ConnectedCB full) (d\<lparr>dl_isConnected := True\<rparr>) else d)"

inductive dialing :: "client_options \<Rightarrow> client_options \<Rightarrow> tid \<Rightarrow> dial \<Rightarrow> bool" for user full i where
  start: "dialing user full i (dial_start user full connected nc s)"
| step: "dialing user full i d \<Longrightarrow> dial_step user full i d d' \<Longrightarrow> dialing user full i d'"

section \<open>What the options guarantee\<close>

lemma apply_options_append:
  "apply_options (fs @ gs) o1 = (case apply_options fs o1 of Inl e \<Rightarrow> Inl e | Inr o2 \<Rightarrow> apply_options gs o2)"
  by (induction fs arbitrary: o1) (auto split: sum.splits)

text \<open>
  Whatever the options of the user do, the client ends up with the callbacks of the transport around
  exactly those that the other options have set.
\<close>

definition with_signals :: "client_options \<Rightarrow> client_options \<Rightarrow> bool" where
  "with_signals user full \<longleftrightarrow>
     co_ConnectedCB full = wrap_callback SignalConnected (co_ConnectedCB user) \<and>
     co_ReconnectedCB full = wrap_callback SignalConnected (co_ReconnectedCB user) \<and>
     co_ClosedCB full = wrap_callback SignalClosed (co_ClosedCB user)"

lemma dialOptions_signals:
  assumes "apply_options (dialOptions options) o1 = Inr full"
  obtains user where "apply_options (butlast (dialOptions options)) o1 = Inr user" "with_signals user full"
proof -
  have "dialOptions options = butlast (dialOptions options) @ [connectionCallbacks]"
    by (simp add: dialOptions_def butlast_append)
  then have "apply_options (butlast (dialOptions options) @ [connectionCallbacks]) o1 = Inr full"
    using assms by simp
  then obtain user where "apply_options (butlast (dialOptions options)) o1 = Inr user" "connectionCallbacks user = Inr full"
    by (auto simp: apply_options_append simp del: butlast_append split: sum.splits)
  then show ?thesis by (intro that) (auto simp: connectionCallbacks_def with_signals_def)
qed

lemma nkeySeedOption_key:
  "nkeySeedOption seedFunc FromSeed PublicKey o1 = Inr o2 \<longleftrightarrow>
    (\<exists>seed kp pub. seedFunc = Inr seed \<and> FromSeed seed = Inr kp \<and> PublicKey kp = Inr pub \<and>
      o2 = o1\<lparr>co_Nkey := pub, co_SignatureCB := Some kp\<rparr>)"
  by (auto simp: nkeySeedOption_def split: sum.splits)

section \<open>What the signals guarantee\<close>

lemma user_part_append [simp]: "user_part (as @ bs) = user_part as @ user_part bs"
  by (induction as rule: user_part.induct) auto

lemma user_part_wrap [simp]:
  "user_part (case wrap_callback SignalConnected cb of None \<Rightarrow> [] | Some acts \<Rightarrow> acts) = (case cb of None \<Rightarrow> [] | Some acts \<Rightarrow> user_part acts)"
  "user_part (case wrap_callback SignalClosed cb of None \<Rightarrow> [] | Some acts \<Rightarrow> acts) = (case cb of None \<Rightarrow> [] | Some acts \<Rightarrow> user_part acts)"
  by (auto simp: wrap_callback_def split: option.split)

lemma schedule_simps [simp]:
  "dl_pc (schedule u f d) = dl_pc d" "dl_connected (schedule u f d) = dl_connected d"
  "dl_closed (schedule u f d) = dl_closed d" "dl_isConnected (schedule u f d) = dl_isConnected d"
  "dl_isClosed (schedule u f d) = dl_isClosed d" "dl_ran (schedule u f d) = dl_ran d"
  by (simp_all add: schedule_def)

lemma take_token_simps [simp]:
  "dl_pc (take_token c d) = dl_pc d" "dl_pending (take_token c d) = dl_pending d" "dl_ran (take_token c d) = dl_ran d"
  "dl_events (take_token c d) = dl_events d" "dl_isConnected (take_token c d) = dl_isConnected d"
  "dl_isClosed (take_token c d) = dl_isClosed d"
  by (cases c; simp)+

text \<open>
  The invariant.  A loop that has gone to its \<open>select\<close> on a connection that is up, or closed, has its
  wake-up in the channel or among the scheduled callbacks; and no callback of the user is lost,
  repeated or reordered.
\<close>

definition woken :: "dial \<Rightarrow> bool" where
  "woken d \<longleftrightarrow>
     (\<forall>nc. dl_pc d = Select nc \<longrightarrow> dl_isConnected d \<longrightarrow> dl_connected d \<or> SignalConnected \<in> set (dl_pending d)) \<and>
     (\<forall>nc. dl_pc d = Select nc \<or> dl_pc d = Wait nc \<longrightarrow> dl_isClosed d \<longrightarrow> dl_closed d \<or> SignalClosed \<in> set (dl_pending d)) \<and>
     dl_events d = dl_ran d @ user_part (dl_pending d) \<and> (dl_isClosed d \<longrightarrow> \<not> dl_isConnected d)"

lemma woken_wait:
  assumes "waitForInitialConnection i lastErr c d = Some d'" and "woken d"
  shows "woken d'"
proof (cases "dl_pc d")
  case (Wait nc)
  then show ?thesis using assms
    by (auto simp: waitForInitialConnection_def woken_def wait_head_def dial_env_def split: option.splits if_splits)
next
  case (Select nc)
  then show ?thesis using assms
    by (cases c) (auto simp: waitForInitialConnection_def woken_def wait_select_def dial_env_def split: option.splits if_splits)
qed (use assms in \<open>auto simp: waitForInitialConnection_def\<close>)

lemma woken_dispatch:
  assumes "dl_pending d = x # xs" and "woken d"
  shows "woken (run_action x (d\<lparr>dl_pending := xs\<rparr>))"
  using assms by (cases x) (auto simp: woken_def)

lemma woken_schedule:
  assumes "woken d" and "with_signals user full"
  shows "\<not> dl_isClosed d \<Longrightarrow> woken (schedule (co_ConnectedCB user) (co_ConnectedCB full) (d\<lparr>dl_isConnected := True\<rparr>))"
    and "\<not> dl_isClosed d \<Longrightarrow> woken (schedule (co_ReconnectedCB user) (co_ReconnectedCB full) (d\<lparr>dl_isConnected := True\<rparr>))"
    and "woken (schedule (co_ClosedCB user) (co_ClosedCB full) (d\<lparr>dl_isConnected := False, dl_isClosed := True\<rparr>))"
  using assms by (auto simp: woken_def schedule_def with_signals_def wrap_callback_def split: option.splits)

lemma dialing_woken:
  assumes "dialing user full i d" and sig: "with_signals user full"
  shows "woken d"
  using assms(1)
proof induction
  case (start connected nc s)
  then show ?case using sig
    by (auto simp: woken_def dial_start_def schedule_def with_signals_def wrap_callback_def Let_def split: option.splits)
next
  case (step d d')
  from step(2,3) show ?case
  proof cases
    case (disconnect)
    then show ?thesis using step.IH by (auto simp: woken_def)
  next
    case (ctx_end err)
    then show ?thesis using step.IH by (auto simp: woken_def)
  next
    case (others s)
    then show ?thesis using step.IH by (auto simp: woken_def)
  qed (use step.IH sig in \<open>auto intro: woken_wait woken_schedule woken_dispatch\<close>)
qed

text \<open>
  C10: A dial never sleeps through its connection. Whatever options the user gave and however the
  client, the context and other threads interleave, once the client has run its callbacks a dial that
  waits on a connection that is up goes on with it in two steps, and one that waits on a closed
  connection can fail at once; and the user's own callbacks have each been run once for every
  event, in order.
\<close>

theorem dial_no_lost_wakeup:
  assumes opts: "apply_options (dialOptions options) o1 = Inr full" "apply_options (butlast (dialOptions options)) o1 = Inr user"
    and run: "dialing user full i d" and idle: "dl_pending d = []"
    and alive: "dl_ctxErr d = None" "i \<notin> s_cancelled (dl_shared d)" and at: "dl_pc d = Select nc"
  shows "dl_ran d = dl_events d \<and>
    (dl_isConnected d \<longrightarrow> (\<exists>d1 d2. waitForInitialConnection i None Connected d = Some d1 \<and>
       waitForInitialConnection i None Connected d1 = Some d2 \<and> dl_pc d2 = OpenJS nc)) \<and>
    (dl_isClosed d \<longrightarrow> (\<forall>lastErr. \<exists>d1 err. waitForInitialConnection i lastErr Closed d = Some d1 \<and> dl_pc d1 = CloseDialed nc err))"
proof -
  have "with_signals user full"
    using dialOptions_signals [OF opts(1)] opts(2) by (metis sum.inject(2))
  then have w: "woken d" using dialing_woken [OF run] by blast
  then have "dl_isConnected d \<Longrightarrow> dl_connected d" and "dl_isClosed d \<Longrightarrow> dl_closed d" and "dl_ran d = dl_events d"
    using idle at by (auto simp: woken_def)
  then show ?thesis using alive at
    by (auto simp: waitForInitialConnection_def wait_select_def wait_head_def dial_env_def)
qed

text \<open>A user with one callback of their own; the connection comes up while the loop waits.\<close>

definition plain_options :: client_options where
  "plain_options = \<lparr>co_RetryOnFailedConnect = False, co_MaxReconnect = 60, co_ReconnectBufSize = 0, co_Timeout = 0,
     co_ConnectedCB = None, co_ReconnectedCB = None, co_ClosedCB = None, co_Nkey = [], co_SignatureCB = None\<rparr>"

definition user_options :: "client_option list" where
  "user_options = [\<lambda>o1. Inr (o1\<lparr>co_ConnectedCB := Some [UserCB 7]\<rparr>)]"

definition user_final :: client_options where
  "user_final = plain_options\<lparr>co_RetryOnFailedConnect := True, co_MaxReconnect := -1, co_ReconnectBufSize := 8 * 1024 * 1024,
     co_Timeout := 3 * Second, co_ConnectedCB := Some [UserCB 7]\<rparr>"

definition full_final :: client_options where
  "full_final = user_final\<lparr>co_ConnectedCB := Some [SignalConnected, UserCB 7], co_ReconnectedCB := Some [SignalConnected],
     co_ClosedCB := Some [SignalClosed]\<rparr>"

definition woken_dial :: dial where
  "woken_dial = \<lparr>dl_pc = Select 0, dl_connected = True, dl_closed = False, dl_isConnected = True, dl_isClosed = False,
     dl_pending = [], dl_events = [7], dl_ran = [7], dl_ctxErr = None, dl_shared = New_shared ''nats://h'' None\<rparr>"

lemma woken_dial_reached: "dialing user_final full_final 1 woken_dial"
proof -
  let ?s = "New_shared ''nats://h'' None"
  let ?d0 = "dial_start user_final full_final False 0 ?s"
  let ?d1 = "?d0\<lparr>dl_pc := Select 0\<rparr>"
  let ?d2 = "schedule (co_ConnectedCB user_final) (co_ConnectedCB full_final) (?d1\<lparr>dl_isConnected := True\<rparr>)"
  let ?d3 = "run_action SignalConnected (?d2\<lparr>dl_pending := [UserCB 7]\<rparr>)"
  let ?d4 = "run_action (UserCB 7) (?d3\<lparr>dl_pending := []\<rparr>)"
  have "waitForInitialConnection 1 None GateFree ?d0 = Some ?d1"
    by (simp add: waitForInitialConnection_def dial_start_def wait_head_def dial_env_def New_shared_def)
  then have "dialing user_final full_final 1 ?d1" by (intro dialing.step [OF dialing.start dial_step.wait])
  then have "dialing user_final full_final 1 ?d2"
    by (rule dialing.step) (rule dial_step.connect, simp_all add: dial_start_def)
  then have "dialing user_final full_final 1 ?d3"
    by (rule dialing.step) (rule dial_step.dispatch, simp add: dial_start_def schedule_def full_final_def)
  then have "dialing user_final full_final 1 ?d4"
    by (rule dialing.step) (rule dial_step.dispatch, simp)
  moreover have "?d4 = woken_dial"
    by (simp add: woken_dial_def dial_start_def schedule_def user_final_def)
  ultimately show ?thesis by simp
qed

theorem dial_no_lost_wakeup_witness:
  "\<exists>d1 d2. waitForInitialConnection 1 None Connected woken_dial = Some d1 \<and>
     waitForInitialConnection 1 None Connected d1 = Some d2 \<and> dl_pc d2 = OpenJS 0"
proof -
  have "apply_options (dialOptions user_options) plain_options = Inr full_final"
    "apply_options (butlast (dialOptions user_options)) plain_options = Inr user_final"
    by (simp_all add: dialOptions_def user_options_def connectionCallbacks_def wrap_callback_def full_final_def user_final_def
        plain_options_def)
  from dial_no_lost_wakeup [OF this woken_dial_reached, of 0] show ?thesis
    by (simp add: woken_dial_def New_shared_def)
qed

end
