(* ===== verification/Flow_Listen.thy ===== *)
theory Flow_Listen
  imports Flow
begin

text \<open>
  The action \<open>nats.listen\<close> as it runs: the goroutine with \<open>Do\<close> and the code that waits for readiness,
  announces it and waits for the end of the run (\<open>listenAction\<close> of \<open>src/nexssflow/library.go\<close>).
\<close>

section \<open>The two processes\<close>

text \<open>
  The goroutine: before and after \<open>Do\<close> has called \<open>signalReady\<close>, and after it has sent its result.
  A run is given by its calls, what it signals and what it returns.
\<close>

record listen_run =
  lr_trace :: "event list"
  lr_signal :: "goerror option"
  lr_result :: "goerror option"

datatype goroutine = Starting | Signalled | Sent

datatype listen_pc =
    AtWaitReady | AtCancel goerror | AtDoneFailed goerror | AtSignalReady | AtDone | Listened "goerror option"

text \<open>
  \<open>ln_ready\<close> is the channel \<open>ready\<close> of the transport with \<open>readyErr\<close>, once it is closed; \<open>ln_done\<close> the
  buffered channel \<open>done\<close>; \<open>ln_ctxErr\<close> how the context of the action has ended; \<open>ln_cancelled\<close> whether
  the context of the run was cancelled by the action; \<open>ln_announced\<close> whether \<open>contracts.SignalReady\<close>
  was called.
\<close>

record listening =
  ln_pc :: listen_pc
  ln_go :: goroutine
  ln_ready :: "goerror option option"
  ln_done :: "goerror option option"
  ln_ctxErr :: "goerror option"
  ln_cancelled :: bool
  ln_announced :: bool

definition listen_start :: "run_state \<Rightarrow> listening" where
  "listen_start st = \<lparr>ln_pc = AtWaitReady, ln_go = Starting, ln_ready = (if r_ready st then Some (r_readyErr st) else None),
     ln_done = None, ln_ctxErr = None, ln_cancelled = False, ln_announced = False\<rparr>"

abbreviation canceled :: "listening \<Rightarrow> bool" where
  "canceled l \<equiv> (case ln_ctxErr l of None \<Rightarrow> False | Some e \<Rightarrow> errors_Is e (ContextErr ''Canceled''))"

text \<open>A step of the action.  The boolean chooses between the cases of the \<open>select\<close> in \<open>WaitReady\<close>.\<close>

definition listenAction_step :: "bool \<Rightarrow> listening \<Rightarrow> listening option" where
  "listenAction_step preferCtx l = (case ln_pc l of
      AtWaitReady \<Rightarrow>
        if preferCtx then map_option (\<lambda>e. l\<lparr>ln_pc := AtCancel e\<rparr>) (ln_ctxErr l)
        else map_option (\<lambda>err. l\<lparr>ln_pc := (case err of Some e \<Rightarrow> AtCancel e | None \<Rightarrow> AtSignalReady)\<rparr>) (ln_ready l)
    | AtCancel e \<Rightarrow> Some (l\<lparr>ln_pc := AtDoneFailed e, ln_cancelled := True\<rparr>)
    | AtDoneFailed e \<Rightarrow> map_option (\<lambda>doErr.
        l\<lparr>ln_pc := Listened (listenResult (Some e) doErr (canceled l)), ln_done := None\<rparr>) (ln_done l)
    | AtSignalReady \<Rightarrow> Some (l\<lparr>ln_pc := AtDone, ln_announced := True\<rparr>)
    | AtDone \<Rightarrow> map_option (\<lambda>doErr.
        l\<lparr>ln_pc := Listened (listenResult None doErr (canceled l)), ln_done := None, ln_cancelled := True\<rparr>) (ln_done l)
    | Listened r \<Rightarrow> None)"

text \<open>A step of the goroutine that makes the run \<open>run\<close>.  Only the first signal of a transport counts.\<close>

definition listenRun_step :: "listen_run \<Rightarrow> listening \<Rightarrow> listening option" where
  "listenRun_step run l = (case ln_go l of
      Starting \<Rightarrow> Some (l\<lparr>ln_go := Signalled, ln_ready := (case ln_ready l of None \<Rightarrow> Some (lr_signal run) | Some e \<Rightarrow> Some e)\<rparr>)
    | Signalled \<Rightarrow> Some (l\<lparr>ln_go := Sent, ln_done := Some (lr_result run)\<rparr>)
    | Sent \<Rightarrow> None)"

text \<open>The runs of \<open>Do\<close>, with the context that \<open>nats.listen\<close> derives from its own.\<close>

definition is_run :: "int \<Rightarrow> (StreamConfig \<Rightarrow> StreamConfig) option \<Rightarrow> ctx \<Rightarrow> run_state \<Rightarrow> listen_run \<Rightarrow> bool" where
  "is_run randomPort modifier ctx st run \<longleftrightarrow> (\<exists>st'.
     replay (Do randomPort modifier (WithCancel ctx) st) (lr_trace run) = Some (Finished (lr_result run), st') \<and>
     (\<not> r_readyOnce st \<longrightarrow> lr_signal run = r_readyErr st'))"

inductive listens :: "run_state \<Rightarrow> listen_run \<Rightarrow> listening \<Rightarrow> bool" for st run where
  start: "listens st run (listen_start st)"
| act: "listens st run l \<Longrightarrow> listenAction_step p l = Some l' \<Longrightarrow> listens st run l'"
| run: "listens st run l \<Longrightarrow> listenRun_step run l = Some l' \<Longrightarrow> listens st run l'"
| ctx_end: "listens st run l \<Longrightarrow> ln_ctxErr l = None \<Longrightarrow> listens st run (l\<lparr>ln_ctxErr := Some e\<rparr>)"

section \<open>What listening guarantees\<close>

text \<open>
  The invariant: readiness is what the run signals, a result is sent once and belongs to the run, and
  the action has a result only after it has taken that of the run.
\<close>

fun ended :: "listen_pc \<Rightarrow> bool" where
  "ended (Listened r) = True" | "ended _ = False"

definition ready_view :: "run_state \<Rightarrow> listen_run \<Rightarrow> goroutine \<Rightarrow> goerror option option" where
  "ready_view st run g = (if r_ready st then Some (r_readyErr st) else if g = Starting then None else Some (lr_signal run))"

definition done_view :: "listen_run \<Rightarrow> goroutine \<Rightarrow> bool \<Rightarrow> goerror option option" where
  "done_view run g taken = (if g = Sent \<and> \<not> taken then Some (lr_result run) else None)"

fun announcing :: "listen_pc \<Rightarrow> bool" where
  "announcing AtSignalReady = True" | "announcing AtDone = True" | "announcing _ = False"

definition listen_inv :: "run_state \<Rightarrow> listen_run \<Rightarrow> listening \<Rightarrow> bool" where
  "listen_inv st run l \<longleftrightarrow>
     ln_ready l = ready_view st run (ln_go l) \<and> ln_done l = done_view run (ln_go l) (ended (ln_pc l)) \<and>
     (ended (ln_pc l) \<longrightarrow> ln_go l = Sent \<and> ln_cancelled l) \<and>
     (ln_announced l \<or> announcing (ln_pc l) \<longrightarrow> ln_ready l = Some None) \<and>
     (ln_pc l = AtDone \<longrightarrow> ln_announced l) \<and> (ln_announced l \<longrightarrow> ln_pc l = AtDone \<or> ended (ln_pc l)) \<and>
     (\<forall>e. ln_pc l = AtDoneFailed e \<longrightarrow> ln_cancelled l)"

lemma ready_view_keeps: "ready_view st run g = Some e \<Longrightarrow> g' \<noteq> Starting \<Longrightarrow> ready_view st run g' = Some e"
  by (auto simp: ready_view_def split: if_splits)

lemma listen_inv_done:
  assumes "listen_inv st run l" and "ln_done l = Some r"
  shows "ln_go l = Sent" "r = lr_result run" "\<not> ended (ln_pc l)"
proof -
  have "done_view run (ln_go l) (ended (ln_pc l)) = Some r" using assms by (simp add: listen_inv_def)
  then show "ln_go l = Sent" "r = lr_result run" "\<not> ended (ln_pc l)" by (auto simp: done_view_def split: if_splits)
qed

lemma listen_inv_act:
  assumes "listenAction_step p l = Some l'" and "listen_inv st run l"
  shows "listen_inv st run l'"
proof (cases "ln_pc l")
  case AtWaitReady
  show ?thesis
  proof (cases p)
    case True
    then obtain e where "l' = l\<lparr>ln_pc := AtCancel e\<rparr>"
      using assms(1) AtWaitReady by (auto simp: listenAction_step_def)
    then show ?thesis using assms(2) AtWaitReady by (simp add: listen_inv_def)
  next
    case False
    then obtain err where "ln_ready l = Some err"
      and "l' = l\<lparr>ln_pc := (case err of Some e \<Rightarrow> AtCancel e | None \<Rightarrow> AtSignalReady)\<rparr>"
      using assms(1) AtWaitReady by (auto simp: listenAction_step_def)
    then show ?thesis using assms(2) AtWaitReady by (cases err) (simp_all add: listen_inv_def)
  qed
next
  case (AtDoneFailed e)
  then obtain doErr where "ln_done l = Some doErr"
    and "l' = l\<lparr>ln_pc := Listened (listenResult (Some e) doErr (canceled l)), ln_done := None\<rparr>"
    using assms(1) by (auto simp: listenAction_step_def)
  then show ?thesis using listen_inv_done(1) [OF assms(2)] assms(2) AtDoneFailed by (simp add: listen_inv_def done_view_def)
next
  case AtDone
  then obtain doErr where "ln_done l = Some doErr"
    and "l' = l\<lparr>ln_pc := Listened (listenResult None doErr (canceled l)), ln_done := None, ln_cancelled := True\<rparr>"
    using assms(1) by (auto simp: listenAction_step_def)
  then show ?thesis using listen_inv_done(1) [OF assms(2)] assms(2) AtDone
    by (simp add: listen_inv_def done_view_def) (elim conjE, simp)
qed (use assms in \<open>simp_all add: listenAction_step_def, (hypsubst, simp add: listen_inv_def)+\<close>)

lemma listen_inv_run:
  assumes "listenRun_step run l = Some l'" and inv: "listen_inv st run l"
  shows "listen_inv st run l'"
proof (cases "ln_go l")
  case Starting
  then have "l' = l\<lparr>ln_go := Signalled, ln_ready := ready_view st run Signalled\<rparr>" and "\<not> ended (ln_pc l)"
    using assms by (auto simp: listenRun_step_def listen_inv_def ready_view_def)
  then show ?thesis using inv Starting by (auto simp: listen_inv_def done_view_def intro: ready_view_keeps)
next
  case Signalled
  then have "l' = l\<lparr>ln_go := Sent, ln_done := Some (lr_result run)\<rparr>" and "\<not> ended (ln_pc l)"
    using assms by (auto simp: listenRun_step_def listen_inv_def)
  then show ?thesis using inv Signalled by (auto simp: listen_inv_def done_view_def ready_view_def)
qed (use assms in \<open>simp add: listenRun_step_def\<close>)

lemma listens_inv: "listens st run l \<Longrightarrow> listen_inv st run l"
proof (induction rule: listens.induct)
  case start
  then show ?case by (simp add: listen_inv_def listen_start_def ready_view_def done_view_def)
next
  case (ctx_end l e)
  then show ?case by (auto simp: listen_inv_def)
qed (auto intro: listen_inv_act listen_inv_run)

text \<open>Nothing is stuck: once the run has sent its result, the action can go on until it has returned.\<close>

lemma listen_progress:
  assumes "listens st run l" and "ln_go l = Sent" and "\<not> ended (ln_pc l)"
  shows "\<exists>l'. listenAction_step False l = Some l'"
proof -
  have "\<exists>err. ln_ready l = Some err" "ln_done l = Some (lr_result run)"
    using listens_inv [OF assms(1)] assms(2,3) by (auto simp: listen_inv_def ready_view_def done_view_def)
  then show ?thesis using assms(3) by (cases "ln_pc l") (auto simp: listenAction_step_def)
qed

text \<open>What the action returns, from the run and how it waited.\<close>

definition result_ok :: "listen_run \<Rightarrow> listening \<Rightarrow> goerror option \<Rightarrow> bool" where
  "result_ok run l res \<longleftrightarrow>
     canceled l \<or> (if ln_announced l then res = lr_result run else res \<noteq> None)"

lemma listenResult_failed: "\<not> c \<Longrightarrow> listenResult (Some e) doErr c \<noteq> None"
  by (simp add: listenResult_def split: option.splits)

lemma listens_result: "listens st run l \<Longrightarrow> ln_pc l = Listened res \<Longrightarrow> result_ok run l res"
proof (induction arbitrary: res rule: listens.induct)
  case (act l p l')
  note inv = listens_inv [OF act.hyps(1)]
  show ?case
  proof (cases "ln_pc l")
    case AtWaitReady
    then show ?thesis using act.hyps(2) act.prems by (auto simp: listenAction_step_def split: if_splits option.split_asm)
  next
    case (AtDoneFailed e)
    then obtain doErr where "l' = l\<lparr>ln_pc := Listened (listenResult (Some e) doErr (canceled l)), ln_done := None\<rparr>"
      using act.hyps(2) by (auto simp: listenAction_step_def)
    moreover have "\<not> ln_announced l" using inv AtDoneFailed by (simp add: listen_inv_def)
    ultimately show ?thesis using act.prems listenResult_failed [of "canceled l" e doErr]
      by (cases "canceled l") (auto simp: result_ok_def)
  next
    case AtDone
    then obtain doErr where d: "ln_done l = Some doErr"
      and "l' = l\<lparr>ln_pc := Listened (listenResult None doErr (canceled l)), ln_done := None, ln_cancelled := True\<rparr>"
      using act.hyps(2) by (auto simp: listenAction_step_def)
    then show ?thesis using act.prems listen_inv_done(2) [OF inv d] inv AtDone
      by (cases "canceled l") (auto simp: result_ok_def listenResult_def listen_inv_def)
  qed (use act.hyps(2) act.prems in \<open>auto simp: listenAction_step_def\<close>)
next
  case (run l l')
  then show ?case by (cases "ln_go l") (auto simp: listenRun_step_def result_ok_def)
next
  case (ctx_end l e)
  then show ?case by (auto simp: result_ok_def)
qed (simp add: listen_start_def)

text \<open>
  C17: \<open>nats.listen\<close> announces readiness only for a run that has mounted everything, and never leaves a
  run behind. On a transport that was not run before, and however its two processes and its
  context interleave: when it has announced readiness, its run has mounted every binding of the
  actions and flushed; when it returns, the run has ended and its context is cancelled; it returns
  without an error only if its context was cancelled or the run it had announced ended without
  one; and once the run has ended it is never blocked.
\<close>

theorem listen_sound:
  assumes st: "ready_ok st" "at_rest st" "\<not> r_readyOnce st"
    and run: "is_run randomPort modifier ctx st run" and l: "listens st run l"
  shows "(ln_announced l \<longrightarrow> ln_go l \<noteq> Starting \<and> mounted_and_flushed (WithCancel ctx) modifier st (lr_trace run)) \<and>
    (\<forall>res. ln_pc l = Listened res \<longrightarrow> ln_go l = Sent \<and> ln_cancelled l \<and>
       (res = None \<longrightarrow> canceled l \<or> (ln_announced l \<and> lr_result run = None))) \<and>
    (ln_go l = Sent \<and> (\<forall>res. ln_pc l \<noteq> Listened res) \<longrightarrow> (\<exists>l'. listenAction_step False l = Some l'))"
proof -
  note inv = listens_inv [OF l]
  from run obtain st' where do: "replay (Do randomPort modifier (WithCancel ctx) st) (lr_trace run) = Some (Finished (lr_result run), st')"
    and sig: "lr_signal run = r_readyErr st'" using st(3) by (auto simp: is_run_def)
  have "lr_signal run = None \<Longrightarrow> mounted_and_flushed (WithCancel ctx) modifier st (lr_trace run)"
    using Do_run [OF do st(1,2)] st(3) sig by auto
  moreover have "\<not> r_ready st" using st(1,3) by (simp add: ready_ok_def)
  ultimately have ann: "ln_announced l \<Longrightarrow> ln_go l \<noteq> Starting \<and> mounted_and_flushed (WithCancel ctx) modifier st (lr_trace run)"
    using inv by (auto simp: listen_inv_def ready_view_def split: if_splits)
  have ret: "ln_go l = Sent \<and> ln_cancelled l \<and> (res = None \<longrightarrow> canceled l \<or> (ln_announced l \<and> lr_result run = None))"
    if "ln_pc l = Listened res" for res
    using inv that listens_result [OF l that] by (auto simp: listen_inv_def result_ok_def split: if_splits)
  have "ended (ln_pc l) \<longleftrightarrow> (\<exists>res. ln_pc l = Listened res)" by (cases "ln_pc l") auto
  then show ?thesis using ann ret listen_progress [OF l] by blast
qed

text \<open>A first run of one topic that ends with its context, seen after the readiness was announced.\<close>

text \<open>A first run of one topic that ends with its context, seen when readiness has been announced.\<close>

definition firstRun :: listen_run where
  "firstRun = (let ctx = WithCancel (WithCancel Background) in
     \<lparr>lr_trace = [(Conn (EnsureConnection ctx), answer0), (Conn EnsureJetStream, answer0), (Conn (NcSubscribe ''s'' None), answer0),
        (Conn (NcFlush (WithTimeout ctx defaultShutdownTimeout)), answer0), (Conn (AwaitEnd ctx), answer0),
        (SubUnsubscribe, answer0), (Run WorkersWait, answer0), (Run CloseTransport, answer0)],
      lr_signal = None, lr_result = None\<rparr>)"

lemma firstRun_is_run: "is_run (-1) None Background freshRun firstRun"
proof -
  have "replay (Do (-1) None (WithCancel Background) freshRun) (lr_trace firstRun) =
     Some (Finished None, freshRun\<lparr>r_closing := True, r_ready := True, r_readyOnce := True\<rparr>)"
    by (simp add: firstRun_def Do_def freshRun_def Mount_def New_run_def New_settings_def idle_state_def runConnected_def runMounted_def
        mountActions_def topicAction_def subscribeTopic_def mountMicroServices_def serveMounted_def signalReady_def shutdownRun_def
        finishDo_def add_sub_def replay.simps Let_def)
  then show ?thesis
    by (simp add: is_run_def) (simp add: firstRun_def freshRun_def Mount_def New_run_def idle_state_def Let_def)
qed

definition announcedListen :: listening where
  "announcedListen = \<lparr>ln_pc = AtDone, ln_go = Signalled, ln_ready = Some None, ln_done = None, ln_ctxErr = None,
     ln_cancelled = False, ln_announced = True\<rparr>"

lemma announcedListen_reached: "listens freshRun firstRun announcedListen"
proof -
  let ?l0 = "listen_start freshRun"
  let ?l1 = "?l0\<lparr>ln_go := Signalled, ln_ready := Some None\<rparr>"
  let ?l2 = "?l1\<lparr>ln_pc := AtSignalReady\<rparr>"
  have fresh: "\<not> r_ready freshRun" using freshRun_ok by (simp add: ready_ok_def)
  have "listens freshRun firstRun ?l1"
    by (rule listens.run [OF listens.start]) (simp add: listenRun_step_def listen_start_def fresh firstRun_def Let_def)
  then have "listens freshRun firstRun ?l2"
    by (rule listens.act [where p = False]) (simp add: listenAction_step_def listen_start_def)
  then show ?thesis
    by (rule listens.act [where p = False]) (simp add: listenAction_step_def listen_start_def announcedListen_def)
qed

theorem listen_sound_witness: "mounted_and_flushed (WithCancel Background) None freshRun (lr_trace firstRun)"
  using listen_sound [OF freshRun_ok firstRun_is_run announcedListen_reached] by (simp add: announcedListen_def)

text \<open>
  On a transport whose first run has signalled readiness without an error, \<open>nats.listen\<close> may announce
  readiness again before its new run has done anything.
\<close>

lemma listen_announces_early:
  assumes "r_ready st" and "r_readyErr st = None"
  shows "\<exists>l. listens st run l \<and> ln_announced l \<and> ln_go l = Starting"
proof -
  have "listens st run (listen_start st\<lparr>ln_pc := AtSignalReady\<rparr>)"
    by (rule listens.act [OF listens.start, where p = False]) (simp add: listenAction_step_def listen_start_def assms)
  then have "listens st run (listen_start st\<lparr>ln_pc := AtDone, ln_announced := True\<rparr>)"
    by (rule listens.act [where p = False]) (simp add: listenAction_step_def)
  then show ?thesis by (intro exI conjI) (assumption, simp_all add: listen_start_def)
qed

end
