(* ===== verification/Redaction.thy ===== *)
theory Redaction
  imports Lifecycle Encodings
begin

text \<open>
  How a transport names itself: \<open>sanitizeURL\<close> of \<open>src/tnats/tnats_context.go\<close>, \<open>String\<close> and \<open>AsAction\<close>
  of \<open>src/tnats/tnats.go\<close>.  The names go to logs and descriptions, so the password of an address must
  not show in them.  The theory holds what they use of \<open>net/url\<close>.
\<close>

section \<open>Addresses of net/url\<close>

text \<open>Which characters are escaped in which part of an address.\<close>

datatype encoding_mode = encodePath | encodeUserPassword | encodeFragment | encodeHost

definition alpha :: "char \<Rightarrow> bool" where
  "alpha c \<longleftrightarrow> in_range c 65 90 \<or> in_range c 97 122"

definition alnum :: "char \<Rightarrow> bool" where
  "alnum c \<longleftrightarrow> alpha c \<or> is_digit c"

definition reservedEscape :: "encoding_mode \<Rightarrow> char \<Rightarrow> bool" where
  "reservedEscape mode c = (case mode of
      encodePath \<Rightarrow> c = CHR ''?''
    | encodeUserPassword \<Rightarrow> c \<in> set ''@/?:''
    | encodeFragment \<Rightarrow> False
    | encodeHost \<Rightarrow> True)"

definition shouldEscape :: "encoding_mode \<Rightarrow> char \<Rightarrow> bool" where
  "shouldEscape mode c =
    (if alnum c then False
     else if mode = encodeHost \<and> (c \<in> set ''!$&()*+,;=:[]<>'' \<or> c = CHR 0x27 \<or> c = CHR 0x22) then False
     else if c \<in> set ''-_.~'' then False
     else if c \<in> set ''$&+,/:;=?@'' then reservedEscape mode c
     else if mode = encodeFragment \<and> c \<in> set ''!()*'' then False
     else True)"

definition upperhex :: "nat \<Rightarrow> char" where
  "upperhex n = char_of (if n < 10 then 48 + n else 55 + n :: nat)"

definition escape_char :: "encoding_mode \<Rightarrow> char \<Rightarrow> string" where
  "escape_char mode c = (if shouldEscape mode c
     then [CHR ''%'', upperhex (of_char c div 16), upperhex (of_char c mod 16)] else [c])"

definition url_escape :: "encoding_mode \<Rightarrow> string \<Rightarrow> string" where
  "url_escape mode s = concat (map (escape_char mode) s)"

definition unhex :: "char \<Rightarrow> nat option" where
  "unhex c = (let n = of_char c :: nat in
     if 48 \<le> n \<and> n \<le> 57 then Some (n - 48) else if 97 \<le> n \<and> n \<le> 102 then Some (n - 87)
     else if 65 \<le> n \<and> n \<le> 70 then Some (n - 55) else None)"

text \<open>\<open>unescape\<close> in the modes of paths, user names, passwords and fragments, where it only decodes.\<close>

fun url_unescape :: "string \<Rightarrow> string option" where
  "url_unescape [] = Some []"
| "url_unescape (c # s) =
    (if c = CHR ''%'' then
       (case s of
          a # b # s' \<Rightarrow> (case (unhex a, unhex b) of
              (Some x, Some y) \<Rightarrow> map_option ((#) (byte (16 * x + y))) (url_unescape s')
            | _ \<Rightarrow> None)
        | _ \<Rightarrow> None)
     else map_option ((#) c) (url_unescape s))"

definition validEncoded :: "encoding_mode \<Rightarrow> string \<Rightarrow> bool" where
  "validEncoded mode s = list_all (\<lambda>c. c \<in> set ''!$&()*+,;=:@[]%'' \<or> c = CHR 0x27 \<or> \<not> shouldEscape mode c) s"

text \<open>A user is a name and, if one was given, a password.\<close>

record url =
  u_Scheme :: string
  u_Opaque :: string
  u_User :: "(string \<times> string option) option"
  u_Host :: string
  u_Path :: string
  u_RawPath :: string
  u_OmitHost :: bool
  u_ForceQuery :: bool
  u_RawQuery :: string
  u_Fragment :: string
  u_RawFragment :: string

definition url0 :: url where
  "url0 = \<lparr>u_Scheme = [], u_Opaque = [], u_User = None, u_Host = [], u_Path = [], u_RawPath = [], u_OmitHost = False,
     u_ForceQuery = False, u_RawQuery = [], u_Fragment = [], u_RawFragment = []\<rparr>"

text \<open>The scheme: \<open>None\<close> is the error of a leading colon, \<open>Some None\<close> an address without a scheme.\<close>

fun scanScheme :: "nat \<Rightarrow> string \<Rightarrow> nat option option" where
  "scanScheme i [] = Some None"
| "scanScheme i (c # s) =
    (if alpha c then scanScheme (Suc i) s
     else if is_digit c \<or> c \<in> set ''+-.'' then (if i = 0 then Some None else scanScheme (Suc i) s)
     else if c = CHR '':'' then (if i = 0 then None else Some (Some i))
     else Some None)"

definition getScheme :: "string \<Rightarrow> (string \<times> string) option" where
  "getScheme raw = (case scanScheme 0 raw of
      None \<Rightarrow> None
    | Some None \<Rightarrow> Some ([], raw)
    | Some (Some i) \<Rightarrow> Some (take i raw, drop (Suc i) raw))"

definition userinfo_char :: "char \<Rightarrow> bool" where
  "userinfo_char c \<longleftrightarrow> alnum c \<or> c \<in> set ''-._:~!$&()*+,;=%@'' \<or> c = CHR 0x27"

text \<open>The parts before and after the last occurrence of a character.\<close>

definition CutLast :: "string \<Rightarrow> char \<Rightarrow> (string \<times> string) option" where
  "CutLast s c = (if c \<in> set s
     then (let after = rev (takeWhile (\<lambda>x. x \<noteq> c) (rev s)) in Some (take (length s - length after - 1) s, after)) else None)"

text \<open>
  The authority.  Which hosts are accepted, and how they are decoded, differs between versions of the
  library, so \<open>parseHost\<close> is a parameter of which nothing is assumed.
\<close>

definition parseUser :: "string \<Rightarrow> (string \<times> string option) option" where
  "parseUser userinfo =
    (if \<not> list_all userinfo_char userinfo then None
     else if CHR '':'' \<notin> set userinfo then map_option (\<lambda>name. (name, None)) (url_unescape userinfo)
     else (let (username, password, _) = Cut userinfo CHR '':'' in
       case (url_unescape username, url_unescape password) of
         (Some name, Some pw) \<Rightarrow> Some (name, Some pw)
       | _ \<Rightarrow> None))"

definition parseAuthority ::
  "(string \<Rightarrow> string option) \<Rightarrow> string \<Rightarrow> ((string \<times> string option) option \<times> string) option" where
  "parseAuthority parseHost authority = (case CutLast authority CHR ''@'' of
      None \<Rightarrow> map_option (\<lambda>host. (None, host)) (parseHost authority)
    | Some (userinfo, rest) \<Rightarrow> (case parseHost rest of
        None \<Rightarrow> None
      | Some host \<Rightarrow> map_option (\<lambda>user. (Some user, host)) (parseUser userinfo)))"

definition setPath :: "string \<Rightarrow> url \<Rightarrow> url option" where
  "setPath p u = map_option (\<lambda>path. u\<lparr>u_Path := path, u_RawPath := (if p = url_escape encodePath path then [] else p)\<rparr>)
     (url_unescape p)"

definition setFragment :: "string \<Rightarrow> url \<Rightarrow> url option" where
  "setFragment f u = map_option (\<lambda>frag. u\<lparr>u_Fragment := frag, u_RawFragment := (if f = url_escape encodeFragment frag then [] else f)\<rparr>)
     (url_unescape f)"

definition cutQuery :: "string \<Rightarrow> url \<Rightarrow> string \<times> url" where
  "cutQuery rest u =
    (if rest \<noteq> [] \<and> last rest = CHR ''?'' \<and> CHR ''?'' \<notin> set (butlast rest)
     then (butlast rest, u\<lparr>u_ForceQuery := True\<rparr>)
     else (let (rest, query, _) = Cut rest CHR ''?'' in (rest, u\<lparr>u_RawQuery := query\<rparr>)))"

definition parseHier :: "(string \<Rightarrow> string option) \<Rightarrow> string \<Rightarrow> url \<Rightarrow> url option" where
  "parseHier parseHost rest u =
    (if take 1 rest \<noteq> ''/'' \<and> u_Scheme u \<noteq> [] then Some (u\<lparr>u_Opaque := rest\<rparr>)
     else if take 1 rest \<noteq> ''/'' \<and> CHR '':'' \<in> set (takeWhile (\<lambda>c. c \<noteq> CHR ''/'') rest) then None
     else if (u_Scheme u \<noteq> [] \<or> take 3 rest \<noteq> ''///'') \<and> take 2 rest = ''//'' then
       (let authority = takeWhile (\<lambda>c. c \<noteq> CHR ''/'') (drop 2 rest) in
        case parseAuthority parseHost authority of
          None \<Rightarrow> None
        | Some (user, host) \<Rightarrow> setPath (dropWhile (\<lambda>c. c \<noteq> CHR ''/'') (drop 2 rest)) (u\<lparr>u_User := user, u_Host := host\<rparr>))
     else setPath rest (if u_Scheme u \<noteq> [] then u\<lparr>u_OmitHost := True\<rparr> else u))"

definition control :: "char \<Rightarrow> bool" where
  "control c \<longleftrightarrow> of_char c < (32 :: nat) \<or> of_char c = (127 :: nat)"

definition parse_url :: "(string \<Rightarrow> string option) \<Rightarrow> string \<Rightarrow> url option" where
  "parse_url parseHost raw =
    (if list_ex control raw then None
     else if raw = ''*'' then Some (url0\<lparr>u_Path := ''*''\<rparr>)
     else (case getScheme raw of
         None \<Rightarrow> None
       | Some (scheme, rest) \<Rightarrow>
           (let (rest, u) = cutQuery rest (url0\<lparr>u_Scheme := ToLower scheme\<rparr>) in parseHier parseHost rest u)))"

definition url_Parse :: "(string \<Rightarrow> string option) \<Rightarrow> string \<Rightarrow> url option" where
  "url_Parse parseHost raw =
    (let (u, frag, _) = Cut raw CHR ''#'' in
     case parse_url parseHost u of
       None \<Rightarrow> None
     | Some url \<Rightarrow> if frag = [] then Some url else setFragment frag url)"

section \<open>Printing an address\<close>

definition escaped_or_raw :: "encoding_mode \<Rightarrow> string \<Rightarrow> string \<Rightarrow> string" where
  "escaped_or_raw mode raw decoded =
    (if raw \<noteq> [] \<and> validEncoded mode raw \<and> url_unescape raw = Some decoded then raw
     else if mode = encodePath \<and> decoded = ''*'' then ''*''
     else url_escape mode decoded)"

definition Userinfo_String :: "string \<times> string option \<Rightarrow> string" where
  "Userinfo_String user = (case user of
      (name, None) \<Rightarrow> url_escape encodeUserPassword name
    | (name, Some pw) \<Rightarrow> url_escape encodeUserPassword name @ '':'' @ url_escape encodeUserPassword pw)"

definition authority_String :: "url \<Rightarrow> string" where
  "authority_String u =
    (if \<not> (u_Scheme u \<noteq> [] \<or> u_Host u \<noteq> [] \<or> u_User u \<noteq> None) then []
     else if u_OmitHost u \<and> u_Host u = [] \<and> u_User u = None then []
     else (if u_Host u \<noteq> [] \<or> u_Path u \<noteq> [] \<or> u_User u \<noteq> None then ''//'' else [])
       @ (case u_User u of None \<Rightarrow> [] | Some user \<Rightarrow> Userinfo_String user @ ''@'')
       @ url_escape encodeHost (u_Host u))"

definition hier_String :: "string \<Rightarrow> url \<Rightarrow> string" where
  "hier_String scheme u =
    (let auth = authority_String u; path = escaped_or_raw encodePath (u_RawPath u) (u_Path u) in
     auth @ (if path \<noteq> [] \<and> take 1 path \<noteq> ''/'' \<and> u_Host u \<noteq> [] then ''/'' else [])
     @ (if scheme @ auth = [] \<and> \<not> (path \<noteq> [] \<and> take 1 path \<noteq> ''/'' \<and> u_Host u \<noteq> []) \<and>
          CHR '':'' \<in> set (takeWhile (\<lambda>c. c \<noteq> CHR ''/'') path) then ''./'' else [])
     @ path)"

definition url_String :: "url \<Rightarrow> string" where
  "url_String u =
    (let scheme = (if u_Scheme u \<noteq> [] then u_Scheme u @ '':'' else []) in
     scheme @ (if u_Opaque u \<noteq> [] then u_Opaque u else hier_String scheme u)
     @ (if u_ForceQuery u \<or> u_RawQuery u \<noteq> [] then ''?'' @ u_RawQuery u else [])
     @ (if u_Fragment u \<noteq> [] then ''#'' @ escaped_or_raw encodeFragment (u_RawFragment u) (u_Fragment u) else []))"

definition Redacted :: "url \<Rightarrow> string" where
  "Redacted u = url_String (case u_User u of
      Some (name, Some pw) \<Rightarrow> u\<lparr>u_User := Some (name, Some ''xxxxx'')\<rparr>
    | _ \<Rightarrow> u)"

section \<open>Names of a transport\<close>

definition sanitizeURL :: "(string \<Rightarrow> string option) \<Rightarrow> string \<Rightarrow> string" where
  "sanitizeURL parseHost rawURL = (case url_Parse parseHost rawURL of None \<Rightarrow> rawURL | Some u \<Rightarrow> Redacted u)"

definition Transport_String :: "(string \<Rightarrow> string option) \<Rightarrow> run_state \<Rightarrow> string" where
  "Transport_String parseHost st =
    (if r_embedded st \<noteq> None then ''nats(embedded)'' else ''nats('' @ sanitizeURL parseHost (r_url st) @ '')'')"

text \<open>The action that runs the transport: its name, tags and description, and what it does.\<close>

record runner_action =
  ra_Name :: string
  ra_Tags :: "string list"
  ra_Description :: string

definition AsAction :: "(string \<Rightarrow> string option) \<Rightarrow> run_state \<Rightarrow> runner_action" where
  "AsAction parseHost st = \<lparr>ra_Name = ''transport.nats.'' @ sanitizeURL parseHost (r_url st),
     ra_Tags = [''infra'', ''transport'', ''nats''],
     ra_Description = ''NATS Transport Runner on '' @ sanitizeURL parseHost (r_url st)\<rparr>"

definition AsAction_run ::
  "int \<Rightarrow> (StreamConfig \<Rightarrow> StreamConfig) option \<Rightarrow> ctx \<Rightarrow> run_state \<Rightarrow> (do_end \<times> run_state) io" where
  "AsAction_run randomPort modifier ctx st = Do randomPort modifier ctx st"

section \<open>A password does not show\<close>

lemma Cut_append: "c \<notin> set a \<Longrightarrow> Cut (a @ b) c = (a @ fst (Cut b c), snd (Cut b c))"
  by (auto simp: Cut_def takeWhile_append dropWhile_append)

lemma Cut_here: "c \<notin> set a \<Longrightarrow> Cut (a @ c # b) c = (a, b, True)"
  by (simp add: Cut_def takeWhile_append dropWhile_append)

lemma CutLast_last: "c \<notin> set b \<Longrightarrow> CutLast (a @ c # b) c = Some (a, b)"
proof -
  assume "c \<notin> set b"
  then have "takeWhile (\<lambda>x. x \<noteq> c) (rev b @ c # rev a) = rev b"
    by (subst takeWhile_append2) auto
  then show ?thesis by (simp add: CutLast_def)
qed

lemma CutLast_later:
  assumes "CutLast b c = Some (x, y)"
  shows "CutLast (a @ c # b) c = Some (a @ c # x, y)"
proof -
  from assms have "c \<in> set b" by (auto simp: CutLast_def split: if_splits)
  then obtain b1 b2 where b: "b = b1 @ c # b2" and n: "c \<notin> set b2" using split_list_last by metis
  then have "x = b1" "y = b2" using assms CutLast_last [OF n, of b1] by simp_all
  then show ?thesis using CutLast_last [OF n, of "a @ c # b1"] b by simp
qed

lemma url_unescape_append:
  "url_unescape a = Some a' \<Longrightarrow> url_unescape (a @ b) = map_option ((@) a') (url_unescape b)"
proof (induction a arbitrary: a' rule: url_unescape.induct)
  case (2 c s)
  then show ?case by (cases "url_unescape b") (auto split: if_splits list.splits option.splits)
qed (cases "url_unescape b", simp_all)

lemma not_userinfo [simp]: "\<not> userinfo_char CHR ''#''" "\<not> userinfo_char CHR ''?''" "\<not> userinfo_char CHR ''/''"
  by (simp_all add: userinfo_char_def alnum_def alpha_def)

lemma userinfo_control: "userinfo_char c \<Longrightarrow> \<not> control c"
  by (auto simp: userinfo_char_def alnum_def alpha_def control_def)

lemma alpha_plain:
  assumes "alpha c"
  shows "c \<noteq> CHR ''#''" "c \<noteq> CHR ''?''" "c \<noteq> CHR ''/''" "c \<noteq> CHR '':''" "\<not> control c"
  using assms by (auto simp: alpha_def control_def)

text \<open>
  A part of an address with a password: what \<open>parseUser\<close> and \<open>parseAuthority\<close> make of it is the same for
  every password, but for the password itself.
\<close>

definition password_text :: "string \<Rightarrow> bool" where
  "password_text pw \<longleftrightarrow> list_all userinfo_char pw \<and> url_unescape pw \<noteq> None"

definition user_text :: "string \<Rightarrow> bool" where
  "user_text user \<longleftrightarrow> list_all userinfo_char user \<and> CHR '':'' \<notin> set user"

lemma parseUser_uniform:
  assumes "user_text user" and "password_text pw"
  shows "\<exists>x. parseUser (user @ CHR '':'' # pw) = map_option (\<lambda>name. (name, Some x)) (url_unescape user)"
    and "\<exists>x. parseUser (user @ CHR '':'' # pw @ CHR ''@'' # a) =
      (if list_all userinfo_char a \<and> url_unescape a \<noteq> None then map_option (\<lambda>name. (name, Some x)) (url_unescape user) else None)"
proof -
  obtain d where d: "url_unescape pw = Some d" using assms(2) by (auto simp: password_text_def)
  have ok: "list_all userinfo_char user" "list_all userinfo_char pw" "CHR '':'' \<notin> set user"
    "userinfo_char CHR '':''" "userinfo_char CHR ''@''"
    using assms by (auto simp: user_text_def password_text_def userinfo_char_def)
  show "\<exists>x. parseUser (user @ CHR '':'' # pw) = map_option (\<lambda>name. (name, Some x)) (url_unescape user)"
    using ok d by (auto simp: parseUser_def Cut_here split: option.split)
  show "\<exists>x. parseUser (user @ CHR '':'' # pw @ CHR ''@'' # a) =
      (if list_all userinfo_char a \<and> url_unescape a \<noteq> None then map_option (\<lambda>name. (name, Some x)) (url_unescape user) else None)"
    using ok url_unescape_append [OF d, of "CHR ''@'' # a"] by (auto simp: parseUser_def Cut_here split: option.split)
qed

text \<open>The part of an address before its path, as a function of the password.\<close>

abbreviation with_password :: "string \<Rightarrow> string \<Rightarrow> string \<Rightarrow> string" where
  "with_password user pw rest \<equiv> user @ CHR '':'' # pw @ CHR ''@'' # rest"

lemma parseAuthority_uniform:
  assumes "user_text user"
  shows "\<exists>G. \<forall>pw. password_text pw \<longrightarrow> (\<exists>x. parseAuthority parseHost (with_password user pw h) =
    map_option (\<lambda>(name, host). (Some (name, Some x), host)) G)"
proof (cases "CutLast h CHR ''@''")
  case None
  then have n: "CHR ''@'' \<notin> set h" by (auto simp: CutLast_def Let_def split: if_splits)
  have cut: "CutLast (with_password user pw h) CHR ''@'' = Some (user @ CHR '':'' # pw, h)" for pw
    using CutLast_last [OF n, of "user @ CHR '':'' # pw"] by simp
  let ?G = "case (parseHost h, url_unescape user) of (Some host, Some name) \<Rightarrow> Some (name, host) | _ \<Rightarrow> None"
  have "\<exists>x. parseAuthority parseHost (with_password user pw h) =
    map_option (\<lambda>(name, host). (Some (name, Some x), host)) ?G" if "password_text pw" for pw
    using parseUser_uniform(1) [OF assms that] by (auto simp: parseAuthority_def cut split: option.split)
  then show ?thesis by blast
next
  case (Some ab)
  obtain a b where ab: "ab = (a, b)" by (cases ab)
  have cut: "CutLast (with_password user pw h) CHR ''@'' = Some (user @ CHR '':'' # pw @ CHR ''@'' # a, b)" for pw
    using CutLast_later [of h "CHR ''@''" a b "user @ CHR '':'' # pw"] Some ab by simp
  let ?G = "if list_all userinfo_char a \<and> url_unescape a \<noteq> None
     then (case (parseHost b, url_unescape user) of (Some host, Some name) \<Rightarrow> Some (name, host) | _ \<Rightarrow> None) else None"
  have "\<exists>x. parseAuthority parseHost (with_password user pw h) =
    map_option (\<lambda>(name, host). (Some (name, Some x), host)) ?G" if "password_text pw" for pw
    using parseUser_uniform(2) [OF assms that, of a] by (auto simp: parseAuthority_def cut split: option.split)
  then show ?thesis by blast
qed

text \<open>The same for the stages of \<open>Parse\<close> from the inside out; \<open>rest\<close> is what follows the password.\<close>

definition same_user :: "string \<Rightarrow> (string \<Rightarrow> url option) \<Rightarrow> bool" where
  "same_user user f \<longleftrightarrow> (\<exists>G. \<forall>pw. password_text pw \<longrightarrow> (\<exists>x. f pw = map_option (\<lambda>(name, u). u\<lparr>u_User := Some (name, Some x)\<rparr>) G))"

lemma same_userI:
  "(\<And>pw. password_text pw \<Longrightarrow> \<exists>x. f pw = map_option (\<lambda>(name, u). u\<lparr>u_User := Some (name, Some x)\<rparr>) G) \<Longrightarrow> same_user user f"
  by (auto simp: same_user_def)

lemma same_user_Redacted:
  assumes "same_user user f" and "password_text pw" "password_text pw'"
  shows "map_option Redacted (f pw) = map_option Redacted (f pw')"
proof -
  obtain G x y where "f pw = map_option (\<lambda>(name, u). u\<lparr>u_User := Some (name, Some x)\<rparr>) G"
    "f pw' = map_option (\<lambda>(name, u). u\<lparr>u_User := Some (name, Some y)\<rparr>) G"
    using assms unfolding same_user_def by blast
  then show ?thesis by (cases G) (auto simp: Redacted_def)
qed

lemma setPath_user: "setPath p (u\<lparr>u_User := v, u_Host := h\<rparr>) = map_option (\<lambda>u. u\<lparr>u_User := v\<rparr>) (setPath p (u\<lparr>u_Host := h\<rparr>))"
  by (cases u; cases "url_unescape p") (simp_all add: setPath_def)

lemma setFragment_user: "setFragment p (u\<lparr>u_User := v\<rparr>) = map_option (\<lambda>u. u\<lparr>u_User := v\<rparr>) (setFragment p u)"
  by (cases u; cases "url_unescape p") (simp_all add: setFragment_def)

lemma password_free:
  assumes "user_text user" and "password_text pw" and "c = CHR ''#'' \<or> c = CHR ''?'' \<or> c = CHR ''/''"
  shows "c \<notin> set (with_password user pw [])"
  using assms not_userinfo by (auto simp: user_text_def password_text_def list_all_iff simp del: not_userinfo)

lemma parseHier_uniform:
  assumes user: "user_text user" and "u_Scheme u \<noteq> []"
  shows "same_user user (\<lambda>pw. parseHier parseHost (''//'' @ with_password user pw rest) u)"
proof -
  let ?h = "takeWhile (\<lambda>c. c \<noteq> CHR ''/'') rest" and ?p = "dropWhile (\<lambda>c. c \<noteq> CHR ''/'') rest"
  obtain A where A: "\<And>pw. password_text pw \<Longrightarrow> \<exists>x. parseAuthority parseHost (with_password user pw ?h) =
      map_option (\<lambda>(name, host). (Some (name, Some x), host)) A"
    using parseAuthority_uniform [OF user, of parseHost ?h] by blast
  let ?G = "case A of None \<Rightarrow> None | Some (name, host) \<Rightarrow> map_option (\<lambda>u. (name, u)) (setPath ?p (u\<lparr>u_Host := host\<rparr>))"
  show ?thesis
  proof (rule same_userI [where G = ?G])
    fix pw assume pw: "password_text pw"
    have free: "CHR ''/'' \<notin> set (with_password user pw [])" by (rule password_free [OF user pw]) simp
    then have split: "takeWhile (\<lambda>c. c \<noteq> CHR ''/'') (with_password user pw rest) = with_password user pw ?h"
      "dropWhile (\<lambda>c. c \<noteq> CHR ''/'') (with_password user pw rest) = ?p"
      by (auto simp: takeWhile_append dropWhile_append)
    obtain x where "parseAuthority parseHost (with_password user pw ?h) = map_option (\<lambda>(name, host). (Some (name, Some x), host)) A"
      using A [OF pw] by blast
    then show "\<exists>x. parseHier parseHost (''//'' @ with_password user pw rest) u =
        map_option (\<lambda>(name, u). u\<lparr>u_User := Some (name, Some x)\<rparr>) ?G"
      using assms(2) by (cases A) (auto simp: parseHier_def split setPath_user option.map_comp comp_def intro!: exI [of _ x])
  qed
qed

lemma cutQuery_append:
  assumes "a \<noteq> []" and "CHR ''?'' \<notin> set a"
  shows "cutQuery (a @ b) u = (a @ fst (cutQuery b u), snd (cutQuery b u))"
proof -
  have "last a \<noteq> CHR ''?''" using assms by (metis last_in_set)
  then show ?thesis
    using assms by (cases "b = []") (simp add: cutQuery_def Cut_def, auto simp: cutQuery_def Cut_append butlast_append split: prod.split)
qed

lemma cutQuery_Scheme: "u_Scheme (snd (cutQuery b u)) = u_Scheme u"
  by (simp add: cutQuery_def split: prod.split)

definition scheme_text :: "string \<Rightarrow> bool" where
  "scheme_text sch \<longleftrightarrow> sch \<noteq> [] \<and> list_all alpha sch"

lemma scanScheme_text: "list_all alpha sch \<Longrightarrow> i + length sch > 0 \<Longrightarrow> scanScheme i (sch @ CHR '':'' # x) = Some (Some (i + length sch))"
  by (induction sch arbitrary: i) (auto simp: alpha_def)

lemma getScheme_text: "scheme_text sch \<Longrightarrow> getScheme (sch @ '':'' @ x) = Some (sch, x)"
  by (simp add: getScheme_def scheme_text_def scanScheme_text)

lemma parse_url_uniform:
  assumes sch: "scheme_text sch" and user: "user_text user"
  shows "same_user user (\<lambda>pw. parse_url parseHost (sch @ ''://'' @ with_password user pw rest))"
proof (cases "list_ex control rest")
  case True
  then show ?thesis by (intro same_userI [where G = None]) (simp add: parse_url_def)
next
  case False
  let ?u = "url0\<lparr>u_Scheme := ToLower sch\<rparr>"
  let ?q = "cutQuery rest ?u"
  have eq: "parse_url parseHost (sch @ ''://'' @ with_password user pw rest) =
      parseHier parseHost (''//'' @ with_password user pw (fst ?q)) (snd ?q)" if pw: "password_text pw" for pw
  proof -
    have "\<not> list_ex control (sch @ ''://'' @ with_password user pw rest)"
      using False sch user pw alpha_plain(5) userinfo_control
      by (auto simp: list_ex_iff list_all_iff scheme_text_def user_text_def password_text_def control_def)
    moreover have "CHR ''?'' \<notin> set (''//'' @ with_password user pw [])"
      using password_free [OF user pw, of "CHR ''?''"] by simp
    then have "cutQuery (''//'' @ with_password user pw rest) ?u = (''//'' @ with_password user pw (fst ?q), snd ?q)"
      using cutQuery_append [of "''//'' @ with_password user pw []" rest ?u] by simp
    ultimately show ?thesis using getScheme_text [OF sch, of "''//'' @ with_password user pw rest"]
      by (auto simp: parse_url_def)
  qed
  have "u_Scheme (snd ?q) \<noteq> []" using sch by (simp add: cutQuery_Scheme ToLower_def scheme_text_def)
  from parseHier_uniform [OF user this] eq show ?thesis unfolding same_user_def by metis
qed

lemma url_Parse_uniform:
  assumes sch: "scheme_text sch" and user: "user_text user"
  shows "same_user user (\<lambda>pw. url_Parse parseHost (sch @ ''://'' @ with_password user pw rest))"
proof -
  let ?r = "fst (Cut rest CHR ''#'')" and ?f = "fst (snd (Cut rest CHR ''#''))"
  obtain A where A: "\<And>pw. password_text pw \<Longrightarrow> \<exists>x. parse_url parseHost (sch @ ''://'' @ with_password user pw ?r) =
      map_option (\<lambda>(name, u). u\<lparr>u_User := Some (name, Some x)\<rparr>) A"
    using parse_url_uniform [OF sch user, of parseHost ?r] unfolding same_user_def by blast
  let ?G = "case A of None \<Rightarrow> None | Some (name, u) \<Rightarrow> map_option (\<lambda>u. (name, u)) (if ?f = [] then Some u else setFragment ?f u)"
  show ?thesis
  proof (rule same_userI [where G = ?G])
    fix pw assume pw: "password_text pw"
    have "CHR ''#'' \<notin> set (sch @ ''://'' @ with_password user pw [])"
      using password_free [OF user pw, of "CHR ''#''"] sch by (auto simp: scheme_text_def list_all_iff dest: alpha_plain(1))
    from Cut_append [OF this, of rest]
    have "Cut (sch @ ''://'' @ with_password user pw rest) CHR ''#'' = (sch @ ''://'' @ with_password user pw ?r, ?f, snd (snd (Cut rest CHR ''#'')))"
      by simp
    moreover obtain x where "parse_url parseHost (sch @ ''://'' @ with_password user pw ?r) =
        map_option (\<lambda>(name, u). u\<lparr>u_User := Some (name, Some x)\<rparr>) A" using A [OF pw] by blast
    ultimately show "\<exists>x. url_Parse parseHost (sch @ ''://'' @ with_password user pw rest) =
        map_option (\<lambda>(name, u). u\<lparr>u_User := Some (name, Some x)\<rparr>) ?G"
      by (cases A) (auto simp: url_Parse_def setFragment_user option.map_comp comp_def case_prod_unfold intro!: exI [of _ x])
  qed
qed

text \<open>
  C18: The names a transport gives itself do not depend on the password of its address. For an address with a scheme, a user
  and a password that can be parsed, whatever host, path, query and fragment follow, \<open>String\<close> and
  the name, tags and description of \<open>AsAction\<close> are the same for every other password.
\<close>

theorem names_hide_password:
  assumes "scheme_text sch" "user_text user" "password_text pw" "password_text pw'"
    and url: "r_url st = sch @ ''://'' @ with_password user pw rest" and "url_Parse parseHost (r_url st) \<noteq> None"
  shows "Transport_String parseHost (st\<lparr>r_url := sch @ ''://'' @ with_password user pw' rest\<rparr>) = Transport_String parseHost st \<and>
    AsAction parseHost (st\<lparr>r_url := sch @ ''://'' @ with_password user pw' rest\<rparr>) = AsAction parseHost st"
proof -
  let ?url = "\<lambda>pw. sch @ ''://'' @ with_password user pw rest"
  obtain u where u: "url_Parse parseHost (?url pw) = Some u" using assms(6) unfolding url by blast
  have "map_option Redacted (url_Parse parseHost (?url pw)) = map_option Redacted (url_Parse parseHost (?url pw'))"
    by (rule same_user_Redacted [OF url_Parse_uniform [OF assms(1,2)] assms(3,4)])
  then obtain u' where "url_Parse parseHost (?url pw') = Some u'" "Redacted u' = Redacted u"
    unfolding u by (cases "url_Parse parseHost (?url pw')") simp_all
  then have "sanitizeURL parseHost (?url pw') = sanitizeURL parseHost (r_url st)"
    unfolding url sanitizeURL_def u by (simp only: option.case)
  then show ?thesis by (simp add: Transport_String_def AsAction_def)
qed

definition secretRun :: run_state where
  "secretRun = idle_state False ''nats://bob:s3cret@h:4222'' None None"

lemma secret_parsed: "url_Parse Some ''nats://bob:s3cret@h:4222'' \<noteq> None"
  by (simp add: url_Parse_def parse_url_def getScheme_def cutQuery_def parseHier_def parseAuthority_def parseUser_def setPath_def
      Cut_def CutLast_def control_def alpha_def alnum_def userinfo_char_def url_escape_def Let_def)

theorem names_hide_password_witness:
  "Transport_String Some (secretRun\<lparr>r_url := ''nats://bob:hunter2@h:4222''\<rparr>) = Transport_String Some secretRun"
proof -
  have "scheme_text ''nats''" "user_text ''bob''" "password_text ''s3cret''" "password_text ''hunter2''"
    by (simp_all add: scheme_text_def user_text_def password_text_def userinfo_char_def alnum_def alpha_def)
  from names_hide_password [OF this, of secretRun "''h:4222''" Some] show ?thesis
    using secret_parsed by (simp add: secretRun_def idle_state_def)
qed

text \<open>
  Several addresses joined by \<open>WithURLs\<close> are parsed as one. The second is taken for the path of the
  first, or the address cannot be parsed and is returned as it is: in both cases it shows with its
  password.
\<close>

lemma url_unescape_plain: "CHR ''%'' \<notin> set s \<Longrightarrow> url_unescape s = Some s"
  by (induction s) auto

lemma url_escape_plain: "list_all (\<lambda>c. \<not> shouldEscape mode c) s \<Longrightarrow> url_escape mode s = s"
  by (induction s) (auto simp: url_escape_def escape_char_def)

definition address_char :: "char \<Rightarrow> bool" where
  "address_char c \<longleftrightarrow> alnum c \<or> c \<in> set ''-._~:@''"

lemma not_address [simp]:
  "\<not> address_char CHR ''#''" "\<not> address_char CHR ''?''" "\<not> address_char CHR ''/''" "\<not> address_char CHR ''%''"
  by (simp_all add: address_char_def alnum_def alpha_def)

lemma address_free: "list_all address_char s \<Longrightarrow> \<not> address_char c \<Longrightarrow> c \<notin> set s"
  by (auto simp: list_all_iff)

lemma address_unescaped: "address_char c \<Longrightarrow> \<not> shouldEscape encodePath c"
  by (auto simp: address_char_def shouldEscape_def reservedEscape_def)

lemma address_path: "list_all address_char s \<Longrightarrow> url_escape encodePath s = s"
  by (rule url_escape_plain) (simp add: list_all_iff address_unescaped)

text \<open>An address whose path is \<open>p\<close>, printed, ends with it.\<close>

lemma hier_String_ends:
  assumes "u_Path u = p" "u_RawPath u = []" "url_escape encodePath p = p" "p \<noteq> ''*''"
  shows "\<exists>x. hier_String scheme u = x @ p"
proof -
  have e: "escaped_or_raw encodePath (u_RawPath u) (u_Path u) = p" using assms by (simp add: escaped_or_raw_def)
  show ?thesis unfolding hier_String_def Let_def e by (metis append_assoc)
qed

lemma url_String_ends:
  assumes "u_Path u = p" "u_RawPath u = []" "url_escape encodePath p = p" "p \<noteq> ''*''" "u_Opaque u = []"
    and "\<not> u_ForceQuery u" "u_RawQuery u = []" "u_Fragment u = []"
  shows "\<exists>x. url_String u = x @ p"
proof -
  obtain x where "hier_String (if u_Scheme u \<noteq> [] then u_Scheme u @ '':'' else []) u = x @ p"
    using hier_String_ends [OF assms(1-4)] by blast
  then show ?thesis using assms(5-8) by (auto simp: url_String_def Let_def)
qed

lemma Redacted_ends:
  assumes "u_Path u = p" "u_RawPath u = []" "url_escape encodePath p = p" "p \<noteq> ''*''" "u_Opaque u = []"
    and "\<not> u_ForceQuery u" "u_RawQuery u = []" "u_Fragment u = []"
  shows "\<exists>x. Redacted u = x @ p"
proof -
  have "\<exists>v. Redacted u = url_String (u\<lparr>u_User := v\<rparr>)"
    by (cases u) (auto simp: Redacted_def split: option.split)
  then obtain v where "Redacted u = url_String (u\<lparr>u_User := v\<rparr>)" ..
  then show ?thesis using url_String_ends [of "u\<lparr>u_User := v\<rparr>" p] assms by simp
qed

lemma parse_joined:
  assumes a: "list_all address_char a" and t: "list_all address_char t"
    and parsed: "url_Parse parseHost (''nats://'' @ a @ '',nats://'' @ t) = Some u"
  shows "u_Path u = ''//'' @ t \<and> u_RawPath u = [] \<and> u_Opaque u = [] \<and> \<not> u_ForceQuery u \<and> u_RawQuery u = [] \<and> u_Fragment u = []"
proof -
  let ?auth = "a @ '',nats:''" and ?path = "''//'' @ t"
  let ?u = "url0\<lparr>u_Scheme := ''nats'', u_RawQuery := []\<rparr>"
  note free = address_free [OF a] address_free [OF t]
  have "Cut (''nats://'' @ a @ '',nats://'' @ t) CHR ''#'' = (''nats://'' @ a @ '',nats://'' @ t, [], False)"
    using free by (simp add: Cut_def)
  then have "parse_url parseHost (''nats://'' @ a @ '',nats://'' @ t) = Some u"
    using parsed by (simp add: url_Parse_def split: option.splits)
  moreover have "cutQuery (''//'' @ ?auth @ ?path) (url0\<lparr>u_Scheme := ''nats''\<rparr>) = (''//'' @ ?auth @ ?path, ?u)"
    using cutQuery_append [of "''//'' @ ?auth @ ?path" "[]"] free by (simp add: cutQuery_def Cut_def)
  moreover have "getScheme (''nats'' @ '':'' @ ''//'' @ ?auth @ ?path) = Some (''nats'', ''//'' @ ?auth @ ?path)"
    by (rule getScheme_text) (simp add: scheme_text_def alpha_def)
  moreover have "ToLower ''nats'' = ''nats''" by (simp add: ToLower_def lower_char_def)
  ultimately have hier: "parseHier parseHost (''//'' @ ?auth @ ?path) ?u = Some u"
    by (simp add: parse_url_def split: if_splits)
  have "takeWhile (\<lambda>c. c \<noteq> CHR ''/'') (?auth @ ?path) = ?auth" "dropWhile (\<lambda>c. c \<noteq> CHR ''/'') (?auth @ ?path) = ?path"
    using free(1) [of "CHR ''/''"] by (auto simp: takeWhile_append dropWhile_append)
  then obtain user host where "setPath ?path (?u\<lparr>u_User := user, u_Host := host\<rparr>) = Some u"
    using hier by (auto simp: parseHier_def Let_def split: option.splits prod.splits)
  moreover have "url_unescape ?path = Some ?path" using free(2) by (intro url_unescape_plain) simp
  moreover have "url_escape encodePath ?path = ?path"
    using address_path [OF t] by (simp add: url_escape_def escape_char_def shouldEscape_def reservedEscape_def alnum_def alpha_def)
  ultimately show ?thesis by (auto simp: setPath_def url0_def)
qed

lemma joined_address_shows:
  assumes "list_all address_char a" and "list_all address_char t"
  shows "\<exists>x. sanitizeURL parseHost (joinNATSURLs [''nats://'' @ a, ''nats://'' @ t]) = x @ t"
proof -
  have j: "joinNATSURLs [''nats://'' @ a, ''nats://'' @ t] = ''nats://'' @ a @ '',nats://'' @ t"
    by (simp add: joinNATSURLs_def)
  have p: "url_escape encodePath (''//'' @ t) = ''//'' @ t"
    using address_path [OF assms(2)] by (simp add: url_escape_def escape_char_def shouldEscape_def reservedEscape_def alnum_def alpha_def)
  show ?thesis
  proof (cases "url_Parse parseHost (joinNATSURLs [''nats://'' @ a, ''nats://'' @ t])")
    case None
    then show ?thesis by (intro exI [of _ "''nats://'' @ a @ '',nats://''"]) (simp add: sanitizeURL_def joinNATSURLs_def)
  next
    case (Some u)
    then obtain x where "Redacted u = x @ ''//'' @ t"
      using parse_joined [OF assms, of parseHost u] Redacted_ends [of u "''//'' @ t", OF _ _ p] unfolding j by auto
    then show ?thesis using Some by (intro exI [of _ "x @ ''//''"]) (simp add: sanitizeURL_def)
  qed
qed

end
