(* ===== verification/Testkit.thy ===== *)
theory Testkit
  imports Lifecycle
begin

text \<open>
  The contract that a transport is tested against: \<open>src/tnats/testkit/contract.go\<close>.  A fatal failure
  ends the test; deferred functions and registered cleanups still run.
\<close>

section \<open>The server of a test\<close>

datatype 'a verdict = Fatal string | Passed 'a

text \<open>
  \<open>StartEmbedded\<close>, from what the network answers when a port is reserved: the port, if the address is
  one of TCP, and the error of releasing it.  The second result is whether the cleanup that stops
  the server was registered.
\<close>

definition testOptions :: "bool \<Rightarrow> string \<Rightarrow> nat \<Rightarrow> server_Options" where
  "testOptions jetStream tempDir port = \<lparr>so_Host = ''127.0.0.1'', so_Port = int port, so_ServerName = [], so_JetStream = jetStream,
     so_StoreDir = tempDir, so_MaxPayload = 0, so_MaxConn = 0, so_Username = [], so_Password = [], so_Authorization = [],
     so_Debug = False, so_Trace = False, so_NoLog = True, so_NoSigs = True, so_Rest = 0\<rparr>"

definition StartEmbedded ::
  "goerror + nat option \<Rightarrow> goerror option \<Rightarrow> string \<Rightarrow> bool \<Rightarrow> (string verdict \<times> bool) io" where
  "StartEmbedded listen closeErr tempDir jetStream = (case listen of
      Inl e \<Rightarrow> Ret (Fatal ''testkit: reserve port'', False)
    | Inr None \<Rightarrow> Ret (Fatal ''testkit: expected *net.TCPAddr'', False)
    | Inr (Some port) \<Rightarrow>
        if closeErr \<noteq> None then Ret (Fatal ''testkit: release reserved port'', False)
        else Call (Run (NewServer (testOptions jetStream tempDir port))) (\<lambda>a. case a_err a of
            Some e \<Rightarrow> Ret (Fatal ''testkit: new server'', False)
          | None \<Rightarrow> Call (Run SrvStart) (\<lambda>_. Call (Run (SrvReadyForConnections (5 * Second))) (\<lambda>a.
              if \<not> a_flag a then Ret (Fatal ''testkit: server startup timed out'', False)
              else Ret (Passed (''nats://127.0.0.1:'' @ decimal port), True)))))"

definition testCleanup :: "bool \<Rightarrow> unit io" where
  "testCleanup registered = stopServer registered"

definition NewTransport :: "nat \<Rightarrow> nat \<Rightarrow> string \<Rightarrow> transport_option option list \<Rightarrow> settings" where
  "NewTransport defaultCodec memoryStore url opts = New_settings defaultCodec memoryStore url opts"

section \<open>The contract\<close>

text \<open>The idempotency configuration of a new action is the kernel's.\<close>

definition contractAction :: "IdempotencyConfig \<Rightarrow> any_action" where
  "contractAction idem = \<lparr>aa_Exec = Some 0, aa_Describe = Some (''contract.ping'', idem), aa_Bindings = [IsTopic (Topic ''contract.ping'' [])]\<rparr>"

text \<open>
  What a run of the contract observes: \<open>WaitReady\<close>, \<open>Publish\<close>, whether the action ran within its time, and
  how the transport stopped after the cancellation, if it did in time.
\<close>

record contract_run =
  ct_ready :: "goerror option"
  ct_publish :: "goerror option"
  ct_received :: bool
  ct_stop :: "goerror option option"

text \<open>The failures the contract reports; none is a pass.\<close>

definition RunContract :: "contract_run \<Rightarrow> string list" where
  "RunContract c =
    (if ct_ready c \<noteq> None then [''WaitReady'']
     else if ct_publish c \<noteq> None then [''Publish'']
     else if \<not> ct_received c then [''contract: no message received within deadline''] else [])
    @ (case ct_stop c of
         None \<Rightarrow> [''contract transport did not stop after cancellation'']
       | Some (Some e) \<Rightarrow> [''contract transport stopped with error'']
       | Some None \<Rightarrow> [])"

section \<open>What the contract shows\<close>

text \<open>
  A server that was started is stopped by the cleanup exactly if the start passed: one that is not
  ready in time is left running.
\<close>

lemma StartEmbedded_cleanup:
  assumes "replay (StartEmbedded listen closeErr tempDir jetStream) tr = Some (v, registered)"
    and "replay (testCleanup registered) tr' = Some ()"
  shows "servers_ended (tr @ tr') = (case v of Passed url \<Rightarrow> servers_started (tr @ tr') | Fatal m \<Rightarrow> 0)"
  using assms unfolding StartEmbedded_def testCleanup_def stopServer_def servers_started_def servers_ended_def
  by (auto simp: trace_simps split: sum.splits option.splits if_splits)

text \<open>
  A new transport that passes, on what a run of \<open>Do\<close> with the action of the contract signals and
  returns, has subscribed the action and confirmed it, has delivered, and stopped without an error.
\<close>

lemma RunContract_sound:
  assumes "replay (Do randomPort modifier ctx (Mount [contractAction idem] (New_run (NewTransport dc ms url opts)))) tr =
      Some (Finished err, st')"
    and "ct_ready c = r_readyErr st'" "ct_stop c = Some err" and "RunContract c = []"
  shows "mounted_and_flushed ctx modifier (Mount [contractAction idem] (New_run (NewTransport dc ms url opts))) tr \<and>
    ct_received c \<and> err = None"
proof -
  let ?st = "Mount [contractAction idem] (New_run (NewTransport dc ms url opts))"
  have "ready_ok ?st" "at_rest ?st" "\<not> r_readyOnce ?st"
    by (simp_all add: Mount_def New_run_def idle_state_def ready_ok_def at_rest_def)
  then show ?thesis using Do_run [OF assms(1)] assms(2-4)
    by (auto simp: RunContract_def split: if_splits option.splits)
qed

end
