(* ===== verification/Spec2Isabelle.thy ===== *)
theory Spec2Isabelle
  imports Errors Subjects Bindings Idem_KV Idem_Exec Idem_Concurrency Contexts Delivery Streams
    Connection KV_Client Watchers Objects Messaging
    Micro Settings Lifecycle Encodings Flow Flow_Actions
    Dial_Signals Flow_Listen Redaction Testkit
begin

text \<open>
  Verification of the NATS transport: the Go packages \<open>src/tnats\<close> and \<open>src/nexssflow\<close>.

  \<^bold>\<open>The program.\<close>  A transport connects actions (handlers of a kernel module) to a NATS server.
  An action carries bindings; \<open>Do\<close> connects, mounts every binding (topics and requests, durable work
  and pull consumers, watches of key-value buckets and object stores, micro services), signals
  readiness, and cleans up when its context ends.  Deliveries run the action, under an
  idempotency coordinator where one is configured, and are acknowledged, retried or dead-lettered.
  Beside this the transport publishes, sends requests and works on buckets and stores.  The flow
  library offers all of this as modifiers and actions of a flow compiler.

  \<^bold>\<open>How code is modelled.\<close>  Code that calls other modules is a program of type \<open>io\<close>: a tree that
  returns or issues one request and continues with its answer.  \<open>replay p tr = Some x\<close> says that
  \<open>p\<close> returns \<open>x\<close> when its calls and their answers are \<open>tr\<close>.  Answers are arbitrary values of
  the Go result type, so a theorem about all traces holds for every behaviour of server, client and
  action; where a theorem relies on the server (\<open>Idem_Concurrency\<close>), its documented contract is a
  hypothesis.  Code that runs concurrently on shared fields is a step relation over program counters.
  Errors are values of \<open>goerror\<close>; panics are a result (\<open>outcome\<close>, \<open>do_end\<close>).  Counters and
  revisions are words of their width; durations and instants are integers, with the 64-bit range
  checked where the source checks it.

  \<^bold>\<open>Theories.\<close>
  \<^item> \<open>Prelude\<close>: programs, replay, generic lemmas.  \<open>Effects\<close>: the requests, answers and values at
    the boundary.  \<open>Digest\<close>, \<open>Encodings\<close>: the standard library (SHA-256, hexadecimal; base64, UTF-8,
    splitting, \<open>ParseDuration\<close>), with round trips and ranges.
  \<^item> \<open>Errors\<close> (\<open>error.go\<close>): error trees, \<open>errors.Is\<close>, the classification of \<open>MapError\<close> and what it keeps
    of an error.
  \<^item> \<open>Subjects\<close> (\<open>tnats_stream.go\<close>, \<open>objectstore.go\<close>): the index loops of the wildcard matchers
    refine matchers on tokens; pattern covering is inclusion of the matched subjects, except for a full
    wildcard met by a single-token one.
  \<^item> \<open>Bindings\<close> (\<open>binding.go\<close>, \<open>consumer.go\<close>), \<open>Contexts\<close> (\<open>tnats_context.go\<close>): the records of routes
    and their validation; identifiers in message headers and their round trip, where the execution
    identifier depends on two modules naming its header alike.
  \<^item> \<open>Idem_KV\<close> (\<open>idempotency_kv.go\<close>), \<open>Idem_Exec\<close> (\<open>idempotency.go\<close>): the coordinator over a bucket
    and execution under it.  A claim commits at most one write; completing is ordered; an acquired
    execution runs the action once and settles its claim under the token it acquired.
    \<open>Idem_Concurrency\<close>: the same calls of many processes interleaved on one bucket; a live claim belongs
    to its token, but a claim overtaken between look-up and write acquires a completed key.
  \<^item> \<open>Streams\<close>, \<open>Delivery\<close> (\<open>tnats_stream.go\<close>, \<open>consumer.go\<close>, \<open>tnats_durable.go\<close>): provisioning
    up to streams that take every message of the wanted subjects, pull subscriptions and loops, and the
    two message handlers with their delivery discipline.
  \<^item> \<open>Connection\<close> (\<open>lazy.go\<close>): threads that connect, close and run on one transport; at most one open
    connection, and none stored while closing: a dial then gives its connection back.  \<open>Dial_Signals\<close>: the options of a dial and the callbacks
    that wake it; no wake-up and no callback of the user is lost.
  \<^item> \<open>KV_Client\<close> (\<open>kv_operations.go\<close>), \<open>Watchers\<close> (\<open>tnats_kv.go\<close>), \<open>Objects\<close> (\<open>objectstore.go\<close>):
    bucket and store operations, bounded reads, and watches that reopen with a backoff.
  \<^item> \<open>Messaging\<close> (\<open>tnats_publish.go\<close>, \<open>identity.go\<close>, \<open>subscribeTopic\<close>): publishing, requests, topic
    handlers; a failed run is never a successful reply.
  \<^item> \<open>Micro\<close> (\<open>micro.go\<close>): services, their mounting with rollback, and the endpoint handler.
  \<^item> \<open>Settings\<close> (\<open>tnats.go\<close>, \<open>auth.go\<close>, \<open>embedded.go\<close>, \<open>tnats_production.go\<close>): \<open>New\<close> and its options,
    the embedded server, production validation.
  \<^item> \<open>Lifecycle\<close> (\<open>tnats_runner.go\<close>, \<open>tnats.go\<close>, \<open>from_conn.go\<close>): \<open>Do\<close> as a whole over the record
    \<open>run_state\<close>, composed of the mounting operations of the theories above; clean-up, readiness, and
    the failure of \<open>Do\<close> on a transport of \<open>FromConn\<close>.
  \<^item> \<open>Flow\<close> (\<open>library.go\<close>), \<open>Flow_Actions\<close> (\<open>jetstream_actions.go\<close>): bundle, modifiers, the
    actions \<open>nats.listen\<close> mounts, and the other actions.  \<open>Flow_Listen\<close>: the two processes of \<open>nats.listen\<close>, interleaved.
  \<^item> \<open>Redaction\<close> (\<open>tnats_context.go\<close>, \<open>tnats.go\<close>): addresses of \<open>net/url\<close> and the names a transport gives
    itself; a password does not show, except in the joined addresses of \<open>WithURLs\<close>.
  \<^item> \<open>Testkit\<close> (\<open>testkit/contract.go\<close>): the server of a test and the verdict of the contract.

  \<^bold>\<open>Interfaces.\<close>  Four locales state contracts between components and are interpreted on the model:
  \<open>coordinator_contract\<close> (execution over a coordinator; the bucket coordinator), \<open>delivery_handler\<close> and
  \<open>pull_worker\<close> (the loop over a handler; both handlers), \<open>watched\<close> (the reopening loop over a consumer
  of events; buckets and object stores).

  \<^bold>\<open>Bounds.\<close>  Loops over data are recursive functions with a termination proof.  The three rounds of
  \<open>ensureStream\<close> are those of the source, so provisioning is total.  The fetch and watch loops run until
  their context ends, which may be never; they take a number of rounds and give \<open>None\<close> while still
  running.  Their theorems hold for every number of rounds and every trace; that such a loop ends is not
  claimed, since it is up to the environment.

  \<^bold>\<open>Not modelled.\<close>
  \<^item> Logging and \<open>WithLogger\<close>, which change neither results nor broker state.  The accessors \<open>Conn\<close> and
    \<open>JetStream\<close> only read a field.
  \<^item> The key library behind \<open>WithNKeySeedFunc\<close> and the acceptance of hosts by \<open>net/url\<close>, which differs
    between its versions: both are parameters of which nothing is assumed.
  \<^item> The run inside \<open>Flow_Listen\<close> is seen by what it signals and returns, not call by call.  Names,
    tags and descriptions of the flow actions are left to the flow compiler.
  \<^item> \<open>Lifecycle\<close> takes the connecting of \<open>Connection\<close> and the end of the workers as calls; worker
    goroutines run as programs of their own and are not interleaved with \<open>Do\<close>.
  \<^item> The time limits of \<open>testkit/contract.go\<close>; what the contract observes within them is its input.
\<close>

end
